theory Spec2Isabelle
  imports Main "HOL-Library.AList" "HOL-Library.Multiset"
begin

section \<open>Data model of the signing pipeline (\<open>common_library/signer/base_signer.py\<close>)\<close>

type_synonym path = string

text \<open>Exceptions. \<open>SignError\<close>, \<open>KeyError\<close>, \<open>TypeError\<close> and \<open>AttributeError\<close> are the ones the
  source raises itself (explicitly, or through a dictionary lookup, a path join with \<open>None\<close>, an
  attribute read on \<open>None\<close>); \<open>ExternalError\<close> stands for whatever a collaborator or a library
  call raises.\<close>

datatype exn =
    SignError string
  | KeyError string
  | TypeError string
  | AttributeError string
  | ExternalError string

text \<open>\<open>constants.py\<close>\<close>

datatype SignStatusEnum = SUCCESS | READ_ERROR | NO_SIGNATURE | WRONG_SIGNATURE

definition DEFAULT_PARALLEL_FILE_UPLOAD_SIZE :: nat where
  "DEFAULT_PARALLEL_FILE_UPLOAD_SIZE = 52428800"

text \<open>A package descriptor of the task payload. The keys \<open>id\<close> and \<open>download_url\<close> are read with
  \<open>pkg['id']\<close> and \<open>package['download_url']\<close>, the others with \<open>.get\<close>, so they are optional.\<close>

record package =
  pkg_id :: nat
  pkg_name :: "string option"
  pkg_file_name :: "string option"
  pkg_type :: "string option"
  pkg_package_type :: "string option"
  download_url :: string
  cas_hash :: "string option"

text \<open>An entry of \<open>packages\<close>: the copy of the descriptor without \<open>download_url\<close>, with
  \<open>fingerprint\<close> added and \<open>cas_hash\<close>, \<open>sha256\<close> and \<open>href\<close> filled in later.\<close>

record signed_package =
  sp_id :: nat
  sp_name :: "string option"
  sp_file_name :: "string option"
  sp_type :: "string option"
  sp_package_type :: "string option"
  sp_cas_hash :: "string option"
  sp_fingerprint :: string
  sp_sha256 :: "string option"
  sp_href :: "string option"

datatype task_packages =
    Flat "package list"
  | ByPlatform "(string \<times> package list) list"

record task =
  task_id :: nat
  keyid :: "string option"
  pgp_keyid :: "string option"
  sign_files :: bool
  task_build_id :: "nat option"
  task_packages :: task_packages

record key_info =
  key_password :: string
  key_fingerprint :: string
  key_subkeys :: "string list"

record config =
  working_dir :: path
  parallel_upload :: bool
  parallel_upload_file_size :: nat

record signer =
  signer_config :: config
  key_ids :: "string \<rightharpoonup> key_info"
  notar_enabled :: bool
  files_sign_cert_path :: "string option"
  download_credentials :: "(string \<times> string) list"

text \<open>The response payload. The timing values of \<open>stats\<close> come from the clock and are left out:
  \<open>has_stats\<close> records that \<open>response_payload['stats']\<close> was set.\<close>

record response_payload =
  build_id :: "nat option"
  success :: bool
  error_message :: "string option"
  rp_packages :: "signed_package list option"
  has_stats :: bool

record rpm_header =
  RPMTAG_SIGGPG :: "string option"
  RPMTAG_SIGPGP :: "string option"

text \<open>\<open>(package_id, file_name, package_path, platform)\<close>\<close>

type_synonym info = "nat \<times> string option \<times> path \<times> string option"

subsection \<open>Collaborator calls and the trace\<close>

text \<open>Every call of a collaborator that acts on the outside is recorded. \<open>EvDownload\<close>
  carries what the attempt raised (\<open>None\<close> when it succeeded), \<open>EvVerify\<close> whether the call
  returned a truthy attestation;
  \<open>EvUpload\<close> carries the key of the upload dictionary under which the artifact was queued.\<close>

datatype event =
    EvMkdir path
  | EvDownload string path "exn option"
  | EvVerify path bool
  | EvSignRpm "path list"
  | EvSignDeb path
  | EvSignDsc path
  | EvNotarize path
  | EvCheck path
  | EvUpload string path nat
  | EvReport nat response_payload
  | EvRmtree path

text \<open>The outside world \<open>'w\<close> (file system, network, storage, ledger) is abstract; the
  collaborators are state transformers on it. \<open>verify_artifact\<close>, \<open>notarize_artifact\<close>,
  \<open>upload_artifact\<close> and \<open>report_signed_build\<close> are the methods that child classes implement,
  \<open>download_file\<close>, \<open>hash_file\<close> and \<open>safe_mkdir\<close> come from \<open>common_library.utils.file_utils\<close>,
  the rest are library calls (\<open>glob\<close>, \<open>os\<close>, \<open>shutil\<close>, \<open>rpm\<close>, \<open>pgpy\<close>, \<open>traceback\<close>).
  \<open>fetch_order\<close>, \<open>audit_order\<close> and \<open>upload_order\<close> are the schedulers of the three thread pools.\<close>

record 'w env =
  safe_mkdir :: "path \<Rightarrow> 'w \<Rightarrow> exn option \<times> 'w"
  download_file :: "string \<Rightarrow> path \<Rightarrow> (string \<times> string) list \<Rightarrow> 'w \<Rightarrow> exn option \<times> 'w"
  verify_artifact :: "path \<Rightarrow> 'w \<Rightarrow> (exn + string option) \<times> 'w"
  notarize_artifact :: "path \<Rightarrow> string \<Rightarrow> 'w \<Rightarrow> (exn + string) \<times> 'w"
  glob :: "string \<Rightarrow> 'w \<Rightarrow> path list"
  sign_rpm_package :: "string \<Rightarrow> string \<Rightarrow> string \<Rightarrow> bool \<Rightarrow> string option \<Rightarrow> 'w \<Rightarrow> exn option \<times> 'w"
  sign_deb_package :: "path \<Rightarrow> string \<Rightarrow> string \<Rightarrow> 'w \<Rightarrow> exn option \<times> 'w"
  sign_dsc_package :: "path \<Rightarrow> string \<Rightarrow> string \<Rightarrow> 'w \<Rightarrow> exn option \<times> 'w"
  hash_file :: "path \<Rightarrow> 'w \<Rightarrow> exn + string"
  stat_size :: "path \<Rightarrow> 'w \<Rightarrow> exn + nat"
  path_exists :: "path \<Rightarrow> 'w \<Rightarrow> bool"
  read_header :: "path \<Rightarrow> 'w \<Rightarrow> exn + rpm_header"
  pgp_signers :: "string \<Rightarrow> exn + string list"
  upload_artifact :: "path \<Rightarrow> nat \<Rightarrow> string option \<Rightarrow> nat \<Rightarrow> string option \<Rightarrow> 'w \<Rightarrow> (exn + string option) \<times> 'w"
  report_signed_build :: "nat \<Rightarrow> response_payload \<Rightarrow> 'w \<Rightarrow> exn option \<times> 'w"
  rmtree :: "path \<Rightarrow> 'w \<Rightarrow> exn option \<times> 'w"
  format_exc :: "exn \<Rightarrow> string"
  repr_package :: "package \<Rightarrow> string"
  fetch_order :: "nat \<Rightarrow> nat"
  audit_order :: "nat \<Rightarrow> nat"
  upload_order :: "nat \<Rightarrow> nat"

type_synonym 'w st = "'w \<times> event list"

subsection \<open>Strings and paths\<close>

text \<open>\<open>str(n)\<close> of a natural number.\<close>

definition digit_char :: "nat \<Rightarrow> char" where
  "digit_char d = ''0123456789'' ! d"

fun str_nat :: "nat \<Rightarrow> string" where
  "str_nat n = (if n < 10 then [digit_char n] else str_nat (n div 10) @ [digit_char (n mod 10)])"

declare str_nat.simps [simp del]

text \<open>\<open>posixpath.join\<close> of two components.\<close>

definition path_join :: "path \<Rightarrow> path \<Rightarrow> path" where
  "path_join a b =
     (if b \<noteq> [] \<and> hd b = CHR ''/'' then b
      else if a = [] \<or> last a = CHR ''/'' then a @ b
      else a @ ''/'' @ b)"

text \<open>\<open>sub in s\<close>\<close>

fun str_in :: "string \<Rightarrow> string \<Rightarrow> bool" where
  "str_in sub [] = (sub = [])"
| "str_in sub (c # cs) = (take (length sub) (c # cs) = sub \<or> str_in sub cs)"

text \<open>\<open>sep.join(xs)\<close>\<close>

fun join_str :: "string \<Rightarrow> string list \<Rightarrow> string" where
  "join_str sep [] = []"
| "join_str sep [x] = x"
| "join_str sep (x # y # ys) = x @ sep @ join_str sep (y # ys)"

text \<open>\<open>s.lower()\<close>\<close>

definition lower_char :: "char \<Rightarrow> char" where
  "lower_char c =
     (case map_of (zip ''ABCDEFGHIJKLMNOPQRSTUVWXYZ'' ''abcdefghijklmnopqrstuvwxyz'') c of
        Some l \<Rightarrow> l
      | None \<Rightarrow> c)"

definition lower :: "string \<Rightarrow> string" where
  "lower s = map lower_char s"

text \<open>Truthiness of an optional string: \<open>None\<close> and \<open>''\<close> are falsy.\<close>

definition truthy :: "string option \<Rightarrow> bool" where
  "truthy v = (case v of None \<Rightarrow> False | Some s \<Rightarrow> s \<noteq> [])"

text \<open>\<open>pkg.get('file_name', pkg.get('name'))\<close>\<close>

definition get_file_name :: "package \<Rightarrow> string option" where
  "get_file_name pkg = (case pkg_file_name pkg of Some f \<Rightarrow> Some f | None \<Rightarrow> pkg_name pkg)"

subsection \<open>Thread pools\<close>

text \<open>A \<open>ThreadPoolExecutor\<close> runs every submitted call, also after one of them has raised (leaving
  the \<open>with\<close> block waits for all of them); \<open>as_completed\<close> yields the futures in the order of
  completion. The pool is modelled by its sequential interleavings: the calls run one after the
  other and complete in the order the scheduler picks. \<open>pick n\<close> selects, among \<open>n\<close> calls still
  waiting, the one that completes next, so \<open>schedule pick xs\<close> is a permutation of \<open>xs\<close> whatever
  \<open>pick\<close> is, and every permutation is obtained from some \<open>pick\<close>.\<close>

function schedule :: "(nat \<Rightarrow> nat) \<Rightarrow> 'a list \<Rightarrow> 'a list" where
  "schedule pick xs =
     (if xs = [] then []
      else xs ! (pick (length xs) mod length xs)
           # schedule pick (take (pick (length xs) mod length xs) xs
                            @ drop (Suc (pick (length xs) mod length xs)) xs))"
  by pat_completeness auto
termination
proof (relation "measure (\<lambda>(pick, xs). length xs)")
  fix pick :: "nat \<Rightarrow> nat" and xs :: "'a list"
  assume "xs \<noteq> []"
  then have "pick (length xs) mod length xs < length xs" by simp
  then show "((pick, take (pick (length xs) mod length xs) xs
                     @ drop (Suc (pick (length xs) mod length xs)) xs), (pick, xs))
             \<in> measure (\<lambda>(pick, xs). length xs)"
    by simp
qed simp

declare schedule.simps [simp del]

fun run_all :: "('a \<Rightarrow> 's \<Rightarrow> 'r \<times> 's) \<Rightarrow> 'a list \<Rightarrow> 's \<Rightarrow> ('a \<times> 'r) list \<times> 's" where
  "run_all f [] s = ([], s)"
| "run_all f (x # xs) s =
     (case f x s of (r, s') \<Rightarrow> (case run_all f xs s' of (rs, s'') \<Rightarrow> ((x, r) # rs, s'')))"

definition run_pool :: "(nat \<Rightarrow> nat) \<Rightarrow> ('a \<Rightarrow> 's \<Rightarrow> 'r \<times> 's) \<Rightarrow> 'a list \<Rightarrow> 's \<Rightarrow> ('a \<times> 'r) list \<times> 's" where
  "run_pool pick f xs s = run_all f (schedule pick xs) s"

section \<open>\<open>BaseSigner._download_package\<close>\<close>

definition call_safe_mkdir :: "'w env \<Rightarrow> path \<Rightarrow> 'w st \<Rightarrow> exn option \<times> 'w st" where
  "call_safe_mkdir env p st =
     (case safe_mkdir env p (fst st) of (r, w') \<Rightarrow> (r, (w', snd st @ [EvMkdir p])))"

definition call_download_file :: "'w env \<Rightarrow> signer \<Rightarrow> string \<Rightarrow> path \<Rightarrow> 'w st \<Rightarrow> exn option \<times> 'w st" where
  "call_download_file env sg url dest st =
     (case download_file env url dest (download_credentials sg) (fst st) of
        (r, w') \<Rightarrow> (r, (w', snd st @ [EvDownload url dest r])))"

text \<open>The loop \<open>for i in range(1, try_count + 1)\<close>, by recursion on the number of tries left; when
  the loop ends, \<open>raise last_exc\<close> (a \<open>TypeError\<close> when \<open>last_exc\<close> is still \<open>None\<close>).\<close>

fun download_tries :: "'w env \<Rightarrow> signer \<Rightarrow> string \<Rightarrow> path \<Rightarrow> nat \<Rightarrow> exn option \<Rightarrow> 'w st \<Rightarrow> (exn + path) \<times> 'w st" where
  "download_tries env sg url dest 0 last_exc st =
     (case last_exc of
        None \<Rightarrow> (Inl (TypeError ''exceptions must derive from BaseException''), st)
      | Some e \<Rightarrow> (Inl e, st))"
| "download_tries env sg url dest (Suc n) last_exc st =
     (case call_download_file env sg url dest st of
        (None, st') \<Rightarrow> (Inr dest, st')
      | (Some e, st') \<Rightarrow> download_tries env sg url dest n (Some e) st')"

definition BaseSigner_download_package ::
  "'w env \<Rightarrow> signer \<Rightarrow> path \<Rightarrow> package \<Rightarrow> string option \<Rightarrow> nat \<Rightarrow> 'w st \<Rightarrow> (exn + path) \<times> 'w st" where
  "BaseSigner_download_package env sg download_dir pkg platform try_count st =
     (let platform_dir = (case platform of None \<Rightarrow> [] | Some p \<Rightarrow> p);
          package_dir = path_join (path_join download_dir platform_dir) (str_nat (pkg_id pkg))
      in case call_safe_mkdir env package_dir st of
           (Some e, st1) \<Rightarrow> (Inl e, st1)
         | (None, st1) \<Rightarrow>
             (case get_file_name pkg of
                None \<Rightarrow> (Inl (TypeError ''expected str, bytes or os.PathLike object, not NoneType''), st1)
              | Some package_name \<Rightarrow>
                  download_tries env sg (download_url pkg) (path_join package_dir package_name)
                    try_count None st1))"

section \<open>\<open>BaseSigner._check_signature\<close>\<close>

text \<open>The loop over \<open>pgp_msg.signatures\<close> of the inner function \<open>check\<close>; \<open>sig\<close> is the signer seen
  last (\<open>''\<close> before the first one).\<close>

fun check_signers :: "string \<Rightarrow> string list \<Rightarrow> string list \<Rightarrow> string \<Rightarrow> SignStatusEnum \<times> string" where
  "check_signers key_id_lower subkeys [] sig = (WRONG_SIGNATURE, sig)"
| "check_signers key_id_lower subkeys (s # ss) sig =
     (if lower s = key_id_lower then (SUCCESS, [])
      else if subkeys \<noteq> [] \<and> lower s \<in> set subkeys then (SUCCESS, [])
      else check_signers key_id_lower subkeys ss (lower s))"

text \<open>The inner function \<open>check\<close>. Opening the file and reading its header (\<open>read_header\<close>) and
  parsing the signature (\<open>pgp_signers\<close>) are library calls that may raise.\<close>

definition check :: "'w env \<Rightarrow> string \<Rightarrow> string list \<Rightarrow> path \<Rightarrow> 'w \<Rightarrow> exn + SignStatusEnum \<times> string" where
  "check env key_id_lower subkeys pkg_path w =
     (if \<not> path_exists env pkg_path w then Inr (READ_ERROR, [])
      else case read_header env pkg_path w of
        Inl e \<Rightarrow> Inl e
      | Inr header \<Rightarrow>
          (let signature = (if truthy (RPMTAG_SIGGPG header) then RPMTAG_SIGGPG header
                            else RPMTAG_SIGPGP header)
           in case signature of
                None \<Rightarrow> Inr (NO_SIGNATURE, [])
              | Some blob \<Rightarrow>
                  if blob = [] then Inr (NO_SIGNATURE, [])
                  else (case pgp_signers env blob of
                          Inl e \<Rightarrow> Inl e
                        | Inr signers \<Rightarrow> Inr (check_signers key_id_lower subkeys signers []))))"

definition call_check :: "'w env \<Rightarrow> string \<Rightarrow> string list \<Rightarrow> path \<Rightarrow> 'w st \<Rightarrow> (exn + SignStatusEnum \<times> string) \<times> 'w st" where
  "call_check env key_id_lower subkeys pkg_path st =
     (check env key_id_lower subkeys pkg_path (fst st), (fst st, snd st @ [EvCheck pkg_path]))"

text \<open>The loop over \<open>as_completed(futures)\<close>: \<open>future.result()\<close> re-raises what the call raised.\<close>

fun collect_errors :: "(path \<times> (exn + SignStatusEnum \<times> string)) list \<Rightarrow> string list \<Rightarrow> exn + string list" where
  "collect_errors [] errors = Inr errors"
| "collect_errors ((pkg_path, Inl e) # rest) errors = Inl e"
| "collect_errors ((pkg_path, Inr (result, signature)) # rest) errors =
     (if result = READ_ERROR then
        collect_errors rest (errors @ [''Cannot read file '' @ pkg_path])
      else if result = NO_SIGNATURE then
        collect_errors rest (errors @ [''Package '' @ pkg_path @ '' is not signed''])
      else if result = WRONG_SIGNATURE then
        collect_errors rest
          (errors @ [''Package '' @ pkg_path @ '' is signed with the wrong key: '' @ signature])
      else collect_errors rest errors)"

definition check_signature :: "'w env \<Rightarrow> signer \<Rightarrow> path list \<Rightarrow> string \<Rightarrow> 'w st \<Rightarrow> (exn + string list) \<times> 'w st" where
  "check_signature env sg files key_id st =
     (case key_ids sg key_id of
        None \<Rightarrow> (Inl (KeyError key_id), st)
      | Some ki \<Rightarrow>
          (case run_pool (audit_order env)
                  (call_check env (lower key_id) (map lower (key_subkeys ki))) files st of
             (results, st') \<Rightarrow> (collect_errors results [], st')))"

text \<open>The message that the loop of \<open>_check_signature\<close> appends for one result (none for
  \<open>SUCCESS\<close>).\<close>

definition audit_error :: "path \<Rightarrow> SignStatusEnum \<times> string \<Rightarrow> string list" where
  "audit_error pkg_path c =
     (if fst c = READ_ERROR then [''Cannot read file '' @ pkg_path]
      else if fst c = NO_SIGNATURE then [''Package '' @ pkg_path @ '' is not signed'']
      else if fst c = WRONG_SIGNATURE then
        [''Package '' @ pkg_path @ '' is signed with the wrong key: '' @ snd c]
      else [])"

section \<open>\<open>BaseSigner._sign_build\<close>\<close>

subsection \<open>Fetching (the first thread pool)\<close>

text \<open>The inner function \<open>download_package\<close>; \<open>_download_package\<close> is called with its default
  \<open>try_count=3\<close>. The write \<open>pkg_info_mapping[pkg_path] = pkg\<close> is done by \<open>pkg_info_mapping_of\<close>
  below, from the results of all the calls.\<close>

definition download_package ::
  "'w env \<Rightarrow> signer \<Rightarrow> path \<Rightarrow> path \<Rightarrow> package \<times> string option \<Rightarrow> 'w st \<Rightarrow> (exn + package \<times> info) \<times> 'w st" where
  "download_package env sg rpms_dir debs_dir item st =
     (case item of (pkg, platform) \<Rightarrow>
        (let package_type = (case pkg_type pkg of
                               Some t \<Rightarrow> t
                             | None \<Rightarrow> (case pkg_package_type pkg of Some t \<Rightarrow> t | None \<Rightarrow> ''rpm''));
             download_dir = (if package_type = ''deb'' \<or> package_type = ''dsc'' then debs_dir
                             else rpms_dir)
         in case BaseSigner_download_package env sg download_dir pkg platform 3 st of
              (Inl e, st') \<Rightarrow> (Inl e, st')
            | (Inr pkg_path, st') \<Rightarrow>
                (Inr (pkg, (pkg_id pkg, get_file_name pkg, pkg_path, platform)), st')))"

text \<open>The calls submitted to the pool, in the order of submission.\<close>

definition submitted :: "task_packages \<Rightarrow> (package \<times> string option) list" where
  "submitted ps =
     (case ps of
        ByPlatform d \<Rightarrow> concat (map (\<lambda>(platform, pkgs). map (\<lambda>pkg. (pkg, Some platform)) pkgs) d)
      | Flat l \<Rightarrow> map (\<lambda>pkg. (pkg, None)) l)"

fun pkg_info_mapping_of ::
  "('a \<times> (exn + package \<times> info)) list \<Rightarrow> (path \<times> package) list \<Rightarrow> (path \<times> package) list" where
  "pkg_info_mapping_of [] m = m"
| "pkg_info_mapping_of ((x, Inl e) # rest) m = pkg_info_mapping_of rest m"
| "pkg_info_mapping_of ((x, Inr (pkg, (package_id, file_name, pkg_path, platform))) # rest) m =
     pkg_info_mapping_of rest (AList.update pkg_path pkg m)"

definition signed_copy :: "string \<Rightarrow> package \<Rightarrow> signed_package" where
  "signed_copy fingerprint pkg =
     \<lparr>sp_id = pkg_id pkg, sp_name = pkg_name pkg, sp_file_name = pkg_file_name pkg,
      sp_type = pkg_type pkg, sp_package_type = pkg_package_type pkg, sp_cas_hash = cas_hash pkg,
      sp_fingerprint = fingerprint, sp_sha256 = None, sp_href = None\<rparr>"

text \<open>The loop over \<open>as_completed(futures)\<close> of the fetch pool.\<close>

fun collect_downloads ::
  "string \<Rightarrow> ('a \<times> (exn + package \<times> info)) list \<Rightarrow> (nat \<times> signed_package) list \<Rightarrow> info list
     \<Rightarrow> exn + (nat \<times> signed_package) list \<times> info list" where
  "collect_downloads fingerprint [] packages downloaded = Inr (packages, downloaded)"
| "collect_downloads fingerprint ((x, Inl e) # rest) packages downloaded = Inl e"
| "collect_downloads fingerprint ((x, Inr (package, downloaded_info)) # rest) packages downloaded =
     collect_downloads fingerprint rest
       (AList.update (pkg_id package) (signed_copy fingerprint package) packages)
       (downloaded @ [downloaded_info])"

definition fetch_stage ::
  "'w env \<Rightarrow> signer \<Rightarrow> string \<Rightarrow> path \<Rightarrow> path \<Rightarrow> task \<Rightarrow> 'w st
     \<Rightarrow> (exn + (nat \<times> signed_package) list \<times> info list \<times> (path \<times> package) list) \<times> 'w st" where
  "fetch_stage env sg fingerprint rpms_dir debs_dir task st =
     (case run_pool (fetch_order env) (download_package env sg rpms_dir debs_dir)
             (submitted (task_packages task)) st of
        (results, st') \<Rightarrow>
          (case collect_downloads fingerprint results [] [] of
             Inl e \<Rightarrow> (Inl e, st')
           | Inr (packages, downloaded) \<Rightarrow>
               (Inr (packages, downloaded, pkg_info_mapping_of results []), st')))"

subsection \<open>Verification\<close>

text \<open>The attestation that \<open>verify_artifact\<close> returns is tested for truthiness
  (\<open>if not verification\<close>): \<open>None\<close> and an empty attestation are both falsy. The event records
  \<open>True\<close> exactly when the call returned a truthy attestation.\<close>

definition call_verify_artifact :: "'w env \<Rightarrow> path \<Rightarrow> 'w st \<Rightarrow> (exn + string option) \<times> 'w st" where
  "call_verify_artifact env p st =
     (case verify_artifact env p (fst st) of
        (r, w') \<Rightarrow>
          (r, (w', snd st @ [EvVerify p (case r of Inr verification \<Rightarrow> truthy verification
                                                | Inl e \<Rightarrow> False)])))"

fun verify_loop ::
  "'w env \<Rightarrow> signer \<Rightarrow> (path \<times> package) list \<Rightarrow> (path \<times> string) list \<Rightarrow> 'w st
     \<Rightarrow> (exn + (path \<times> string) list) \<times> 'w st" where
  "verify_loop env sg [] pkg_verification_mapping st = (Inr pkg_verification_mapping, st)"
| "verify_loop env sg ((pkg_path, pkg_info) # rest) pkg_verification_mapping st =
     (if notar_enabled sg \<and> truthy (cas_hash pkg_info) then
        (case call_verify_artifact env pkg_path st of
           (Inl e, st') \<Rightarrow> (Inl e, st')
         | (Inr verification, st') \<Rightarrow>
             (case (truthy verification, verification) of
                (True, Some attestation) \<Rightarrow>
                  verify_loop env sg rest
                    (AList.update pkg_path attestation pkg_verification_mapping) st'
              | _ \<Rightarrow>
                  (Inl (SignError (''Package '' @ repr_package env pkg_info
                                     @ '' cannot be verified'')), st')))
      else verify_loop env sg rest pkg_verification_mapping st)"

subsection \<open>Signing\<close>

definition call_sign_rpm_package ::
  "'w env \<Rightarrow> signer \<Rightarrow> string \<Rightarrow> string \<Rightarrow> bool \<Rightarrow> path list \<Rightarrow> 'w st \<Rightarrow> exn option \<times> 'w st" where
  "call_sign_rpm_package env sg k pw sf packages_to_sign st =
     (case sign_rpm_package env (join_str '' '' packages_to_sign) k pw sf
             (files_sign_cert_path sg) (fst st) of
        (r, w') \<Rightarrow> (r, (w', snd st @ [EvSignRpm packages_to_sign])))"

definition call_sign_deb_package :: "'w env \<Rightarrow> string \<Rightarrow> string \<Rightarrow> path \<Rightarrow> 'w st \<Rightarrow> exn option \<times> 'w st" where
  "call_sign_deb_package env k pw p st =
     (case sign_deb_package env p k pw (fst st) of
        (r, w') \<Rightarrow> (r, (w', snd st @ [EvSignDeb p])))"

definition call_sign_dsc_package :: "'w env \<Rightarrow> string \<Rightarrow> string \<Rightarrow> path \<Rightarrow> 'w st \<Rightarrow> exn option \<times> 'w st" where
  "call_sign_dsc_package env k pw p st =
     (case sign_dsc_package env p k pw (fst st) of
        (r, w') \<Rightarrow> (r, (w', snd st @ [EvSignDsc p])))"

text \<open>In the signing functions \<open>k\<close>, \<open>pw\<close> and \<open>sf\<close> are \<open>pgp_keyid\<close>, \<open>pgp_key_password\<close> and
  \<open>sign_files\<close>. The loop over the RPM files found by \<open>glob\<close>; it returns the \<open>packages_to_sign\<close> left over.\<close>

fun sign_rpm_loop ::
  "'w env \<Rightarrow> signer \<Rightarrow> string \<Rightarrow> string \<Rightarrow> bool \<Rightarrow> path list \<Rightarrow> path list \<Rightarrow> 'w st
     \<Rightarrow> (exn + path list) \<times> 'w st" where
  "sign_rpm_loop env sg k pw sf [] packages_to_sign st = (Inr packages_to_sign, st)"
| "sign_rpm_loop env sg k pw sf (package # rest) packages_to_sign st =
     (if length (packages_to_sign @ [package]) mod 50 = 0 then
        (case call_sign_rpm_package env sg k pw sf (packages_to_sign @ [package]) st of
           (Some e, st') \<Rightarrow> (Inl e, st')
         | (None, st') \<Rightarrow> sign_rpm_loop env sg k pw sf rest [] st')
      else sign_rpm_loop env sg k pw sf rest (packages_to_sign @ [package]) st)"

definition sign_rpms ::
  "'w env \<Rightarrow> signer \<Rightarrow> string \<Rightarrow> string \<Rightarrow> bool \<Rightarrow> path list \<Rightarrow> 'w st \<Rightarrow> exn option \<times> 'w st" where
  "sign_rpms env sg k pw sf files st =
     (case sign_rpm_loop env sg k pw sf files [] st of
        (Inl e, st') \<Rightarrow> (Some e, st')
      | (Inr packages_to_sign, st') \<Rightarrow>
          (if packages_to_sign \<noteq> [] then call_sign_rpm_package env sg k pw sf packages_to_sign st'
           else (None, st')))"

fun sign_each :: "(path \<Rightarrow> 'w st \<Rightarrow> exn option \<times> 'w st) \<Rightarrow> path list \<Rightarrow> 'w st \<Rightarrow> exn option \<times> 'w st" where
  "sign_each f [] st = (None, st)"
| "sign_each f (package_path # rest) st =
     (case f package_path st of
        (Some e, st') \<Rightarrow> (Some e, st')
      | (None, st') \<Rightarrow> sign_each f rest st')"

definition sign_stage ::
  "'w env \<Rightarrow> signer \<Rightarrow> string \<Rightarrow> string \<Rightarrow> bool \<Rightarrow> path \<Rightarrow> path \<Rightarrow> 'w st \<Rightarrow> exn option \<times> 'w st" where
  "sign_stage env sg k pw sf rpms_dir debs_dir st =
     (case sign_rpms env sg k pw sf (glob env (path_join rpms_dir ''**/*.rpm'') (fst st)) st of
        (Some e, st1) \<Rightarrow> (Some e, st1)
      | (None, st1) \<Rightarrow>
          (case sign_each (call_sign_deb_package env k pw)
                  (glob env (path_join debs_dir ''**/*.deb'') (fst st1)) st1 of
             (Some e, st2) \<Rightarrow> (Some e, st2)
           | (None, st2) \<Rightarrow>
               sign_each (call_sign_dsc_package env k pw)
                 (glob env (path_join debs_dir ''**/*.dsc'') (fst st2)) st2))"

subsection \<open>Planning the uploads\<close>

record plan =
  files_to_upload :: "string list"
  parallel_upload_files :: "(string \<times> info) list"
  sequential_upload_files :: "(string \<times> info) list"
  files_to_check :: "path list"
  plan_packages :: "(nat \<times> signed_package) list"

definition call_notarize_artifact :: "'w env \<Rightarrow> path \<Rightarrow> string \<Rightarrow> 'w st \<Rightarrow> (exn + string) \<times> 'w st" where
  "call_notarize_artifact env p old_meta st =
     (case notarize_artifact env p old_meta (fst st) of
        (r, w') \<Rightarrow> (r, (w', snd st @ [EvNotarize p])))"

text \<open>Lines 252 to 255: the notarization of one downloaded artifact.\<close>

definition notarize_step ::
  "'w env \<Rightarrow> signer \<Rightarrow> (path \<times> string) list \<Rightarrow> info \<Rightarrow> plan \<Rightarrow> 'w st \<Rightarrow> (exn + plan) \<times> 'w st" where
  "notarize_step env sg pkg_verification_mapping dinfo pl st =
     (case dinfo of (package_id, file_name, package_path, platform) \<Rightarrow>
        (case map_of pkg_verification_mapping package_path of
           None \<Rightarrow> (Inr pl, st)
         | Some old_meta \<Rightarrow>
             if notar_enabled sg then
               (case call_notarize_artifact env package_path old_meta st of
                  (Inl e, st') \<Rightarrow> (Inl e, st')
                | (Inr new_cas_hash, st') \<Rightarrow>
                    (Inr (pl\<lparr>plan_packages :=
                               AList.map_entry package_id (\<lambda>p. p\<lparr>sp_cas_hash := Some new_cas_hash\<rparr>)
                                 (plan_packages pl)\<rparr>), st'))
             else (Inr pl, st)))"

text \<open>Lines 257 to 278: the artifact of a hash not seen before is queued, for the parallel
  upload when the feature is enabled and \<open>os.stat(package_path).st_size\<close> is at most the
  configured size (\<open>os.stat\<close> is not called when the feature is disabled), for the sequential
  upload otherwise.\<close>

definition enqueue :: "'w env \<Rightarrow> signer \<Rightarrow> string \<Rightarrow> info \<Rightarrow> 'w \<Rightarrow> plan \<Rightarrow> exn + plan" where
  "enqueue env sg sha dinfo w pl =
     (case dinfo of (package_id, file_name, package_path, platform) \<Rightarrow>
        if sha \<in> set (files_to_upload pl) then Inr pl
        else
          (case (if parallel_upload (signer_config sg) then
                   (case stat_size env package_path w of
                      Inl e \<Rightarrow> Inl e
                    | Inr n \<Rightarrow> Inr (n \<le> parallel_upload_file_size (signer_config sg)))
                 else Inr False) of
             Inl e \<Rightarrow> Inl e
           | Inr par \<Rightarrow>
               Inr (pl\<lparr>parallel_upload_files :=
                          (if par then AList.update sha dinfo (parallel_upload_files pl)
                           else parallel_upload_files pl),
                        sequential_upload_files :=
                          (if par then sequential_upload_files pl
                           else AList.update sha dinfo (sequential_upload_files pl)),
                        files_to_upload := files_to_upload pl @ [sha],
                        files_to_check :=
                          (if str_in ''.rpm'' package_path then files_to_check pl @ [package_path]
                           else files_to_check pl)\<rparr>)))"

text \<open>The loop over \<open>downloaded\<close>.\<close>

fun plan_loop ::
  "'w env \<Rightarrow> signer \<Rightarrow> (path \<times> string) list \<Rightarrow> info list \<Rightarrow> plan \<Rightarrow> 'w st \<Rightarrow> (exn + plan) \<times> 'w st" where
  "plan_loop env sg pkg_verification_mapping [] pl st = (Inr pl, st)"
| "plan_loop env sg pkg_verification_mapping (dinfo # rest) pl st =
     (case notarize_step env sg pkg_verification_mapping dinfo pl st of
        (Inl e, st1) \<Rightarrow> (Inl e, st1)
      | (Inr pl1, st1) \<Rightarrow>
          (case hash_file env (fst (snd (snd dinfo))) (fst st1) of
             Inl e \<Rightarrow> (Inl e, st1)
           | Inr sha \<Rightarrow>
               (case enqueue env sg sha dinfo (fst st1) pl1 of
                  Inl e \<Rightarrow> (Inl e, st1)
                | Inr pl2 \<Rightarrow>
                    plan_loop env sg pkg_verification_mapping rest
                      (pl2\<lparr>plan_packages :=
                              AList.map_entry (fst dinfo) (\<lambda>p. p\<lparr>sp_sha256 := Some sha\<rparr>)
                                (plan_packages pl2)\<rparr>) st1)))"

definition plan_uploads ::
  "'w env \<Rightarrow> signer \<Rightarrow> (path \<times> string) list \<Rightarrow> info list \<Rightarrow> (nat \<times> signed_package) list \<Rightarrow> 'w st
     \<Rightarrow> (exn + plan) \<times> 'w st" where
  "plan_uploads env sg pkg_verification_mapping downloaded packages st =
     plan_loop env sg pkg_verification_mapping downloaded
       \<lparr>files_to_upload = [], parallel_upload_files = [], sequential_upload_files = [],
        files_to_check = [], plan_packages = packages\<rparr> st"

subsection \<open>Auditing the signatures\<close>

definition audit_stage :: "'w env \<Rightarrow> signer \<Rightarrow> path list \<Rightarrow> string \<Rightarrow> 'w st \<Rightarrow> exn option \<times> 'w st" where
  "audit_stage env sg files k st =
     (case check_signature env sg files k st of
        (Inl e, st') \<Rightarrow> (Some e, st')
      | (Inr sign_errors, st') \<Rightarrow>
          (if sign_errors \<noteq> [] then
             (Some (SignError (''Errors during checking packages signatures: '' @ [CHR 0x0A]
                                @ join_str [CHR 0x0A] sign_errors)), st')
           else (None, st')))"

subsection \<open>Uploading\<close>

definition call_upload_artifact ::
  "'w env \<Rightarrow> nat \<Rightarrow> string \<times> info \<Rightarrow> 'w st \<Rightarrow> (exn + string option) \<times> 'w st" where
  "call_upload_artifact env tid item st =
     (case item of (sha, package_id, file_name, package_path, platform) \<Rightarrow>
        (case upload_artifact env package_path tid platform package_id file_name (fst st) of
           (r, w') \<Rightarrow> (r, (w', snd st @ [EvUpload sha package_path package_id]))))"

text \<open>The loop over \<open>as_completed(futures)\<close> of the upload pool. The result of an upload is the
  \<open>href\<close> of the returned object, \<open>None\<close> when the call returned \<open>None\<close>.\<close>

fun apply_parallel ::
  "((string \<times> info) \<times> (exn + string option)) list \<Rightarrow> (nat \<times> signed_package) list
     \<Rightarrow> (string option \<rightharpoonup> string) \<Rightarrow> exn + (nat \<times> signed_package) list \<times> (string option \<rightharpoonup> string)" where
  "apply_parallel [] packages packages_hrefs = Inr (packages, packages_hrefs)"
| "apply_parallel ((item, Inl e) # rest) packages packages_hrefs = Inl e"
| "apply_parallel (((sha, package_id, file_name, package_path, platform), Inr result) # rest)
       packages packages_hrefs =
     (case map_of packages package_id of
        None \<Rightarrow> Inl (KeyError (str_nat package_id))
      | Some p \<Rightarrow>
          (case result of
             None \<Rightarrow> Inl (AttributeError ''href'')
           | Some h \<Rightarrow>
               apply_parallel rest
                 (AList.map_entry package_id (\<lambda>p. p\<lparr>sp_href := Some h\<rparr>) packages)
                 (packages_hrefs(sp_name p \<mapsto> h))))"

fun upload_sequential ::
  "'w env \<Rightarrow> nat \<Rightarrow> (string \<times> info) list \<Rightarrow> (nat \<times> signed_package) list
     \<Rightarrow> (string option \<rightharpoonup> string) \<Rightarrow> 'w st
     \<Rightarrow> (exn + (nat \<times> signed_package) list \<times> (string option \<rightharpoonup> string)) \<times> 'w st" where
  "upload_sequential env tid [] packages packages_hrefs st = (Inr (packages, packages_hrefs), st)"
| "upload_sequential env tid (item # rest) packages packages_hrefs st =
     (case call_upload_artifact env tid item st of
        (Inl e, st') \<Rightarrow> (Inl e, st')
      | (Inr None, st') \<Rightarrow> upload_sequential env tid rest packages packages_hrefs st'
      | (Inr (Some h), st') \<Rightarrow>
          (case map_of packages (fst (snd item)) of
             None \<Rightarrow> (Inl (KeyError (str_nat (fst (snd item)))), st')
           | Some p \<Rightarrow>
               upload_sequential env tid rest
                 (AList.map_entry (fst (snd item)) (\<lambda>p. p\<lparr>sp_href := Some h\<rparr>) packages)
                 (packages_hrefs(fst (snd (snd item)) \<mapsto> h)) st'))"

text \<open>Lines 335 to 341: \<open>Fill href for packages of the same architecture\<close>.\<close>

fun fill_hrefs ::
  "(string option \<rightharpoonup> string) \<Rightarrow> (nat \<times> signed_package) list \<Rightarrow> exn + (nat \<times> signed_package) list" where
  "fill_hrefs packages_hrefs [] = Inr []"
| "fill_hrefs packages_hrefs ((pid, p) # rest) =
     (if \<not> truthy (sp_href p) then
        (case packages_hrefs (sp_name p) of
           None \<Rightarrow> Inl (KeyError (case sp_name p of None \<Rightarrow> ''None'' | Some n \<Rightarrow> n))
         | Some h \<Rightarrow>
             (case fill_hrefs packages_hrefs rest of
                Inl e \<Rightarrow> Inl e
              | Inr rest' \<Rightarrow> Inr ((pid, p\<lparr>sp_href := Some h\<rparr>) # rest')))
      else
        (case fill_hrefs packages_hrefs rest of
           Inl e \<Rightarrow> Inl e
         | Inr rest' \<Rightarrow> Inr ((pid, p) # rest')))"

definition upload_stage ::
  "'w env \<Rightarrow> signer \<Rightarrow> nat \<Rightarrow> plan \<Rightarrow> 'w st \<Rightarrow> (exn + (nat \<times> signed_package) list) \<times> 'w st" where
  "upload_stage env sg tid pl st =
     (case run_pool (upload_order env) (call_upload_artifact env tid) (parallel_upload_files pl) st of
        (results, st1) \<Rightarrow>
          (case apply_parallel results (plan_packages pl) Map.empty of
             Inl e \<Rightarrow> (Inl e, st1)
           | Inr (packages1, hrefs1) \<Rightarrow>
               (case upload_sequential env tid (sequential_upload_files pl) packages1 hrefs1 st1 of
                  (Inl e, st2) \<Rightarrow> (Inl e, st2)
                | (Inr (packages2, hrefs2), st2) \<Rightarrow>
                    (if parallel_upload (signer_config sg) then
                       (case fill_hrefs hrefs2 packages2 of
                          Inl e \<Rightarrow> (Inl e, st2)
                        | Inr packages3 \<Rightarrow> (Inr packages3, st2))
                     else (Inr packages2, st2)))))"

subsection \<open>The task run\<close>

text \<open>The body of the \<open>try\<close> block; it returns \<open>list(packages.values())\<close>.\<close>

definition sign_build_try ::
  "'w env \<Rightarrow> signer \<Rightarrow> task \<Rightarrow> string \<Rightarrow> key_info \<Rightarrow> path \<Rightarrow> path \<Rightarrow> 'w st
     \<Rightarrow> (exn + signed_package list) \<times> 'w st" where
  "sign_build_try env sg task k ki rpms_dir debs_dir st =
     (case fetch_stage env sg (key_fingerprint ki) rpms_dir debs_dir task st of
        (Inl e, st1) \<Rightarrow> (Inl e, st1)
      | (Inr (packages, downloaded, pkg_info_mapping), st1) \<Rightarrow>
     (case verify_loop env sg pkg_info_mapping [] st1 of
        (Inl e, st2) \<Rightarrow> (Inl e, st2)
      | (Inr pkg_verification_mapping, st2) \<Rightarrow>
     (case sign_stage env sg k (key_password ki) (sign_files task) rpms_dir debs_dir st2 of
        (Some e, st3) \<Rightarrow> (Inl e, st3)
      | (None, st3) \<Rightarrow>
     (case plan_uploads env sg pkg_verification_mapping downloaded packages st3 of
        (Inl e, st4) \<Rightarrow> (Inl e, st4)
      | (Inr pl, st4) \<Rightarrow>
     (case audit_stage env sg (files_to_check pl) k st4 of
        (Some e, st5) \<Rightarrow> (Inl e, st5)
      | (None, st5) \<Rightarrow>
     (case upload_stage env sg (task_id task) pl st5 of
        (Inl e, st6) \<Rightarrow> (Inl e, st6)
      | (Inr packages', st6) \<Rightarrow> (Inr (map snd packages'), st6)))))))"

definition call_report_signed_build ::
  "'w env \<Rightarrow> nat \<Rightarrow> response_payload \<Rightarrow> 'w st \<Rightarrow> exn option \<times> 'w st" where
  "call_report_signed_build env tid payload st =
     (case report_signed_build env tid payload (fst st) of
        (r, w') \<Rightarrow> (r, (w', snd st @ [EvReport tid payload])))"

definition call_rmtree :: "'w env \<Rightarrow> path \<Rightarrow> 'w st \<Rightarrow> exn option \<times> 'w st" where
  "call_rmtree env p st =
     (case rmtree env p (fst st) of (r, w') \<Rightarrow> (r, (w', snd st @ [EvRmtree p])))"

text \<open>\<open>task.get('keyid', task.get('pgp_keyid'))\<close>\<close>

definition get_pgp_keyid :: "task \<Rightarrow> string option" where
  "get_pgp_keyid task = (case keyid task of Some k \<Rightarrow> Some k | None \<Rightarrow> pgp_keyid task)"

definition task_dir :: "signer \<Rightarrow> task \<Rightarrow> path" where
  "task_dir sg task = path_join (working_dir (signer_config sg)) (str_nat (task_id task))"

text \<open>The \<open>except\<close> clause.\<close>

definition final_payload :: "'w env \<Rightarrow> task \<Rightarrow> exn + signed_package list \<Rightarrow> response_payload" where
  "final_payload env task r =
     (case r of
        Inr pkgs \<Rightarrow>
          \<lparr>build_id = task_build_id task, success = True, error_message = None,
           rp_packages = Some pkgs, has_stats = True\<rparr>
      | Inl e \<Rightarrow>
          \<lparr>build_id = task_build_id task, success = False, error_message = Some (format_exc env e),
           rp_packages = None, has_stats = False\<rparr>)"

text \<open>The \<open>finally\<close> clause: the report, then the removal of the task directory.\<close>

definition sign_build_finally ::
  "'w env \<Rightarrow> signer \<Rightarrow> task \<Rightarrow> response_payload \<Rightarrow> 'w st \<Rightarrow> exn option \<times> 'w st" where
  "sign_build_finally env sg task payload st =
     (case call_report_signed_build env (task_id task) payload st of
        (Some e, st') \<Rightarrow> (Some e, st')
      | (None, st') \<Rightarrow>
          (if path_exists env (task_dir sg task) (fst st') then call_rmtree env (task_dir sg task) st'
           else (None, st')))"

text \<open>\<open>_sign_build\<close>: \<open>None\<close> when it returns, \<open>Some e\<close> when it raises \<open>e\<close>.\<close>

definition sign_build :: "'w env \<Rightarrow> signer \<Rightarrow> task \<Rightarrow> 'w st \<Rightarrow> exn option \<times> 'w st" where
  "sign_build env sg task st =
     (case get_pgp_keyid task of
        None \<Rightarrow> (Some (SignError ''No pgp keyid''), st)
      | Some k \<Rightarrow>
          if k = [] then (Some (SignError ''No pgp keyid''), st)
          else
            (case key_ids sg k of
               None \<Rightarrow> (Some (KeyError k), st)
             | Some ki \<Rightarrow>
                 (case sign_build_try env sg task k ki
                         (path_join (task_dir sg task) ''rpms'')
                         (path_join (task_dir sg task) ''debs'') st of
                    (r, st') \<Rightarrow> sign_build_finally env sg task (final_payload env task r) st')))"

text \<open>A task run starts with an empty trace.\<close>

definition run_task :: "'w env \<Rightarrow> signer \<Rightarrow> task \<Rightarrow> 'w \<Rightarrow> exn option \<times> 'w st" where
  "run_task env sg task w = sign_build env sg task (w, [])"

section \<open>Vocabulary for the properties\<close>

text \<open>The batching of the specification: successive slices of at most \<open>n\<close> elements.\<close>

function batches :: "nat \<Rightarrow> 'a list \<Rightarrow> 'a list list" where
  "batches n xs = (if n = 0 \<or> xs = [] then [] else take n xs # batches n (drop n xs))"
  by pat_completeness auto
termination
  by (relation "measure (\<lambda>(n, xs). length xs)") auto

declare batches.simps [simp del]

text \<open>The stage of the pipeline to which a collaborator call belongs, and the events that a
  step appends to the trace.\<close>

datatype stage = Fetching | Verifying | Signing | Planning | Auditing | Uploading | Reporting | Cleaning

fun stage_of :: "event \<Rightarrow> stage" where
  "stage_of (EvMkdir p) = Fetching"
| "stage_of (EvDownload url p r) = Fetching"
| "stage_of (EvVerify p ok) = Verifying"
| "stage_of (EvSignRpm ps) = Signing"
| "stage_of (EvSignDeb p) = Signing"
| "stage_of (EvSignDsc p) = Signing"
| "stage_of (EvNotarize p) = Planning"
| "stage_of (EvCheck p) = Auditing"
| "stage_of (EvUpload h p i) = Uploading"
| "stage_of (EvReport i payload) = Reporting"
| "stage_of (EvRmtree p) = Cleaning"

definition emits :: "(event \<Rightarrow> bool) \<Rightarrow> 'w st \<Rightarrow> 'w st \<Rightarrow> bool" where
  "emits P st st' \<longleftrightarrow> (\<exists>d. snd st' = snd st @ d \<and> (\<forall>e \<in> set d. P e))"

definition sign_event :: "event \<Rightarrow> bool" where
  "sign_event e \<longleftrightarrow> stage_of e = Signing \<and> (\<forall>b. e = EvSignRpm b \<longrightarrow> b \<noteq> [] \<and> length b \<le> 50)"

text \<open>The event of the upload of a queued artifact, and the dictionary keys (content hashes)
  of the uploads in a trace.\<close>

definition upload_event :: "string \<times> info \<Rightarrow> event" where
  "upload_event item = (case item of (sha, package_id, file_name, package_path, platform) \<Rightarrow>
      EvUpload sha package_path package_id)"

fun uploads_of :: "event list \<Rightarrow> string list" where
  "uploads_of [] = []"
| "uploads_of (EvUpload h p i # es) = h # uploads_of es"
| "uploads_of (e # es) = uploads_of es"

text \<open>The batches of the RPM signing invocations in a trace.\<close>

fun rpm_batches_of :: "event list \<Rightarrow> path list list" where
  "rpm_batches_of [] = []"
| "rpm_batches_of (EvSignRpm b # es) = b # rpm_batches_of es"
| "rpm_batches_of (e # es) = rpm_batches_of es"

section \<open>Concrete scenarios\<close>

text \<open>A small world in which the model can be run: the world is the list of the paths that
  exist, every collaborator succeeds, the digest of a file is derived from its base name (so
  that two files of the same name are byte-identical), and the schedulers complete the calls in
  the order of submission. Variants are obtained by record update.\<close>

definition under :: "path \<Rightarrow> path \<Rightarrow> bool" where
  "under d q = (q = d \<or> take (Suc (length d)) q = d @ ''/'')"

definition demo_env :: "path list env" where
  "demo_env =
     \<lparr>safe_mkdir = (\<lambda>p w. (None, p # w)),
      download_file = (\<lambda>url dest creds w. (None, dest # w)),
      verify_artifact = (\<lambda>p w. (Inr (Some ''attestation''), w)),
      notarize_artifact = (\<lambda>p m w. (Inr ''cas'', w)),
      glob = (\<lambda>pat w. filter (\<lambda>q. take (length pat - 8) q = take (length pat - 8) pat
                                   \<and> drop (length q - 4) q = drop (length pat - 4) pat) (rev w)),
      sign_rpm_package = (\<lambda>ps k pw sf cert w. (None, w)),
      sign_deb_package = (\<lambda>p k pw w. (None, w)),
      sign_dsc_package = (\<lambda>p k pw w. (None, w)),
      hash_file = (\<lambda>p w. Inr (''sha-'' @ rev (takeWhile (\<lambda>c. c \<noteq> CHR ''/'') (rev p)))),
      stat_size = (\<lambda>p w. Inr (length p)),
      path_exists = (\<lambda>p w. \<exists>q \<in> set w. under p q),
      read_header = (\<lambda>p w. Inr \<lparr>RPMTAG_SIGGPG = Some ''sig'', RPMTAG_SIGPGP = None\<rparr>),
      pgp_signers = (\<lambda>blob. Inr [''ABCD1234'']),
      upload_artifact = (\<lambda>p tid platform pid fname w. (Inr (Some (''href:'' @ p)), w)),
      report_signed_build = (\<lambda>tid payload w. (None, w)),
      rmtree = (\<lambda>p w. (None, filter (\<lambda>q. \<not> under p q) w)),
      format_exc = (\<lambda>e. ''Traceback''),
      repr_package = (\<lambda>p. ''pkg''),
      fetch_order = (\<lambda>n. 0),
      audit_order = (\<lambda>n. 0),
      upload_order = (\<lambda>n. 0)\<rparr>"

definition demo_signer :: "bool \<Rightarrow> signer" where
  "demo_signer par =
     \<lparr>signer_config = \<lparr>working_dir = ''/w'', parallel_upload = par,
                        parallel_upload_file_size = DEFAULT_PARALLEL_FILE_UPLOAD_SIZE\<rparr>,
      key_ids = [''abcd1234'' \<mapsto> \<lparr>key_password = ''pw'', key_fingerprint = ''fp'', key_subkeys = []\<rparr>],
      notar_enabled = False, files_sign_cert_path = None, download_credentials = []\<rparr>"

definition demo_pkg :: "nat \<Rightarrow> string \<Rightarrow> package" where
  "demo_pkg i n = \<lparr>pkg_id = i, pkg_name = Some n, pkg_file_name = None, pkg_type = None,
                   pkg_package_type = None, download_url = ''http://x/'' @ n, cas_hash = None\<rparr>"

definition demo_task :: "package list \<Rightarrow> task" where
  "demo_task ps = \<lparr>task_id = 7, keyid = Some ''abcd1234'', pgp_keyid = None, sign_files = False,
                   task_build_id = Some 1, task_packages = Flat ps\<rparr>"

text \<open>Every download attempt times out.\<close>

definition timeout_env :: "path list env" where
  "timeout_env =
     demo_env\<lparr>download_file := (\<lambda>url dest creds w. (Some (ExternalError ''timeout''), w))\<rparr>"

text \<open>The header of every file is unreadable (the file is not an RPM package).\<close>

definition unreadable_env :: "path list env" where
  "unreadable_env =
     demo_env\<lparr>read_header := (\<lambda>p w. Inl (ExternalError ''error reading package header''))\<rparr>"

text \<open>Every package is signed by a key that is not the task's.\<close>

definition wrong_key_env :: "path list env" where
  "wrong_key_env = demo_env\<lparr>pgp_signers := (\<lambda>blob. Inr [''DEADBEEF''])\<rparr>"

text \<open>The report of the task fails.\<close>

definition report_fails_env :: "path list env" where
  "report_fails_env =
     demo_env\<lparr>report_signed_build := (\<lambda>tid payload w. (Some (ExternalError ''503''), w))\<rparr>"

text \<open>The verification of the second of three artifacts fails; verification is enabled and the
  descriptors carry a content hash.\<close>

definition verify_fails_env :: "path list env" where
  "verify_fails_env =
     demo_env\<lparr>verify_artifact := (\<lambda>p w. if p = ''/w/7/rpms/2/b.rpm''
                                          then (Inl (ExternalError ''not notarized''), w)
                                          else (Inr (Some ''attestation''), w))\<rparr>"

text \<open>The verification of the second artifact returns an empty attestation.\<close>

definition empty_attestation_env :: "path list env" where
  "empty_attestation_env =
     demo_env\<lparr>verify_artifact := (\<lambda>p w. if p = ''/w/7/rpms/2/b.rpm''
                                          then (Inr (Some []), w)
                                          else (Inr (Some ''attestation''), w))\<rparr>"

definition notar_signer :: signer where
  "notar_signer = (demo_signer False)\<lparr>notar_enabled := True\<rparr>"

definition cas_pkg :: "nat \<Rightarrow> string \<Rightarrow> package" where
  "cas_pkg i n = (demo_pkg i n)\<lparr>cas_hash := Some ''cas''\<rparr>"

text \<open>The world is the list of the RPM files of the task: \<open>glob\<close> finds all of them.\<close>

definition many_rpms_env :: "path list env" where
  "many_rpms_env =
     demo_env\<lparr>glob := (\<lambda>pat w. if drop (length pat - 4) pat = ''.rpm'' then w else [])\<rparr>"

text \<open>A task without a key identifier.\<close>

definition no_key_task :: task where
  "no_key_task = (demo_task [demo_pkg 1 ''a.rpm''])\<lparr>keyid := None\<rparr>"

text \<open>Three packages are fetched and every attempt to download the second one times out;
  the formatted error shows what was raised.\<close>

definition one_timeout_env :: "path list env" where
  "one_timeout_env =
     demo_env\<lparr>download_file := (\<lambda>url dest creds w. if url = ''http://x/b.rpm''
                                                     then (Some (ExternalError ''timeout''), w)
                                                     else (None, dest # w)),
              format_exc := (\<lambda>e. case e of ExternalError m \<Rightarrow> ''ExternalError: '' @ m
                                          | _ \<Rightarrow> ''Traceback'')\<rparr>"

definition one_timeout_results ::
  "((package \<times> string option) \<times> (exn + package \<times> info)) list" where
  "one_timeout_results =
     [((demo_pkg 1 ''a.rpm'', None),
       Inr (demo_pkg 1 ''a.rpm'', (1, Some ''a.rpm'', ''/w/7/rpms/1/a.rpm'', None))),
      ((demo_pkg 2 ''b.rpm'', None), Inl (ExternalError ''timeout'')),
      ((demo_pkg 3 ''c.rpm'', None),
       Inr (demo_pkg 3 ''c.rpm'', (3, Some ''c.rpm'', ''/w/7/rpms/3/c.rpm'', None)))]"

definition one_timeout_trace :: "event list" where
  "one_timeout_trace =
     [EvMkdir ''/w/7/rpms/1'', EvDownload ''http://x/a.rpm'' ''/w/7/rpms/1/a.rpm'' None,
      EvMkdir ''/w/7/rpms/2'',
      EvDownload ''http://x/b.rpm'' ''/w/7/rpms/2/b.rpm'' (Some (ExternalError ''timeout'')),
      EvDownload ''http://x/b.rpm'' ''/w/7/rpms/2/b.rpm'' (Some (ExternalError ''timeout'')),
      EvDownload ''http://x/b.rpm'' ''/w/7/rpms/2/b.rpm'' (Some (ExternalError ''timeout'')),
      EvMkdir ''/w/7/rpms/3'', EvDownload ''http://x/c.rpm'' ''/w/7/rpms/3/c.rpm'' None]"

text \<open>The embedded signature of every package cannot be parsed. The task of one RPM package,
  with the states after its stages.\<close>

definition bad_signature_env :: "path list env" where
  "bad_signature_env =
     demo_env\<lparr>pgp_signers := (\<lambda>blob. Inl (ExternalError ''not a PGP message'')),
              format_exc := (\<lambda>e. case e of ExternalError m \<Rightarrow> ''ExternalError: '' @ m
                                          | _ \<Rightarrow> ''Traceback'')\<rparr>"

definition one_rpm_packages :: "string option \<Rightarrow> (nat \<times> signed_package) list" where
  "one_rpm_packages sha =
     [(1, \<lparr>sp_id = 1, sp_name = Some ''a.rpm'', sp_file_name = None, sp_type = None,
           sp_package_type = None, sp_cas_hash = None, sp_fingerprint = ''fp'',
           sp_sha256 = sha, sp_href = None\<rparr>)]"

definition one_rpm_fetched :: "path list \<times> event list" where
  "one_rpm_fetched =
     ([''/w/7/rpms/1/a.rpm'', ''/w/7/rpms/1''],
      [EvMkdir ''/w/7/rpms/1'', EvDownload ''http://x/a.rpm'' ''/w/7/rpms/1/a.rpm'' None])"

definition one_rpm_signed :: "path list \<times> event list" where
  "one_rpm_signed =
     ([''/w/7/rpms/1/a.rpm'', ''/w/7/rpms/1''],
      [EvMkdir ''/w/7/rpms/1'', EvDownload ''http://x/a.rpm'' ''/w/7/rpms/1/a.rpm'' None,
       EvSignRpm [''/w/7/rpms/1/a.rpm'']])"

definition one_rpm_plan :: plan where
  "one_rpm_plan =
     \<lparr>files_to_upload = [''sha-a.rpm''], parallel_upload_files = [],
      sequential_upload_files = [(''sha-a.rpm'', 1, Some ''a.rpm'', ''/w/7/rpms/1/a.rpm'', None)],
      files_to_check = [''/w/7/rpms/1/a.rpm''],
      plan_packages = one_rpm_packages (Some ''sha-a.rpm'')\<rparr>"

section \<open>Thread pools: the scheduler permutes\<close>

lemma mset_schedule: "mset (schedule pick xs) = mset xs"
proof (induction pick xs rule: schedule.induct)
  case (1 pick xs)
  show ?case
  proof (cases "xs = []")
    case True
    then show ?thesis by (simp add: schedule.simps)
  next
    case False
    let ?i = "pick (length xs) mod length xs"
    have i: "?i < length xs" using False by simp
    have "mset (schedule pick xs) = add_mset (xs ! ?i) (mset (take ?i xs @ drop (Suc ?i) xs))"
      using False 1 by (subst schedule.simps) simp
    also have "\<dots> = mset (take ?i xs @ xs ! ?i # drop (Suc ?i) xs)" by simp
    also have "take ?i xs @ xs ! ?i # drop (Suc ?i) xs = xs"
      using i by (simp add: id_take_nth_drop[symmetric])
    finally show ?thesis .
  qed
qed

lemma set_schedule: "set (schedule pick xs) = set xs"
  using mset_schedule[of pick xs] by (metis set_mset_mset)

lemma length_schedule: "length (schedule pick xs) = length xs"
  using mset_schedule[of pick xs] by (metis size_mset)

section \<open>Evaluating the model on a concrete scenario\<close>

lemma schedule_first: "schedule (\<lambda>n. 0) xs = xs"
proof (induction xs)
  case Nil
  show ?case by (simp add: schedule.simps)
next
  case (Cons x xs)
  then show ?case by (subst schedule.simps) simp
qed

lemma download_tries_3:
  "download_tries env sg url dest 3 l st = download_tries env sg url dest (Suc (Suc (Suc 0))) l st"
  by (simp add: numeral_3_eq_3)

lemma demo_env_sel:
  "safe_mkdir demo_env = (\<lambda>p w. (None, p # w))"
  "download_file demo_env = (\<lambda>url dest creds w. (None, dest # w))"
  "verify_artifact demo_env = (\<lambda>p w. (Inr (Some ''attestation''), w))"
  "notarize_artifact demo_env = (\<lambda>p m w. (Inr ''cas'', w))"
  "glob demo_env = (\<lambda>pat w. filter (\<lambda>q. take (length pat - 8) q = take (length pat - 8) pat
                                   \<and> drop (length q - 4) q = drop (length pat - 4) pat) (rev w))"
  "sign_rpm_package demo_env = (\<lambda>ps k pw sf cert w. (None, w))"
  "sign_deb_package demo_env = (\<lambda>p k pw w. (None, w))"
  "sign_dsc_package demo_env = (\<lambda>p k pw w. (None, w))"
  "hash_file demo_env = (\<lambda>p w. Inr (''sha-'' @ rev (takeWhile (\<lambda>c. c \<noteq> CHR ''/'') (rev p))))"
  "stat_size demo_env = (\<lambda>p w. Inr (length p))"
  "path_exists demo_env = (\<lambda>p w. \<exists>q \<in> set w. under p q)"
  "read_header demo_env = (\<lambda>p w. Inr \<lparr>RPMTAG_SIGGPG = Some ''sig'', RPMTAG_SIGPGP = None\<rparr>)"
  "pgp_signers demo_env = (\<lambda>blob. Inr [''ABCD1234''])"
  "upload_artifact demo_env = (\<lambda>p tid platform pid fname w. (Inr (Some (''href:'' @ p)), w))"
  "report_signed_build demo_env = (\<lambda>tid payload w. (None, w))"
  "rmtree demo_env = (\<lambda>p w. (None, filter (\<lambda>q. \<not> under p q) w))"
  "format_exc demo_env = (\<lambda>e. ''Traceback'')"
  "repr_package demo_env = (\<lambda>p. ''pkg'')"
  "fetch_order demo_env = (\<lambda>n. 0)"
  "audit_order demo_env = (\<lambda>n. 0)"
  "upload_order demo_env = (\<lambda>n. 0)"
  by (simp_all add: demo_env_def)

lemmas model_defs =
  run_task_def sign_build_def sign_build_finally_def final_payload_def task_dir_def
  get_pgp_keyid_def call_rmtree_def call_report_signed_build_def sign_build_try_def
  upload_stage_def call_upload_artifact_def audit_stage_def plan_uploads_def enqueue_def
  notarize_step_def call_notarize_artifact_def sign_stage_def sign_rpms_def
  call_sign_rpm_package_def call_sign_deb_package_def call_sign_dsc_package_def
  call_verify_artifact_def fetch_stage_def signed_copy_def submitted_def download_package_def
  check_signature_def call_check_def check_def BaseSigner_download_package_def
  call_download_file_def call_safe_mkdir_def run_pool_def get_file_name_def
  truthy_def lower_def lower_char_def path_join_def str_nat.simps digit_char_def Let_def
  download_tries_3 schedule_first

lemmas demo_defs = demo_env_sel demo_signer_def demo_pkg_def demo_task_def under_def
  DEFAULT_PARALLEL_FILE_UPLOAD_SIZE_def

section \<open>Download retries\<close>

lemma download_tries_trace:
  "download_tries env sg url dest n last_exc st = (r, st') \<Longrightarrow>
   \<exists>atts. snd st' = snd st @ map (EvDownload url dest) atts \<and> length atts \<le> n \<and>
     None \<notin> set (butlast atts) \<and>
     (None \<in> set atts \<longrightarrow> r = Inr dest \<and> last atts = None) \<and>
     (None \<notin> set atts \<longrightarrow> length atts = n \<and>
        r = Inl (case (if atts = [] then last_exc else last atts) of
                   None \<Rightarrow> TypeError ''exceptions must derive from BaseException''
                 | Some e \<Rightarrow> e))"
proof (induction n arbitrary: last_exc st)
  case 0
  then show ?case by (auto split: option.splits)
next
  case (Suc n)
  obtain o1 w1 where d: "download_file env url dest (download_credentials sg) (fst st) = (o1, w1)"
    by (cases "download_file env url dest (download_credentials sg) (fst st)")
  let ?st1 = "(w1, snd st @ [EvDownload url dest o1])"
  have c: "call_download_file env sg url dest st = (o1, ?st1)"
    by (simp add: call_download_file_def d)
  show ?case
  proof (cases o1)
    case None
    with Suc.prems c have "r = Inr dest" "st' = ?st1" by auto
    then show ?thesis using None
      by (intro exI[of _ "[None]"]) simp
  next
    case (Some e)
    with Suc.prems c have "download_tries env sg url dest n (Some e) ?st1 = (r, st')" by simp
    from Suc.IH[OF this] obtain atts where a:
      "snd st' = snd ?st1 @ map (EvDownload url dest) atts" "length atts \<le> n"
      "None \<notin> set (butlast atts)"
      "None \<in> set atts \<longrightarrow> r = Inr dest \<and> last atts = None"
      "None \<notin> set atts \<longrightarrow> length atts = n \<and>
        r = Inl (case (if atts = [] then Some e else last atts) of
                   None \<Rightarrow> TypeError ''exceptions must derive from BaseException''
                 | Some e \<Rightarrow> e)"
      by blast
    show ?thesis
      using a Some by (intro exI[of _ "Some e # atts"]) auto
  qed
qed

section \<open>Signature audit\<close>

lemma check_signers_spec:
  "check_signers k subs signers sig =
     (if \<exists>s \<in> set signers. lower s = k \<or> lower s \<in> set subs then (SUCCESS, [])
      else (WRONG_SIGNATURE, if signers = [] then sig else lower (last signers)))"
  by (induction signers arbitrary: sig) auto

lemma run_all_call_check:
  "run_all (call_check env k subs) ps st =
     (map (\<lambda>p. (p, check env k subs p (fst st))) ps, (fst st, snd st @ map EvCheck ps))"
  by (induction ps arbitrary: st) (auto simp: call_check_def)

lemma collect_errors_Inr:
  "collect_errors results errors = Inr es \<Longrightarrow>
     (\<forall>(p, r) \<in> set results. \<exists>c. r = Inr c) \<and>
     es = errors @ concat (map (\<lambda>(p, r). case r of Inr c \<Rightarrow> audit_error p c | Inl e \<Rightarrow> []) results)"
  by (induction results errors rule: collect_errors.induct)
     (auto simp: audit_error_def split: if_splits)

section \<open>Batches of the RPM signing\<close>

lemma batches_Nil [simp]: "batches n [] = []"
  by (simp add: batches.simps)

lemma batches_unfold:
  "0 < n \<Longrightarrow> 0 < length xs \<Longrightarrow> batches n xs = take n xs # batches n (drop n xs)"
  by (subst batches.simps) auto

lemma batches_short: "xs \<noteq> [] \<Longrightarrow> length xs \<le> n \<Longrightarrow> batches n xs = [xs]"
  by (cases xs) (simp_all add: batches_unfold)

lemma batches_full: "0 < n \<Longrightarrow> length xs = n \<Longrightarrow> batches n (xs @ ys) = xs # batches n ys"
  by (subst batches.simps) auto

lemma sign_rpm_loop_batches:
  "sign_rpm_loop env sg k pw sf files acc st = (r, st') \<Longrightarrow> length acc < 50 \<Longrightarrow>
   \<exists>bs. snd st' = snd st @ map EvSignRpm bs \<and> (\<forall>b \<in> set bs. length b = 50) \<and>
     (case r of
        Inr left \<Rightarrow> length left < 50 \<and> acc @ files = concat bs @ left
      | Inl e \<Rightarrow> \<exists>more. acc @ files = concat bs @ more)"
proof (induction files arbitrary: acc st)
  case Nil
  then show ?case by (intro exI[of _ "[]"]) auto
next
  case (Cons x files)
  show ?case
  proof (cases "length (acc @ [x]) mod 50 = 0")
    case True
    have "\<And>m::nat. m < 50 \<Longrightarrow> Suc m mod 50 = 0 \<Longrightarrow> Suc m = 50" by presburger
    with True Cons.prems(2) have len: "length (acc @ [x]) = 50" by simp
    obtain o1 w1 where s: "sign_rpm_package env (join_str '' '' (acc @ [x])) k pw sf
        (files_sign_cert_path sg) (fst st) = (o1, w1)"
      by (cases "sign_rpm_package env (join_str '' '' (acc @ [x])) k pw sf
        (files_sign_cert_path sg) (fst st)")
    let ?st1 = "(w1, snd st @ [EvSignRpm (acc @ [x])])"
    have c: "call_sign_rpm_package env sg k pw sf (acc @ [x]) st = (o1, ?st1)"
      by (simp add: call_sign_rpm_package_def s)
    show ?thesis
    proof (cases o1)
      case (Some e)
      with Cons.prems(1) True c have "r = Inl e" "st' = ?st1" by auto
      then show ?thesis using len
        by (intro exI[of _ "[acc @ [x]]"]) auto
    next
      case None
      with Cons.prems(1) True c have "sign_rpm_loop env sg k pw sf files [] ?st1 = (r, st')"
        by simp
      from Cons.IH[OF this] obtain bs where b:
        "snd st' = snd ?st1 @ map EvSignRpm bs" "\<forall>b \<in> set bs. length b = 50"
        "case r of Inr left \<Rightarrow> length left < 50 \<and> [] @ files = concat bs @ left
           | Inl e \<Rightarrow> \<exists>more. [] @ files = concat bs @ more"
        by auto
      show ?thesis
        using b len by (intro exI[of _ "(acc @ [x]) # bs"]) (auto split: sum.splits)
    qed
  next
    case False
    with Cons.prems(2) have len: "length (acc @ [x]) < 50" by (cases "length acc = 49") auto
    from Cons.prems(1) False have "sign_rpm_loop env sg k pw sf files (acc @ [x]) st = (r, st')"
      by simp
    from Cons.IH[OF this len] show ?thesis by (cases r) auto
  qed
qed

lemma batches_concat_full:
  "\<forall>b \<in> set bs. length b = n \<Longrightarrow> 0 < n \<Longrightarrow> batches n (concat bs @ ys) = bs @ batches n ys"
  by (induction bs) (auto simp: batches_full)

lemma sign_rpms_batches:
  assumes "sign_rpms env sg k pw sf files st = (r, st')"
  shows "\<exists>bs more. snd st' = snd st @ map EvSignRpm bs \<and> batches 50 files = bs @ more \<and>
           (\<forall>b \<in> set bs. b \<noteq> [] \<and> length b \<le> 50) \<and> (r = None \<longrightarrow> more = [])"
proof -
  obtain r1 st1 where l: "sign_rpm_loop env sg k pw sf files [] st = (r1, st1)"
    by (cases "sign_rpm_loop env sg k pw sf files [] st")
  from sign_rpm_loop_batches[OF l] obtain bs where b:
    "snd st1 = snd st @ map EvSignRpm bs" "\<forall>b \<in> set bs. length b = 50"
    "case r1 of Inr left \<Rightarrow> length left < 50 \<and> [] @ files = concat bs @ left
       | Inl e \<Rightarrow> \<exists>more. [] @ files = concat bs @ more"
    by auto
  have ne: "\<forall>b \<in> set bs. b \<noteq> [] \<and> length b \<le> 50" using b(2) by auto
  show ?thesis
  proof (cases r1)
    case (Inl e)
    with assms l have "st' = st1" by (simp add: sign_rpms_def)
    moreover from Inl b(3) obtain more where "files = concat bs @ more" by auto
    then have "batches 50 files = bs @ batches 50 more"
      using b(2) by (simp add: batches_concat_full)
    moreover from assms l Inl have "r \<noteq> None" by (auto simp: sign_rpms_def)
    ultimately show ?thesis using b(1) ne by blast
  next
    case (Inr left)
    with b(3) have f: "files = concat bs @ left" and ll: "length left < 50" by auto
    have bf: "batches 50 files = bs @ batches 50 left"
      using b(2) f by (simp add: batches_concat_full)
    show ?thesis
    proof (cases "left = []")
      case True
      with assms l Inr have "st' = st1" by (simp add: sign_rpms_def)
      with b(1) bf True ne show ?thesis by (intro exI[of _ bs] exI[of _ "[]"]) simp
    next
      case False
      obtain o1 w1 where s: "sign_rpm_package env (join_str '' '' left) k pw sf
          (files_sign_cert_path sg) (fst st1) = (o1, w1)"
        by (cases "sign_rpm_package env (join_str '' '' left) k pw sf
          (files_sign_cert_path sg) (fst st1)")
      with assms l Inr False have "st' = (w1, snd st1 @ [EvSignRpm left])"
        by (simp add: sign_rpms_def call_sign_rpm_package_def)
      with b(1) have "snd st' = snd st @ map EvSignRpm (bs @ [left])" by simp
      moreover have "batches 50 files = (bs @ [left]) @ []"
        using bf False ll by (simp add: batches_short)
      moreover have "\<forall>b \<in> set (bs @ [left]). b \<noteq> [] \<and> length b \<le> 50"
        using ne False ll by auto
      ultimately show ?thesis by blast
    qed
  qed
qed

lemma batches_130: "length xs = 130 \<Longrightarrow> map length (batches 50 xs) = [50, 50, 30]"
  by (simp add: batches_unfold)

section \<open>The trace of each stage\<close>

lemma emits_refl: "emits P st st"
  by (simp add: emits_def)

lemma emits_trans: "emits P a b \<Longrightarrow> emits P b c \<Longrightarrow> emits P a c"
  unfolding emits_def by (metis Un_iff append.assoc set_append)

lemma emits_one: "snd st' = snd st @ [e] \<Longrightarrow> P e \<Longrightarrow> emits P st st'"
  by (simp add: emits_def)

lemma emits_map: "snd st' = snd st @ map f xs \<Longrightarrow> (\<And>x. P (f x)) \<Longrightarrow> emits P st st'"
  unfolding emits_def by auto

lemma run_all_emits:
  assumes "\<And>x s r s'. f x s = (r, s') \<Longrightarrow> emits P s s'"
  shows "run_all f xs s = (rs, s') \<Longrightarrow> emits P s s'"
proof (induction xs arbitrary: s rs)
  case Nil
  then show ?case by (simp add: emits_refl)
next
  case (Cons x xs)
  obtain r s1 where f: "f x s = (r, s1)" by (cases "f x s")
  obtain rs1 s2 where g: "run_all f xs s1 = (rs1, s2)" by (cases "run_all f xs s1")
  from Cons.prems f g have "s' = s2" by simp
  with g have "run_all f xs s1 = (rs1, s')" by simp
  from assms[OF f] Cons.IH[OF this] show ?case by (blast intro: emits_trans)
qed

lemma download_package_emits:
  assumes "download_package env sg rpms_dir debs_dir item st = (r, st')"
  shows "emits (\<lambda>e. stage_of e = Fetching) st st'"
proof -
  obtain pkg platform where i: "item = (pkg, platform)" by (cases item)
  define download_dir where
    "download_dir = (if (case pkg_type pkg of
                               Some t \<Rightarrow> t
                             | None \<Rightarrow> (case pkg_package_type pkg of Some t \<Rightarrow> t | None \<Rightarrow> ''rpm'')) = ''deb''
                         \<or> (case pkg_type pkg of
                               Some t \<Rightarrow> t
                             | None \<Rightarrow> (case pkg_package_type pkg of Some t \<Rightarrow> t | None \<Rightarrow> ''rpm'')) = ''dsc''
                      then debs_dir else rpms_dir)"
  obtain r1 st1 where b: "BaseSigner_download_package env sg download_dir pkg platform 3 st = (r1, st1)"
    by (cases "BaseSigner_download_package env sg download_dir pkg platform 3 st")
  with assms i have s: "st' = st1"
    by (auto simp: download_package_def Let_def download_dir_def[symmetric] split: sum.splits)
  define package_dir where
    "package_dir = path_join (path_join download_dir (case platform of None \<Rightarrow> [] | Some p \<Rightarrow> p))
                     (str_nat (pkg_id pkg))"
  obtain o1 w1 where m: "call_safe_mkdir env package_dir st = (o1, w1, snd st @ [EvMkdir package_dir])"
    by (cases "safe_mkdir env package_dir (fst st)") (auto simp: call_safe_mkdir_def)
  have e1: "emits (\<lambda>e. stage_of e = Fetching) st (w1, snd st @ [EvMkdir package_dir])"
    by (rule emits_one[where e="EvMkdir package_dir"]) simp_all
  show ?thesis
  proof (cases "o1 = None \<and> get_file_name pkg \<noteq> None")
    case False
    with b m have "st1 = (w1, snd st @ [EvMkdir package_dir])"
      by (auto simp: BaseSigner_download_package_def Let_def package_dir_def[symmetric]
               split: option.splits)
    with e1 s show ?thesis by simp
  next
    case True
    then obtain n where n: "get_file_name pkg = Some n" and o: "o1 = None" by auto
    from b m n o
    have "download_tries env sg (download_url pkg) (path_join package_dir n) 3 None
            (w1, snd st @ [EvMkdir package_dir]) = (r1, st1)"
      by (simp add: BaseSigner_download_package_def Let_def package_dir_def[symmetric])
    from download_tries_trace[OF this] obtain atts where
      "snd st1 = snd (w1, snd st @ [EvMkdir package_dir])
                 @ map (EvDownload (download_url pkg) (path_join package_dir n)) atts"
      by blast
    then have "emits (\<lambda>e. stage_of e = Fetching) (w1, snd st @ [EvMkdir package_dir]) st1"
      by (rule emits_map) simp
    with e1 s show ?thesis by (blast intro: emits_trans)
  qed
qed

lemma fetch_stage_emits:
  assumes "fetch_stage env sg fp rpms_dir debs_dir task st = (r, st')"
  shows "emits (\<lambda>e. stage_of e = Fetching) st st'"
proof -
  obtain results st1 where p: "run_all (download_package env sg rpms_dir debs_dir)
      (schedule (fetch_order env) (submitted (task_packages task))) st = (results, st1)"
    by (cases "run_all (download_package env sg rpms_dir debs_dir)
      (schedule (fetch_order env) (submitted (task_packages task))) st")
  with assms have "st' = st1"
    by (auto simp: fetch_stage_def run_pool_def split: sum.splits)
  with run_all_emits[OF download_package_emits p] show ?thesis by simp
qed

lemma verify_loop_trace:
  "verify_loop env sg m acc st = (r, st') \<Longrightarrow>
   \<exists>d. snd st' = snd st @ d \<and> (\<forall>e \<in> set d. stage_of e = Verifying) \<and>
       ((\<exists>p. EvVerify p False \<in> set d) \<longrightarrow> (\<exists>e. r = Inl e))"
proof (induction m arbitrary: acc st)
  case Nil
  then show ?case by simp
next
  case (Cons a m)
  obtain pkg_path pkg_info where a: "a = (pkg_path, pkg_info)" by (cases a)
  show ?case
  proof (cases "notar_enabled sg \<and> truthy (cas_hash pkg_info)")
    case False
    with Cons.prems a have "verify_loop env sg m acc st = (r, st')" by auto
    from Cons.IH[OF this] show ?thesis .
  next
    case True
    obtain v w1 where v: "verify_artifact env pkg_path (fst st) = (v, w1)"
      by (cases "verify_artifact env pkg_path (fst st)")
    let ?ok = "case v of Inr a \<Rightarrow> truthy a | Inl e \<Rightarrow> False"
    let ?st1 = "(w1, snd st @ [EvVerify pkg_path ?ok])"
    have c: "call_verify_artifact env pkg_path st = (v, ?st1)"
      by (simp add: call_verify_artifact_def v)
    show ?thesis
    proof (cases ?ok)
      case False
      with Cons.prems a True c have "st' = ?st1" "\<exists>e. r = Inl e"
        by (auto split: sum.splits option.splits bool.splits)
      then show ?thesis by (intro exI[of _ "[EvVerify pkg_path ?ok]"]) simp
    next
      case ok: True
      then obtain x where x: "v = Inr (Some x)" "truthy (Some x)"
        by (auto simp: truthy_def split: sum.splits option.splits)
      with Cons.prems a True c
      have "verify_loop env sg m (AList.update pkg_path x acc) ?st1 = (r, st')" by simp
      from Cons.IH[OF this] obtain d where d: "snd st' = snd ?st1 @ d"
        "\<forall>e \<in> set d. stage_of e = Verifying"
        "(\<exists>p. EvVerify p False \<in> set d) \<longrightarrow> (\<exists>e. r = Inl e)"
        by blast
      show ?thesis
        using d ok by (intro exI[of _ "EvVerify pkg_path ?ok # d"]) auto
    qed
  qed
qed

lemma sign_each_emits:
  assumes "\<And>p s r s'. f p s = (r, s') \<Longrightarrow> emits P s s'"
  shows "sign_each f ps s = (r, s') \<Longrightarrow> emits P s s'"
proof (induction ps arbitrary: s)
  case Nil
  then show ?case by (simp add: emits_refl)
next
  case (Cons p ps)
  obtain r1 s1 where f: "f p s = (r1, s1)" by (cases "f p s")
  show ?case
  proof (cases r1)
    case None
    with Cons.prems f have "sign_each f ps s1 = (r, s')" by simp
    with assms[OF f] Cons.IH show ?thesis by (blast intro: emits_trans)
  next
    case (Some e)
    with Cons.prems f have "s' = s1" by simp
    with assms[OF f] show ?thesis by simp
  qed
qed

lemma call_sign_deb_emits:
  "call_sign_deb_package env k pw p s = (r, s') \<Longrightarrow> emits (\<lambda>e. stage_of e = Signing \<and> (\<forall>b. e \<noteq> EvSignRpm b)) s s'"
  by (cases "sign_deb_package env p k pw (fst s)")
     (auto simp: call_sign_deb_package_def intro!: emits_one)

lemma call_sign_dsc_emits:
  "call_sign_dsc_package env k pw p s = (r, s') \<Longrightarrow> emits (\<lambda>e. stage_of e = Signing \<and> (\<forall>b. e \<noteq> EvSignRpm b)) s s'"
  by (cases "sign_dsc_package env p k pw (fst s)")
     (auto simp: call_sign_dsc_package_def intro!: emits_one)

lemma emits_mono: "emits P a b \<Longrightarrow> (\<And>e. P e \<Longrightarrow> Q e) \<Longrightarrow> emits Q a b"
  unfolding emits_def by blast

lemma sign_rpms_emits:
  assumes "sign_rpms env sg k pw sf files st = (r, st')"
  shows "emits sign_event st st'"
proof -
  from sign_rpms_batches[OF assms] obtain bs where
    "snd st' = snd st @ map EvSignRpm bs" "\<forall>b \<in> set bs. b \<noteq> [] \<and> length b \<le> 50"
    by blast
  then show ?thesis unfolding emits_def sign_event_def by auto
qed

lemma sign_stage_emits:
  assumes "sign_stage env sg k pw sf rpms_dir debs_dir st = (r, st')"
  shows "emits sign_event st st'"
proof -
  obtain r1 st1 where a: "sign_rpms env sg k pw sf (glob env (path_join rpms_dir ''**/*.rpm'') (fst st)) st = (r1, st1)"
    by (cases "sign_rpms env sg k pw sf (glob env (path_join rpms_dir ''**/*.rpm'') (fst st)) st")
  note e1 = sign_rpms_emits[OF a]
  show ?thesis
  proof (cases r1)
    case (Some e)
    with assms a have "st' = st1" by (simp add: sign_stage_def)
    with e1 show ?thesis by simp
  next
    case None
    obtain r2 st2 where b: "sign_each (call_sign_deb_package env k pw)
        (glob env (path_join debs_dir ''**/*.deb'') (fst st1)) st1 = (r2, st2)"
      by (cases "sign_each (call_sign_deb_package env k pw)
        (glob env (path_join debs_dir ''**/*.deb'') (fst st1)) st1")
    have e2: "emits sign_event st1 st2"
      by (rule emits_mono[OF sign_each_emits[OF call_sign_deb_emits b]]) (auto simp: sign_event_def)
    show ?thesis
    proof (cases r2)
      case (Some e)
      with assms a b None have "st' = st2" by (simp add: sign_stage_def)
      with e1 e2 show ?thesis by (blast intro: emits_trans)
    next
      case n2: None
      with assms a b None have c: "sign_each (call_sign_dsc_package env k pw)
          (glob env (path_join debs_dir ''**/*.dsc'') (fst st2)) st2 = (r, st')"
        by (simp add: sign_stage_def)
      have e3: "emits sign_event st2 st'"
        by (rule emits_mono[OF sign_each_emits[OF call_sign_dsc_emits c]]) (auto simp: sign_event_def)
      with e1 e2 show ?thesis by (blast intro: emits_trans)
    qed
  qed
qed

lemma notarize_step_emits:
  assumes "notarize_step env sg vm dinfo pl st = (r, st')"
  shows "emits (\<lambda>e. stage_of e = Planning) st st'"
proof -
  obtain i f p pf where d: "dinfo = (i, f, p, pf)" by (cases dinfo)
  show ?thesis
  proof (cases "notar_enabled sg \<and> map_of vm p \<noteq> None")
    case False
    with assms d have "st' = st" by (auto simp: notarize_step_def split: option.splits)
    then show ?thesis by (simp add: emits_refl)
  next
    case True
    then obtain m where m: "map_of vm p = Some m" by auto
    obtain r1 w1 where n: "notarize_artifact env p m (fst st) = (r1, w1)"
      by (cases "notarize_artifact env p m (fst st)")
    with assms d True m have "st' = (w1, snd st @ [EvNotarize p])"
      by (auto simp: notarize_step_def call_notarize_artifact_def split: sum.splits)
    then show ?thesis by (intro emits_one[where e="EvNotarize p"]) simp_all
  qed
qed

lemma plan_loop_emits:
  "plan_loop env sg vm ds pl st = (r, st') \<Longrightarrow> emits (\<lambda>e. stage_of e = Planning) st st'"
proof (induction ds arbitrary: pl st)
  case Nil
  then show ?case by (simp add: emits_refl)
next
  case (Cons d ds)
  obtain r1 st1 where n: "notarize_step env sg vm d pl st = (r1, st1)"
    by (cases "notarize_step env sg vm d pl st")
  note e1 = notarize_step_emits[OF n]
  show ?case
  proof (cases r1)
    case (Inl e)
    with Cons.prems n have "st' = st1" by simp
    with e1 show ?thesis by simp
  next
    case (Inr pl1)
    show ?thesis
    proof (cases "hash_file env (fst (snd (snd d))) (fst st1)")
      case (Inl e)
      with Cons.prems n Inr have "st' = st1" by simp
      with e1 show ?thesis by simp
    next
      case h: (Inr sha)
      show ?thesis
      proof (cases "enqueue env sg sha d (fst st1) pl1")
        case (Inl e)
        with Cons.prems n Inr h have "st' = st1" by simp
        with e1 show ?thesis by simp
      next
        case q: (Inr pl2)
        with Cons.prems n Inr h have "plan_loop env sg vm ds
            (pl2\<lparr>plan_packages := AList.map_entry (fst d) (\<lambda>p. p\<lparr>sp_sha256 := Some sha\<rparr>)
                                    (plan_packages pl2)\<rparr>) st1 = (r, st')"
          by simp
        from e1 Cons.IH[OF this] show ?thesis by (blast intro: emits_trans)
      qed
    qed
  qed
qed

lemma audit_stage_trace:
  assumes "audit_stage env sg files k st = (r, st')"
  shows "snd st' = snd st \<or> snd st' = snd st @ map EvCheck (schedule (audit_order env) files)"
proof (cases "key_ids sg k")
  case None
  with assms show ?thesis by (auto simp: audit_stage_def check_signature_def)
next
  case (Some ki)
  with assms show ?thesis
    by (auto simp: audit_stage_def check_signature_def run_pool_def run_all_call_check
             split: sum.splits if_splits)
qed

lemma audit_stage_emits:
  assumes "audit_stage env sg files k st = (r, st')"
  shows "emits (\<lambda>e. stage_of e = Auditing) st st'"
  using audit_stage_trace[OF assms] unfolding emits_def by auto

lemma uploads_of_append: "uploads_of (a @ b) = uploads_of a @ uploads_of b"
  by (induction a rule: uploads_of.induct) auto

lemma uploads_of_other: "\<forall>e \<in> set d. stage_of e \<noteq> Uploading \<Longrightarrow> uploads_of d = []"
  by (induction d rule: uploads_of.induct) auto

lemma uploads_of_upload_events: "uploads_of (map upload_event xs) = map fst xs"
  by (induction xs) (auto simp: upload_event_def)

lemma call_upload_artifact_trace:
  "call_upload_artifact env tid item st = (r, st') \<Longrightarrow> snd st' = snd st @ [upload_event item]"
  by (cases item, cases "upload_artifact env (fst (snd (snd (snd item)))) tid
        (snd (snd (snd (snd item)))) (fst (snd item)) (fst (snd (snd item))) (fst st)")
     (auto simp: call_upload_artifact_def upload_event_def)

lemma run_all_upload_trace:
  "run_all (call_upload_artifact env tid) xs st = (rs, st') \<Longrightarrow>
     snd st' = snd st @ map upload_event xs \<and> map fst rs = xs"
proof (induction xs arbitrary: st rs)
  case Nil
  then show ?case by simp
next
  case (Cons x xs)
  obtain r s1 where f: "call_upload_artifact env tid x st = (r, s1)"
    by (cases "call_upload_artifact env tid x st")
  obtain rs1 s2 where g: "run_all (call_upload_artifact env tid) xs s1 = (rs1, s2)"
    by (cases "run_all (call_upload_artifact env tid) xs s1")
  from Cons.prems f g have eq: "st' = s2" "rs = (x, r) # rs1" by auto
  with g have "run_all (call_upload_artifact env tid) xs s1 = (rs1, st')" by simp
  from Cons.IH[OF this] call_upload_artifact_trace[OF f] eq show ?case by simp
qed

lemma upload_sequential_trace:
  "upload_sequential env tid items packages hrefs st = (r, st') \<Longrightarrow>
     \<exists>done rest. items = done @ rest \<and> snd st' = snd st @ map upload_event done \<and>
       ((\<exists>v. r = Inr v) \<longrightarrow> rest = [])"
proof (induction items arbitrary: packages hrefs st)
  case Nil
  then show ?case by simp
next
  case (Cons x xs)
  obtain r1 s1 where f: "call_upload_artifact env tid x st = (r1, s1)"
    by (cases "call_upload_artifact env tid x st")
  note t = call_upload_artifact_trace[OF f]
  have stop: "st' = s1 \<Longrightarrow> (\<exists>e. r = Inl e) \<Longrightarrow> ?case"
    using t by (intro exI[of _ "[x]"] exI[of _ xs]) auto
  have continue: "upload_sequential env tid xs p h s1 = (r, st') \<Longrightarrow> ?case" for p h
  proof -
    assume "upload_sequential env tid xs p h s1 = (r, st')"
    from Cons.IH[OF this] obtain dn rest where
      "xs = dn @ rest" "snd st' = snd s1 @ map upload_event dn" "(\<exists>v. r = Inr v) \<longrightarrow> rest = []"
      by blast
    then show ?thesis using t by (intro exI[of _ "x # dn"] exI[of _ rest]) auto
  qed
  show ?case
  proof (cases r1)
    case (Inl e)
    with Cons.prems f show ?thesis by (intro stop) auto
  next
    case (Inr v)
    show ?thesis
    proof (cases v)
      case None
      with Cons.prems f Inr show ?thesis by (intro continue[of packages hrefs]) auto
    next
      case (Some h)
      show ?thesis
      proof (cases "map_of packages (fst (snd x))")
        case None
        with Cons.prems f Inr Some show ?thesis by (intro stop) auto
      next
        case s2: (Some p)
        with Cons.prems f Inr Some show ?thesis
          by (intro continue[of "AList.map_entry (fst (snd x)) (\<lambda>p. p\<lparr>sp_href := Some h\<rparr>) packages"
                "hrefs(fst (snd (snd x)) \<mapsto> h)"]) auto
      qed
    qed
  qed
qed

lemma upload_stage_trace:
  assumes "upload_stage env sg tid pl st = (r, st')"
  shows "\<exists>done rest. sequential_upload_files pl = done @ rest \<and>
           snd st' = snd st @ map upload_event (schedule (upload_order env) (parallel_upload_files pl))
                      @ map upload_event done \<and>
           ((\<exists>v. r = Inr v) \<longrightarrow> rest = [])"
proof -
  obtain results st1 where p: "run_all (call_upload_artifact env tid)
      (schedule (upload_order env) (parallel_upload_files pl)) st = (results, st1)"
    by (cases "run_all (call_upload_artifact env tid)
      (schedule (upload_order env) (parallel_upload_files pl)) st")
  from run_all_upload_trace[OF p]
  have t1: "snd st1 = snd st @ map upload_event (schedule (upload_order env) (parallel_upload_files pl))"
    by simp
  show ?thesis
  proof (cases "apply_parallel results (plan_packages pl) Map.empty")
    case (Inl e)
    with assms p have "st' = st1" "r = Inl e" by (auto simp: upload_stage_def run_pool_def)
    with t1 show ?thesis
      by (intro exI[of _ "[]"] exI[of _ "sequential_upload_files pl"]) simp
  next
    case (Inr v)
    obtain packages1 hrefs1 where v: "v = (packages1, hrefs1)" by (cases v)
    obtain r2 st2 where s: "upload_sequential env tid (sequential_upload_files pl) packages1 hrefs1 st1
        = (r2, st2)"
      by (cases "upload_sequential env tid (sequential_upload_files pl) packages1 hrefs1 st1")
    from upload_sequential_trace[OF s] obtain dn rest where d:
      "sequential_upload_files pl = dn @ rest" "snd st2 = snd st1 @ map upload_event dn"
      "(\<exists>v. r2 = Inr v) \<longrightarrow> rest = []"
      by blast
    from assms p Inr v s have "st' = st2" "(\<exists>v. r = Inr v) \<longrightarrow> (\<exists>v. r2 = Inr v)"
      by (auto simp: upload_stage_def run_pool_def split: sum.splits if_splits prod.splits)
    with d t1 show ?thesis
      by (intro exI[of _ dn] exI[of _ rest]) auto
  qed
qed

lemma upload_stage_emits:
  assumes "upload_stage env sg tid pl st = (r, st')"
  shows "emits (\<lambda>e. stage_of e = Uploading) st st'"
proof -
  from upload_stage_trace[OF assms] obtain dn where
    "snd st' = snd st @ map upload_event (schedule (upload_order env) (parallel_upload_files pl) @ dn)"
    by auto
  then show ?thesis by (rule emits_map) (auto simp: upload_event_def split: prod.splits)
qed

section \<open>The trace of the task run\<close>

lemma sign_build_try_cases:
  assumes "sign_build_try env sg task k ki rd dd st = (r, st')"
  obtains
    (fetch) e where
      "fetch_stage env sg (key_fingerprint ki) rd dd task st = (Inl e, st')" "r = Inl e"
  | (verify) packages downloaded pim st1 e where
      "fetch_stage env sg (key_fingerprint ki) rd dd task st = (Inr (packages, downloaded, pim), st1)"
      "verify_loop env sg pim [] st1 = (Inl e, st')" "r = Inl e"
  | (sign) packages downloaded pim st1 vm st2 e where
      "fetch_stage env sg (key_fingerprint ki) rd dd task st = (Inr (packages, downloaded, pim), st1)"
      "verify_loop env sg pim [] st1 = (Inr vm, st2)"
      "sign_stage env sg k (key_password ki) (sign_files task) rd dd st2 = (Some e, st')" "r = Inl e"
  | (plan) packages downloaded pim st1 vm st2 st3 e where
      "fetch_stage env sg (key_fingerprint ki) rd dd task st = (Inr (packages, downloaded, pim), st1)"
      "verify_loop env sg pim [] st1 = (Inr vm, st2)"
      "sign_stage env sg k (key_password ki) (sign_files task) rd dd st2 = (None, st3)"
      "plan_uploads env sg vm downloaded packages st3 = (Inl e, st')" "r = Inl e"
  | (audit) packages downloaded pim st1 vm st2 st3 pl st4 e where
      "fetch_stage env sg (key_fingerprint ki) rd dd task st = (Inr (packages, downloaded, pim), st1)"
      "verify_loop env sg pim [] st1 = (Inr vm, st2)"
      "sign_stage env sg k (key_password ki) (sign_files task) rd dd st2 = (None, st3)"
      "plan_uploads env sg vm downloaded packages st3 = (Inr pl, st4)"
      "audit_stage env sg (files_to_check pl) k st4 = (Some e, st')" "r = Inl e"
  | (upload) packages downloaded pim st1 vm st2 st3 pl st4 st5 ru where
      "fetch_stage env sg (key_fingerprint ki) rd dd task st = (Inr (packages, downloaded, pim), st1)"
      "verify_loop env sg pim [] st1 = (Inr vm, st2)"
      "sign_stage env sg k (key_password ki) (sign_files task) rd dd st2 = (None, st3)"
      "plan_uploads env sg vm downloaded packages st3 = (Inr pl, st4)"
      "audit_stage env sg (files_to_check pl) k st4 = (None, st5)"
      "upload_stage env sg (task_id task) pl st5 = (ru, st')"
      "r = (case ru of Inl e \<Rightarrow> Inl e | Inr packages' \<Rightarrow> Inr (map snd packages'))"
proof -
  obtain r1 st1 where a1: "fetch_stage env sg (key_fingerprint ki) rd dd task st = (r1, st1)"
    by (cases "fetch_stage env sg (key_fingerprint ki) rd dd task st")
  show thesis
  proof (cases r1)
    case (Inl e)
    with assms a1 show thesis by (intro fetch[of e]) (simp_all add: sign_build_try_def)
  next
    case (Inr v)
    obtain packages downloaded pim where v: "v = (packages, downloaded, pim)" by (cases v)
    note a1' = a1[unfolded Inr v]
    obtain r2 st2 where a2: "verify_loop env sg pim [] st1 = (r2, st2)"
      by (cases "verify_loop env sg pim [] st1")
    show thesis
    proof (cases r2)
      case (Inl e)
      with assms a1' a2 show thesis
        by (intro verify[OF a1', of e]) (simp_all add: sign_build_try_def)
    next
      case (Inr vm)
      note a2' = a2[unfolded Inr]
      obtain r3 st3 where a3:
        "sign_stage env sg k (key_password ki) (sign_files task) rd dd st2 = (r3, st3)"
        by (cases "sign_stage env sg k (key_password ki) (sign_files task) rd dd st2")
      show thesis
      proof (cases r3)
        case (Some e)
        with assms a1' a2' a3 show thesis
          by (intro sign[OF a1' a2', of e]) (simp_all add: sign_build_try_def)
      next
        case None
        note a3' = a3[unfolded None]
        obtain r4 st4 where a4: "plan_uploads env sg vm downloaded packages st3 = (r4, st4)"
          by (cases "plan_uploads env sg vm downloaded packages st3")
        show thesis
        proof (cases r4)
          case (Inl e)
          with assms a1' a2' a3' a4 show thesis
            by (intro plan[OF a1' a2' a3', of e]) (simp_all add: sign_build_try_def)
        next
          case (Inr pl)
          note a4' = a4[unfolded Inr]
          obtain r5 st5 where a5: "audit_stage env sg (files_to_check pl) k st4 = (r5, st5)"
            by (cases "audit_stage env sg (files_to_check pl) k st4")
          show thesis
          proof (cases r5)
            case (Some e)
            with assms a1' a2' a3' a4' a5 show thesis
              by (intro audit[OF a1' a2' a3' a4', of e]) (simp_all add: sign_build_try_def)
          next
            case None
            note a5' = a5[unfolded None]
            obtain ru st6 where a6: "upload_stage env sg (task_id task) pl st5 = (ru, st6)"
              by (cases "upload_stage env sg (task_id task) pl st5")
            with assms a1' a2' a3' a4' a5' show thesis
              by (intro upload[OF a1' a2' a3' a4' a5', of ru]) 
                 (simp_all add: sign_build_try_def split: sum.splits)
          qed
        qed
      qed
    qed
  qed
qed

lemma emitsD: "emits P st st' \<Longrightarrow> \<exists>d. snd st' = snd st @ d \<and> (\<forall>e \<in> set d. P e)"
  by (simp add: emits_def)

lemma try_traceI:
  assumes "tr = tr0 @ df @ dv @ ds @ dr"
    and "\<forall>e \<in> set df. stage_of e = Fetching"
    and "\<forall>e \<in> set dv. stage_of e = Verifying"
    and "\<forall>e \<in> set ds. sign_event e"
    and "\<forall>e \<in> set dr. stage_of e \<in> {Planning, Auditing, Uploading}"
    and "(\<exists>p. EvVerify p False \<in> set dv) \<longrightarrow> (\<exists>e. r = Inl e) \<and> ds = [] \<and> dr = []"
  shows "\<exists>df dv ds dr.
           tr = tr0 @ df @ dv @ ds @ dr \<and>
           (\<forall>e \<in> set df. stage_of e = Fetching) \<and>
           (\<forall>e \<in> set dv. stage_of e = Verifying) \<and>
           (\<forall>e \<in> set ds. sign_event e) \<and>
           (\<forall>e \<in> set dr. stage_of e \<in> {Planning, Auditing, Uploading}) \<and>
           ((\<exists>p. EvVerify p False \<in> set dv) \<longrightarrow> (\<exists>e. r = Inl e) \<and> ds = [] \<and> dr = [])"
  using assms by blast

lemma sign_build_try_trace:
  assumes "sign_build_try env sg task k ki rd dd st = (r, st')"
  shows "\<exists>df dv ds dr.
           snd st' = snd st @ df @ dv @ ds @ dr \<and>
           (\<forall>e \<in> set df. stage_of e = Fetching) \<and>
           (\<forall>e \<in> set dv. stage_of e = Verifying) \<and>
           (\<forall>e \<in> set ds. sign_event e) \<and>
           (\<forall>e \<in> set dr. stage_of e \<in> {Planning, Auditing, Uploading}) \<and>
           ((\<exists>p. EvVerify p False \<in> set dv) \<longrightarrow> (\<exists>e. r = Inl e) \<and> ds = [] \<and> dr = [])"
  using assms
proof (cases rule: sign_build_try_cases)
  case (fetch e)
  from emitsD[OF fetch_stage_emits[OF fetch(1)]] obtain df where
    f: "snd st' = snd st @ df" "\<forall>e \<in> set df. stage_of e = Fetching" by blast
  show ?thesis
    by (rule try_traceI[where df=df and dv="[]" and ds="[]" and dr="[]"]) (simp_all add: f)
next
  case (verify packages downloaded pim st1 e)
  from emitsD[OF fetch_stage_emits[OF verify(1)]] obtain df where
    f: "snd st1 = snd st @ df" "\<forall>e \<in> set df. stage_of e = Fetching" by blast
  from verify_loop_trace[OF verify(2)] obtain dv where
    v: "snd st' = snd st1 @ dv" "\<forall>e \<in> set dv. stage_of e = Verifying" by blast
  show ?thesis
    by (rule try_traceI[where df=df and dv=dv and ds="[]" and dr="[]"])
       (simp_all add: f v verify(3))
next
  case (sign packages downloaded pim st1 vm st2 e)
  from emitsD[OF fetch_stage_emits[OF sign(1)]] obtain df where
    f: "snd st1 = snd st @ df" "\<forall>e \<in> set df. stage_of e = Fetching" by blast
  from verify_loop_trace[OF sign(2)] obtain dv where
    v: "snd st2 = snd st1 @ dv" "\<forall>e \<in> set dv. stage_of e = Verifying"
       "\<forall>p. EvVerify p False \<notin> set dv" by auto
  from emitsD[OF sign_stage_emits[OF sign(3)]] obtain ds where
    s: "snd st' = snd st2 @ ds" "\<forall>e \<in> set ds. sign_event e" by blast
  show ?thesis
    by (rule try_traceI[where df=df and dv=dv and ds=ds and dr="[]"])
       (simp_all add: f v s)
next
  case (plan packages downloaded pim st1 vm st2 st3 e)
  from emitsD[OF fetch_stage_emits[OF plan(1)]] obtain df where
    f: "snd st1 = snd st @ df" "\<forall>e \<in> set df. stage_of e = Fetching" by blast
  from verify_loop_trace[OF plan(2)] obtain dv where
    v: "snd st2 = snd st1 @ dv" "\<forall>e \<in> set dv. stage_of e = Verifying"
       "\<forall>p. EvVerify p False \<notin> set dv" by auto
  from emitsD[OF sign_stage_emits[OF plan(3)]] obtain ds where
    s: "snd st3 = snd st2 @ ds" "\<forall>e \<in> set ds. sign_event e" by blast
  from emitsD[OF plan_loop_emits[OF plan(4)[unfolded plan_uploads_def]]] obtain dp where
    p: "snd st' = snd st3 @ dp" "\<forall>e \<in> set dp. stage_of e = Planning" by blast
  show ?thesis
    by (rule try_traceI[where df=df and dv=dv and ds=ds and dr=dp])
       (simp_all add: f v s p)
next
  case (audit packages downloaded pim st1 vm st2 st3 pl st4 e)
  from emitsD[OF fetch_stage_emits[OF audit(1)]] obtain df where
    f: "snd st1 = snd st @ df" "\<forall>e \<in> set df. stage_of e = Fetching" by blast
  from verify_loop_trace[OF audit(2)] obtain dv where
    v: "snd st2 = snd st1 @ dv" "\<forall>e \<in> set dv. stage_of e = Verifying"
       "\<forall>p. EvVerify p False \<notin> set dv" by auto
  from emitsD[OF sign_stage_emits[OF audit(3)]] obtain ds where
    s: "snd st3 = snd st2 @ ds" "\<forall>e \<in> set ds. sign_event e" by blast
  from emitsD[OF plan_loop_emits[OF audit(4)[unfolded plan_uploads_def]]] obtain dp where
    p: "snd st4 = snd st3 @ dp" "\<forall>e \<in> set dp. stage_of e = Planning" by blast
  from emitsD[OF audit_stage_emits[OF audit(5)]] obtain da where
    a: "snd st' = snd st4 @ da" "\<forall>e \<in> set da. stage_of e = Auditing" by blast
  have r: "\<forall>e \<in> set (dp @ da). stage_of e \<in> {Planning, Auditing, Uploading}"
    using p(2) a(2) by auto
  show ?thesis
    by (rule try_traceI[where df=df and dv=dv and ds=ds and dr="dp @ da", OF _ f(2) v(2) s(2) r])
       (simp_all add: f(1) v(1) v(3) s(1) p(1) a(1))
next
  case (upload packages downloaded pim st1 vm st2 st3 pl st4 st5 ru)
  from emitsD[OF fetch_stage_emits[OF upload(1)]] obtain df where
    f: "snd st1 = snd st @ df" "\<forall>e \<in> set df. stage_of e = Fetching" by blast
  from verify_loop_trace[OF upload(2)] obtain dv where
    v: "snd st2 = snd st1 @ dv" "\<forall>e \<in> set dv. stage_of e = Verifying"
       "\<forall>p. EvVerify p False \<notin> set dv" by auto
  from emitsD[OF sign_stage_emits[OF upload(3)]] obtain ds where
    s: "snd st3 = snd st2 @ ds" "\<forall>e \<in> set ds. sign_event e" by blast
  from emitsD[OF plan_loop_emits[OF upload(4)[unfolded plan_uploads_def]]] obtain dp where
    p: "snd st4 = snd st3 @ dp" "\<forall>e \<in> set dp. stage_of e = Planning" by blast
  from emitsD[OF audit_stage_emits[OF upload(5)]] obtain da where
    a: "snd st5 = snd st4 @ da" "\<forall>e \<in> set da. stage_of e = Auditing" by blast
  from emitsD[OF upload_stage_emits[OF upload(6)]] obtain du where
    u: "snd st' = snd st5 @ du" "\<forall>e \<in> set du. stage_of e = Uploading" by blast
  have r: "\<forall>e \<in> set (dp @ da @ du). stage_of e \<in> {Planning, Auditing, Uploading}"
    using p(2) a(2) u(2) by auto
  show ?thesis
    by (rule try_traceI[where df=df and dv=dv and ds=ds and dr="dp @ da @ du",
          OF _ f(2) v(2) s(2) r])
       (simp_all add: f(1) v(1) v(3) s(1) p(1) a(1) u(1))
qed

lemma sign_build_finally_trace:
  assumes "sign_build_finally env sg task payload st = (r, st')"
  shows "\<exists>dc. snd st' = snd st @ EvReport (task_id task) payload # dc \<and>
           (dc = [] \<or> dc = [EvRmtree (task_dir sg task)]) \<and>
           (r = None \<or> (\<exists>w. fst (report_signed_build env (task_id task) payload w) = r)
              \<or> (\<exists>w. fst (rmtree env (task_dir sg task) w) = r))"
proof -
  obtain r1 w1 where a: "report_signed_build env (task_id task) payload (fst st) = (r1, w1)"
    by (cases "report_signed_build env (task_id task) payload (fst st)")
  show ?thesis
  proof (cases "r1 = None \<and> path_exists env (task_dir sg task) w1")
    case False
    with assms a have "snd st' = snd st @ [EvReport (task_id task) payload]" "r = r1"
      by (auto simp: sign_build_finally_def call_report_signed_build_def split: option.splits)
    with a show ?thesis by (metis fst_conv)
  next
    case True
    obtain r2 w2 where b: "rmtree env (task_dir sg task) w1 = (r2, w2)"
      by (cases "rmtree env (task_dir sg task) w1")
    with assms a True
    have "snd st' = snd st @ [EvReport (task_id task) payload, EvRmtree (task_dir sg task)]" "r = r2"
      by (auto simp: sign_build_finally_def call_report_signed_build_def call_rmtree_def)
    with b show ?thesis by (metis fst_conv)
  qed
qed

lemma run_task_structure:
  assumes "run_task env sg task w = (r, st')"
  obtains (no_key) "r = Some (SignError ''No pgp keyid'')" "st' = (w, [])"
      "get_pgp_keyid task = None \<or> get_pgp_keyid task = Some []"
  | (unknown_key) k where "get_pgp_keyid task = Some k" "key_ids sg k = None"
      "r = Some (KeyError k)" "st' = (w, [])"
  | (run) k ki rt st1 where "get_pgp_keyid task = Some k" "k \<noteq> []" "key_ids sg k = Some ki"
      "sign_build_try env sg task k ki (path_join (task_dir sg task) ''rpms'')
         (path_join (task_dir sg task) ''debs'') (w, []) = (rt, st1)"
      "sign_build_finally env sg task (final_payload env task rt) st1 = (r, st')"
proof (cases "get_pgp_keyid task")
  case None
  with assms show thesis by (intro no_key) (auto simp: run_task_def sign_build_def)
next
  case (Some k)
  show thesis
  proof (cases "k = []")
    case True
    with assms Some show thesis by (intro no_key) (auto simp: run_task_def sign_build_def)
  next
    case False
    show thesis
    proof (cases "key_ids sg k")
      case None
      with assms Some False show thesis
        by (intro unknown_key[of k]) (auto simp: run_task_def sign_build_def)
    next
      case ki: (Some ki)
      obtain rt st1 where t: "sign_build_try env sg task k ki (path_join (task_dir sg task) ''rpms'')
         (path_join (task_dir sg task) ''debs'') (w, []) = (rt, st1)"
        by (cases "sign_build_try env sg task k ki (path_join (task_dir sg task) ''rpms'')
         (path_join (task_dir sg task) ''debs'') (w, [])")
      with assms Some False ki show thesis
        by (intro run[of k ki rt st1]) (auto simp: run_task_def sign_build_def)
    qed
  qed
qed

lemma run_task_trace:
  assumes "run_task env sg task w = (r, st')"
  shows "\<forall>e \<in> set (snd st'). sign_event e \<or> stage_of e \<noteq> Signing"
  using assms
proof (cases rule: run_task_structure)
  case no_key
  then show ?thesis by simp
next
  case (unknown_key k)
  then show ?thesis by simp
next
  case (run k ki rt st1)
  from sign_build_try_trace[OF run(4)] obtain df dv ds dr where t:
    "snd st1 = df @ dv @ ds @ dr"
    "\<forall>e \<in> set df. stage_of e = Fetching"
    "\<forall>e \<in> set dv. stage_of e = Verifying"
    "\<forall>e \<in> set ds. sign_event e"
    "\<forall>e \<in> set dr. stage_of e \<in> {Planning, Auditing, Uploading}"
    unfolding snd_conv append_Nil by blast
  from sign_build_finally_trace[OF run(5)] obtain dc where c:
    "snd st' = snd st1 @ EvReport (task_id task) (final_payload env task rt) # dc"
    "dc = [] \<or> dc = [EvRmtree (task_dir sg task)]"
    by blast
  show ?thesis
  proof
    fix e assume "e \<in> set (snd st')"
    with c t(1) consider "e \<in> set df" | "e \<in> set dv" | "e \<in> set ds" | "e \<in> set dr"
      | "e = EvReport (task_id task) (final_payload env task rt)" | "e = EvRmtree (task_dir sg task)"
      by auto
    then show "sign_event e \<or> stage_of e \<noteq> Signing"
      using t(2-5) by cases auto
  qed
qed

lemma rpm_batches_of_append: "rpm_batches_of (a @ b) = rpm_batches_of a @ rpm_batches_of b"
  by (induction a rule: rpm_batches_of.induct) auto

lemma rpm_batches_of_map: "rpm_batches_of (map EvSignRpm bs) = bs"
  by (induction bs) auto

lemma rpm_batches_of_none: "\<forall>e \<in> set d. \<forall>b. e \<noteq> EvSignRpm b \<Longrightarrow> rpm_batches_of d = []"
  by (induction d rule: rpm_batches_of.induct) auto

lemma rpm_batches_of_mem: "b \<in> set (rpm_batches_of d) \<Longrightarrow> EvSignRpm b \<in> set d"
  by (induction d rule: rpm_batches_of.induct) auto

lemma sign_stage_batches:
  assumes "sign_stage env sg k pw sf rpms_dir debs_dir st = (r, st')"
  shows "\<exists>d more. snd st' = snd st @ d \<and>
           batches 50 (glob env (path_join rpms_dir ''**/*.rpm'') (fst st)) = rpm_batches_of d @ more \<and>
           (r = None \<longrightarrow> more = [])"
proof -
  let ?files = "glob env (path_join rpms_dir ''**/*.rpm'') (fst st)"
  obtain r1 st1 where a: "sign_rpms env sg k pw sf ?files st = (r1, st1)"
    by (cases "sign_rpms env sg k pw sf ?files st")
  from sign_rpms_batches[OF a] obtain bs more where b:
    "snd st1 = snd st @ map EvSignRpm bs" "batches 50 ?files = bs @ more" "r1 = None \<longrightarrow> more = []"
    by blast
  show ?thesis
  proof (cases r1)
    case (Some e)
    with assms a have "st' = st1" "r \<noteq> None" by (auto simp: sign_stage_def)
    with b show ?thesis
      by (intro exI[of _ "map EvSignRpm bs"] exI[of _ more]) (auto simp: rpm_batches_of_map)
  next
    case None
    obtain r2 st2 where d: "sign_each (call_sign_deb_package env k pw)
        (glob env (path_join debs_dir ''**/*.deb'') (fst st1)) st1 = (r2, st2)"
      by (cases "sign_each (call_sign_deb_package env k pw)
        (glob env (path_join debs_dir ''**/*.deb'') (fst st1)) st1")
    have "emits (\<lambda>e. stage_of e = Signing \<and> (\<forall>b. e \<noteq> EvSignRpm b)) st1 st2"
      by (rule sign_each_emits[OF _ d], rule call_sign_deb_emits)
    from emitsD[OF this] obtain d2 where d2:
      "snd st2 = snd st1 @ d2" "\<forall>e \<in> set d2. \<forall>b. e \<noteq> EvSignRpm b" by blast
    have "\<exists>d3. snd st' = snd st2 @ d3 \<and> (\<forall>e \<in> set d3. \<forall>b. e \<noteq> EvSignRpm b)"
    proof (cases r2)
      case (Some e)
      with assms a None d have "st' = st2" by (simp add: sign_stage_def)
      then show ?thesis by simp
    next
      case n2: None
      with assms a None d have "sign_each (call_sign_dsc_package env k pw)
          (glob env (path_join debs_dir ''**/*.dsc'') (fst st2)) st2 = (r, st')"
        by (simp add: sign_stage_def)
      then have "emits (\<lambda>e. stage_of e = Signing \<and> (\<forall>b. e \<noteq> EvSignRpm b)) st2 st'"
        by (rule sign_each_emits[rotated], intro call_sign_dsc_emits)
      from emitsD[OF this] show ?thesis by blast
    qed
    then obtain d3 where d3: "snd st' = snd st2 @ d3" "\<forall>e \<in> set d3. \<forall>b. e \<noteq> EvSignRpm b"
      by blast
    have "rpm_batches_of (map EvSignRpm bs @ d2 @ d3) = bs"
      using d2(2) d3(2) by (simp add: rpm_batches_of_append rpm_batches_of_map rpm_batches_of_none)
    moreover have "snd st' = snd st @ map EvSignRpm bs @ d2 @ d3"
      using b(1) d2(1) d3(1) by simp
    moreover have "more = []" using b(3) None by simp
    ultimately show ?thesis using b(2)
      by (intro exI[of _ "map EvSignRpm bs @ d2 @ d3"] exI[of _ "[]"]) simp
  qed
qed

lemma sign_rpm_loop_succeeds:
  assumes "\<And>ps k pw sf cert w. fst (sign_rpm_package env ps k pw sf cert w) = None"
  shows "\<exists>left. fst (sign_rpm_loop env sg k pw sf files acc st) = Inr left"
proof (induction files arbitrary: acc st)
  case Nil
  show ?case by simp
next
  case (Cons x files)
  show ?case
  proof (cases "length (acc @ [x]) mod 50 = 0")
    case True
    obtain o1 w1 where s: "sign_rpm_package env (join_str '' '' (acc @ [x])) k pw sf
        (files_sign_cert_path sg) (fst st) = (o1, w1)"
      by (cases "sign_rpm_package env (join_str '' '' (acc @ [x])) k pw sf
        (files_sign_cert_path sg) (fst st)")
    with assms[of "join_str '' '' (acc @ [x])" k pw sf "files_sign_cert_path sg" "fst st"]
    have "o1 = None" by simp
    with True s Cons.IH[of "[]"] show ?thesis by (simp add: call_sign_rpm_package_def)
  next
    case False
    with Cons.IH[of "acc @ [x]" st] show ?thesis by simp
  qed
qed

lemma sign_rpms_succeeds:
  assumes "\<And>ps k pw sf cert w. fst (sign_rpm_package env ps k pw sf cert w) = None"
  shows "fst (sign_rpms env sg k pw sf files st) = None"
proof -
  from sign_rpm_loop_succeeds[OF assms, of sg k pw sf files "[]" st] obtain left st1 where
    l: "sign_rpm_loop env sg k pw sf files [] st = (Inr left, st1)"
    by (cases "sign_rpm_loop env sg k pw sf files [] st") auto
  obtain o1 w1 where s: "sign_rpm_package env (join_str '' '' left) k pw sf
        (files_sign_cert_path sg) (fst st1) = (o1, w1)"
    by (cases "sign_rpm_package env (join_str '' '' left) k pw sf
        (files_sign_cert_path sg) (fst st1)")
  with assms[of "join_str '' '' left" k pw sf "files_sign_cert_path sg" "fst st1"]
  have "o1 = None" by simp
  with l s show ?thesis by (simp add: sign_rpms_def call_sign_rpm_package_def)
qed

lemma many_rpms_signed:
  "fst (sign_stage many_rpms_env (demo_signer False) ''abcd1234'' ''pw'' False ''/w/7/rpms'' ''/w/7/debs''
          (replicate 130 ''/w/7/rpms/1/a.rpm'', [])) = None"
proof -
  have e: "\<And>ps k pw sf cert w. fst (sign_rpm_package many_rpms_env ps k pw sf cert w) = None"
    by (simp add: many_rpms_env_def demo_env_sel)
  obtain st1 where s: "sign_rpms many_rpms_env (demo_signer False) ''abcd1234'' ''pw'' False
      (replicate 130 ''/w/7/rpms/1/a.rpm'') (replicate 130 ''/w/7/rpms/1/a.rpm'', []) = (None, st1)"
    using sign_rpms_succeeds[OF e]
    by (metis prod.collapse)
  have g: "glob many_rpms_env (path_join ''/w/7/rpms'' ''**/*.rpm'') w = w"
       "glob many_rpms_env (path_join ''/w/7/debs'' ''**/*.deb'') w = []"
       "glob many_rpms_env (path_join ''/w/7/debs'' ''**/*.dsc'') w = []" for w
    by (simp_all add: many_rpms_env_def path_join_def)
  show ?thesis by (simp add: sign_stage_def g s)
qed

text \<open>When the body of the \<open>try\<close> block raises, the run reports the failure payload with the
  formatted error, right after the events of the body.\<close>

lemma run_task_reports_failure:
  assumes "get_pgp_keyid task = Some k" "k \<noteq> []" "key_ids sg k = Some ki"
    and "sign_build_try env sg task k ki (path_join (task_dir sg task) ''rpms'')
           (path_join (task_dir sg task) ''debs'') (w, []) = (Inl e, st1)"
  shows "\<exists>r st' dc. run_task env sg task w = (r, st')
           \<and> snd st' = snd st1 @ EvReport (task_id task)
                 \<lparr>build_id = task_build_id task, success = False,
                  error_message = Some (format_exc env e), rp_packages = None,
                  has_stats = False\<rparr> # dc
           \<and> (dc = [] \<or> dc = [EvRmtree (task_dir sg task)])"
proof -
  let ?payload = "\<lparr>build_id = task_build_id task, success = False,
                  error_message = Some (format_exc env e), rp_packages = None,
                  has_stats = False\<rparr>"
  obtain r st' where f: "sign_build_finally env sg task ?payload st1 = (r, st')"
    by (cases "sign_build_finally env sg task ?payload st1")
  with assms have "run_task env sg task w = (r, st')"
    by (simp add: run_task_def sign_build_def final_payload_def)
  with sign_build_finally_trace[OF f] show ?thesis by blast
qed

section \<open>Verification before signing\<close>

lemma verify_loop_head_fails:
  assumes "notar_enabled sg" "truthy (cas_hash pkg_info)"
    and "verify_artifact env q (fst st) = (v, w1)"
    and "\<forall>a. v = Inr a \<longrightarrow> \<not> truthy a"
  shows "\<exists>e. verify_loop env sg ((q, pkg_info) # rest) acc st
            = (Inl e, (w1, snd st @ [EvVerify q False]))"
  using assms
  by (cases v) (auto simp: call_verify_artifact_def split: option.splits bool.splits)

text \<open>Claim C7. A verification call fails when the collaborator raises or returns a falsy
  attestation (\<open>None\<close> or an empty one); such calls are made only when verification is enabled
  and the descriptor carries a content hash. The verification loop then raises at that artifact,
  and the call is recorded as \<open>EvVerify q False\<close>. In every task run whose trace records a
  failed verification, no signing invocation of any kind is made and the reported payload has
  \<open>success = False\<close> and an error message.\<close>

theorem verification_failure_blocks_signing:
  "(notar_enabled sg \<and> truthy (cas_hash pkg_info) \<and> verify_artifact env q (fst st) = (v, w1)
      \<and> (\<forall>a. v = Inr a \<longrightarrow> \<not> truthy a) \<longrightarrow>
        (\<exists>e. verify_loop env sg ((q, pkg_info) # rest) acc st
                = (Inl e, (w1, snd st @ [EvVerify q False]))))
   \<and> (run_task env sg task w = (r, st') \<and> EvVerify p False \<in> set (snd st') \<longrightarrow>
        (\<forall>e \<in> set (snd st'). stage_of e \<noteq> Signing)
        \<and> (\<exists>payload. EvReport (task_id task) payload \<in> set (snd st')
              \<and> \<not> success payload \<and> error_message payload \<noteq> None))"
proof (intro conjI impI)
  assume "notar_enabled sg \<and> truthy (cas_hash pkg_info) \<and> verify_artifact env q (fst st) = (v, w1)
      \<and> (\<forall>a. v = Inr a \<longrightarrow> \<not> truthy a)"
  then have "notar_enabled sg" "truthy (cas_hash pkg_info)"
    "verify_artifact env q (fst st) = (v, w1)" "\<forall>a. v = Inr a \<longrightarrow> \<not> truthy a"
    by simp_all
  then show "\<exists>e. verify_loop env sg ((q, pkg_info) # rest) acc st
                = (Inl e, (w1, snd st @ [EvVerify q False]))"
    by (rule verify_loop_head_fails)
next
  assume a: "run_task env sg task w = (r, st') \<and> EvVerify p False \<in> set (snd st')"
  then have run0: "run_task env sg task w = (r, st')" and ev: "EvVerify p False \<in> set (snd st')"
    by simp_all
  have "(\<forall>e \<in> set (snd st'). stage_of e \<noteq> Signing)
        \<and> (\<exists>payload. EvReport (task_id task) payload \<in> set (snd st')
              \<and> \<not> success payload \<and> error_message payload \<noteq> None)"
    using run0
  proof (cases rule: run_task_structure)
    case no_key
    with ev show ?thesis by simp
  next
    case (unknown_key k)
    with ev show ?thesis by simp
  next
    case (run k ki rt st1)
    from sign_build_try_trace[OF run(4)] obtain df dv ds dr where t:
      "snd st1 = df @ dv @ ds @ dr"
      "\<forall>e \<in> set df. stage_of e = Fetching"
      "\<forall>e \<in> set dv. stage_of e = Verifying"
      "\<forall>e \<in> set ds. sign_event e"
      "\<forall>e \<in> set dr. stage_of e \<in> {Planning, Auditing, Uploading}"
      "(\<exists>p. EvVerify p False \<in> set dv) \<longrightarrow> (\<exists>e. rt = Inl e) \<and> ds = [] \<and> dr = []"
      unfolding snd_conv append_Nil by blast
    from sign_build_finally_trace[OF run(5)] obtain dc where c:
      "snd st' = snd st1 @ EvReport (task_id task) (final_payload env task rt) # dc"
      "dc = [] \<or> dc = [EvRmtree (task_dir sg task)]"
      by blast
    have "stage_of (EvVerify p False) = Verifying" by simp
    with ev c t(1,2,4,5) have "EvVerify p False \<in> set dv"
      by (auto simp: sign_event_def)
    with t(6) obtain e where e: "rt = Inl e" "ds = []" "dr = []" by blast
    have "\<forall>e \<in> set (snd st'). stage_of e \<noteq> Signing"
      using c t(1,2,3) e by auto
    moreover have "\<not> success (final_payload env task rt)"
      "error_message (final_payload env task rt) \<noteq> None"
      using e by (simp_all add: final_payload_def)
    ultimately show ?thesis using c(1) by auto
  qed
  then show "\<forall>e \<in> set (snd st'). stage_of e \<noteq> Signing"
    and "\<exists>payload. EvReport (task_id task) payload \<in> set (snd st')
              \<and> \<not> success payload \<and> error_message payload \<noteq> None"
    by simp_all
qed

theorem verification_failure_blocks_signing_witness:
  "(\<exists>e. verify_loop empty_attestation_env notar_signer
            [(''/w/7/rpms/2/b.rpm'', cas_pkg 2 ''b.rpm''), (''/w/7/rpms/3/c.rpm'', cas_pkg 3 ''c.rpm'')]
            [(''/w/7/rpms/1/a.rpm'', ''attestation'')] ([] :: path list, [])
          = (Inl e, ([], [EvVerify ''/w/7/rpms/2/b.rpm'' False])))
   \<and> EvVerify ''/w/7/rpms/2/b.rpm'' False
       \<in> set (snd (snd (run_task empty_attestation_env notar_signer
            (demo_task [cas_pkg 1 ''a.rpm'', cas_pkg 2 ''b.rpm'', cas_pkg 3 ''c.rpm'']) [])))
   \<and> filter (\<lambda>e. stage_of e = Signing) (snd (snd (run_task empty_attestation_env notar_signer
            (demo_task [cas_pkg 1 ''a.rpm'', cas_pkg 2 ''b.rpm'', cas_pkg 3 ''c.rpm'']) []))) = []
   \<and> (\<exists>payload. EvReport 7 payload
          \<in> set (snd (snd (run_task empty_attestation_env notar_signer
            (demo_task [cas_pkg 1 ''a.rpm'', cas_pkg 2 ''b.rpm'', cas_pkg 3 ''c.rpm'']) [])))
        \<and> \<not> success payload \<and> error_message payload \<noteq> None)
   \<and> EvVerify ''/w/7/rpms/2/b.rpm'' False
       \<in> set (snd (snd (run_task verify_fails_env notar_signer
            (demo_task [cas_pkg 1 ''a.rpm'', cas_pkg 2 ''b.rpm'', cas_pkg 3 ''c.rpm'']) [])))
   \<and> filter (\<lambda>e. stage_of e = Signing) (snd (snd (run_task verify_fails_env notar_signer
            (demo_task [cas_pkg 1 ''a.rpm'', cas_pkg 2 ''b.rpm'', cas_pkg 3 ''c.rpm'']) []))) = []"
proof -
  let ?task = "demo_task [cas_pkg 1 ''a.rpm'', cas_pkg 2 ''b.rpm'', cas_pkg 3 ''c.rpm'']"
  let ?tr = "[EvMkdir ''/w/7/rpms/1'', EvDownload ''http://x/a.rpm'' ''/w/7/rpms/1/a.rpm'' None,
       EvMkdir ''/w/7/rpms/2'', EvDownload ''http://x/b.rpm'' ''/w/7/rpms/2/b.rpm'' None,
       EvMkdir ''/w/7/rpms/3'', EvDownload ''http://x/c.rpm'' ''/w/7/rpms/3/c.rpm'' None,
       EvVerify ''/w/7/rpms/1/a.rpm'' True, EvVerify ''/w/7/rpms/2/b.rpm'' False,
       EvReport 7 \<lparr>build_id = Some 1, success = False, error_message = Some ''Traceback'',
                   rp_packages = None, has_stats = False\<rparr>,
       EvRmtree ''/w/7'']"
  have run1: "run_task empty_attestation_env notar_signer ?task [] = (None, [], ?tr)"
    by (simp add: model_defs demo_defs empty_attestation_env_def notar_signer_def cas_pkg_def)
  have run2: "run_task verify_fails_env notar_signer ?task [] = (None, [], ?tr)"
    by (simp add: model_defs demo_defs verify_fails_env_def notar_signer_def cas_pkg_def)
  have v: "EvVerify ''/w/7/rpms/2/b.rpm'' False \<in> set (snd ([] :: path list, ?tr))" by simp
  have tid: "task_id ?task = 7" by (simp add: demo_task_def)
  have h: "notar_enabled notar_signer \<and> truthy (cas_hash (cas_pkg 2 ''b.rpm''))
      \<and> verify_artifact empty_attestation_env ''/w/7/rpms/2/b.rpm'' (fst ([] :: path list, [] :: event list))
           = (Inr (Some []), [])
      \<and> (\<forall>a. (Inr (Some []) :: exn + string option) = Inr a \<longrightarrow> \<not> truthy a)"
    by (simp add: notar_signer_def cas_pkg_def demo_pkg_def truthy_def empty_attestation_env_def)
  note t1 = verification_failure_blocks_signing[where env=empty_attestation_env
      and sg=notar_signer and task="?task" and w="[]" and r=None and st'="([], ?tr)"
      and p="''/w/7/rpms/2/b.rpm''" and q="''/w/7/rpms/2/b.rpm''"
      and pkg_info="cas_pkg 2 ''b.rpm''" and st="([], [])" and v="Inr (Some [])" and ?w1.0="[]"
      and rest="[(''/w/7/rpms/3/c.rpm'', cas_pkg 3 ''c.rpm'')]"
      and acc="[(''/w/7/rpms/1/a.rpm'', ''attestation'')]", unfolded tid]
  note t2 = verification_failure_blocks_signing[where env=verify_fails_env
      and sg=notar_signer and task="?task" and w="[]" and r=None and st'="([], ?tr)"
      and p="''/w/7/rpms/2/b.rpm''", unfolded tid]
  from t1 h have a: "\<exists>e. verify_loop empty_attestation_env notar_signer
            [(''/w/7/rpms/2/b.rpm'', cas_pkg 2 ''b.rpm''), (''/w/7/rpms/3/c.rpm'', cas_pkg 3 ''c.rpm'')]
            [(''/w/7/rpms/1/a.rpm'', ''attestation'')] ([] :: path list, [])
          = (Inl e, ([], [EvVerify ''/w/7/rpms/2/b.rpm'' False]))"
    by simp
  from t1 run1 v have b: "(\<forall>e \<in> set (snd ([] :: path list, ?tr)). stage_of e \<noteq> Signing)
        \<and> (\<exists>payload. EvReport 7 payload \<in> set (snd ([] :: path list, ?tr))
              \<and> \<not> success payload \<and> error_message payload \<noteq> None)"
    by blast
  from t2 run2 v have c: "(\<forall>e \<in> set (snd ([] :: path list, ?tr)). stage_of e \<noteq> Signing)"
    by blast
  show ?thesis unfolding run1 run2 using a b c v by (simp add: filter_empty_conv)
qed

section \<open>RPM signing batches\<close>

text \<open>Claim C6. In every task run each RPM signing invocation receives between 1 and 50 paths.
  The invocations of the signing stage sign, in order, the successive slices of at most 50 of
  the RPM files found by \<open>glob\<close>: the batches signed are a prefix of \<open>batches 50 files\<close>, all of
  it when the stage returns; with 130 RPM files these are three invocations, of 50, 50 and 30
  paths.\<close>

theorem rpm_signing_batches:
  "(run_task env sg task w = (r, st') \<longrightarrow>
      (\<forall>b \<in> set (rpm_batches_of (snd st')). b \<noteq> [] \<and> length b \<le> 50))
   \<and> (sign_stage env sg k pw sf rpms_dir debs_dir st = (r', st1) \<longrightarrow>
        (\<exists>d more. snd st1 = snd st @ d
           \<and> batches 50 (glob env (path_join rpms_dir ''**/*.rpm'') (fst st)) = rpm_batches_of d @ more
           \<and> (r' = None \<longrightarrow> more = [])
           \<and> (r' = None \<and> length (glob env (path_join rpms_dir ''**/*.rpm'') (fst st)) = 130 \<longrightarrow>
                map length (rpm_batches_of d) = [50, 50, 30])))"
proof (intro conjI impI)
  assume "run_task env sg task w = (r, st')"
  from run_task_trace[OF this]
  have "\<forall>b. EvSignRpm b \<in> set (snd st') \<longrightarrow> b \<noteq> [] \<and> length b \<le> 50"
    by (auto simp: sign_event_def)
  then show "\<forall>b \<in> set (rpm_batches_of (snd st')). b \<noteq> [] \<and> length b \<le> 50"
    using rpm_batches_of_mem by blast
next
  assume "sign_stage env sg k pw sf rpms_dir debs_dir st = (r', st1)"
  from sign_stage_batches[OF this] obtain d more where d:
    "snd st1 = snd st @ d"
    "batches 50 (glob env (path_join rpms_dir ''**/*.rpm'') (fst st)) = rpm_batches_of d @ more"
    "r' = None \<longrightarrow> more = []"
    by blast
  have "r' = None \<and> length (glob env (path_join rpms_dir ''**/*.rpm'') (fst st)) = 130 \<longrightarrow>
                map length (rpm_batches_of d) = [50, 50, 30]"
    using d(2,3) batches_130[of "glob env (path_join rpms_dir ''**/*.rpm'') (fst st)"] by auto
  with d show "\<exists>d more. snd st1 = snd st @ d
           \<and> batches 50 (glob env (path_join rpms_dir ''**/*.rpm'') (fst st)) = rpm_batches_of d @ more
           \<and> (r' = None \<longrightarrow> more = [])
           \<and> (r' = None \<and> length (glob env (path_join rpms_dir ''**/*.rpm'') (fst st)) = 130 \<longrightarrow>
                map length (rpm_batches_of d) = [50, 50, 30])"
    by (intro exI[of _ d] exI[of _ more]) simp
qed

theorem rpm_signing_batches_witness:
  "rpm_batches_of (snd (snd (run_task demo_env (demo_signer False)
          (demo_task [demo_pkg 1 ''a.rpm'', demo_pkg 2 ''a.rpm'']) [])))
     = [[''/w/7/rpms/1/a.rpm'', ''/w/7/rpms/2/a.rpm'']]
   \<and> [''/w/7/rpms/1/a.rpm'', ''/w/7/rpms/2/a.rpm''] \<noteq> []
   \<and> length [''/w/7/rpms/1/a.rpm'', ''/w/7/rpms/2/a.rpm''] \<le> 50
   \<and> (\<exists>d. snd (snd (sign_stage many_rpms_env (demo_signer False) ''abcd1234'' ''pw'' False
                      ''/w/7/rpms'' ''/w/7/debs'' (replicate 130 ''/w/7/rpms/1/a.rpm'', []))) = d
          \<and> map length (rpm_batches_of d) = [50, 50, 30])"
proof -
  let ?run = "run_task demo_env (demo_signer False)
          (demo_task [demo_pkg 1 ''a.rpm'', demo_pkg 2 ''a.rpm'']) []"
  let ?w = "replicate 130 ''/w/7/rpms/1/a.rpm''"
  let ?stage = "sign_stage many_rpms_env (demo_signer False) ''abcd1234'' ''pw'' False
                      ''/w/7/rpms'' ''/w/7/debs'' (?w, [])"
  have r: "?run = (fst ?run, snd ?run)" by simp
  have b: "rpm_batches_of (snd (snd ?run)) = [[''/w/7/rpms/1/a.rpm'', ''/w/7/rpms/2/a.rpm'']]"
    by (simp add: model_defs demo_defs)
  have s: "?stage = (None, snd ?stage)" using many_rpms_signed by (metis prod.collapse)
  have n: "length (glob many_rpms_env (path_join ''/w/7/rpms'' ''**/*.rpm'') (fst (?w, []))) = 130"
    by (simp add: many_rpms_env_def path_join_def)
  note t1 = rpm_signing_batches[where env=demo_env and sg="demo_signer False"
      and task="demo_task [demo_pkg 1 ''a.rpm'', demo_pkg 2 ''a.rpm'']" and w="[]"
      and r="fst ?run" and st'="snd ?run"]
  note t2 = rpm_signing_batches[where env=many_rpms_env and sg="demo_signer False"
      and k="''abcd1234''" and pw="''pw''" and sf=False and rpms_dir="''/w/7/rpms''"
      and debs_dir="''/w/7/debs''" and st="(?w, [])" and r'=None and ?st1.0="snd ?stage"]
  from t1 r have "\<forall>b \<in> set (rpm_batches_of (snd (snd ?run))). b \<noteq> [] \<and> length b \<le> 50"
    by blast
  then have 1: "[''/w/7/rpms/1/a.rpm'', ''/w/7/rpms/2/a.rpm''] \<noteq> []
      \<and> length [''/w/7/rpms/1/a.rpm'', ''/w/7/rpms/2/a.rpm''] \<le> 50"
    unfolding b by simp
  from t2 s n have 2: "\<exists>d. snd (snd ?stage) = d \<and> map length (rpm_batches_of d) = [50, 50, 30]"
    by auto
  from b 1 2 show ?thesis by blast
qed

section \<open>Errors of the stages are caught and reported\<close>

text \<open>The claim C2 as stated fails for a task without a key identifier: \<open>SignError\<close> leaves
  the task run and the reporter is never called.\<close>

theorem missing_keyid_counterexample:
  "run_task demo_env (demo_signer False) no_key_task []
     = (Some (SignError ''No pgp keyid''), [], [])"
  by (simp add: run_task_def sign_build_def get_pgp_keyid_def no_key_task_def demo_task_def)

text \<open>Claim C2, as amended. A task without a (non-empty) key identifier makes the run raise
  \<open>SignError\<close> before any stage, with no report. For a task whose key identifier is known to
  the key ring, the reporter is called exactly once; when a stage (the body of the \<open>try\<close>
  block) raises \<open>e\<close>, the reported payload has \<open>success = False\<close> and the formatted error as
  its message, and \<open>e\<close> does not leave the run: what the run raises, if anything, was raised by
  the reporter or by the removal of the task directory.\<close>

theorem stage_errors_are_reported:
  "(\<not> truthy (get_pgp_keyid task) \<longrightarrow>
      run_task env sg task w = (Some (SignError ''No pgp keyid''), (w, [])))
   \<and> (get_pgp_keyid task = Some k \<and> k \<noteq> [] \<and> key_ids sg k = Some ki
        \<and> run_task env sg task w = (r, st') \<longrightarrow>
      (\<exists>rt st1 payload.
         sign_build_try env sg task k ki (path_join (task_dir sg task) ''rpms'')
           (path_join (task_dir sg task) ''debs'') (w, []) = (rt, st1)
         \<and> filter (\<lambda>e. stage_of e = Reporting) (snd st') = [EvReport (task_id task) payload]
         \<and> (\<forall>e. rt = Inl e \<longrightarrow>
               \<not> success payload \<and> error_message payload = Some (format_exc env e))
         \<and> ((\<exists>pkgs. rt = Inr pkgs) \<longrightarrow> success payload)
         \<and> (r = None
             \<or> (\<exists>w1. fst (report_signed_build env (task_id task) payload w1) = r)
             \<or> (\<exists>w2. fst (rmtree env (task_dir sg task) w2) = r))))"
proof (intro conjI impI)
  assume "\<not> truthy (get_pgp_keyid task)"
  then show "run_task env sg task w = (Some (SignError ''No pgp keyid''), (w, []))"
    by (auto simp: truthy_def run_task_def sign_build_def split: option.splits)
next
  assume h: "get_pgp_keyid task = Some k \<and> k \<noteq> [] \<and> key_ids sg k = Some ki
        \<and> run_task env sg task w = (r, st')"
  obtain rt st1 where t: "sign_build_try env sg task k ki (path_join (task_dir sg task) ''rpms'')
           (path_join (task_dir sg task) ''debs'') (w, []) = (rt, st1)"
    by (cases "sign_build_try env sg task k ki (path_join (task_dir sg task) ''rpms'')
           (path_join (task_dir sg task) ''debs'') (w, [])")
  let ?payload = "final_payload env task rt"
  from h t have f: "sign_build_finally env sg task ?payload st1 = (r, st')"
    by (auto simp: run_task_def sign_build_def)
  from sign_build_try_trace[OF t] obtain df dv ds dr where d:
    "snd st1 = df @ dv @ ds @ dr"
    "\<forall>e \<in> set df. stage_of e = Fetching"
    "\<forall>e \<in> set dv. stage_of e = Verifying"
    "\<forall>e \<in> set ds. sign_event e"
    "\<forall>e \<in> set dr. stage_of e \<in> {Planning, Auditing, Uploading}"
    unfolding snd_conv append_Nil by blast
  have pre: "filter (\<lambda>e. stage_of e = Reporting) (snd st1) = []"
    using d by (auto simp: filter_empty_conv sign_event_def)
  from sign_build_finally_trace[OF f] obtain dc where c:
    "snd st' = snd st1 @ EvReport (task_id task) ?payload # dc"
    "dc = [] \<or> dc = [EvRmtree (task_dir sg task)]"
    "r = None \<or> (\<exists>w. fst (report_signed_build env (task_id task) ?payload w) = r)
              \<or> (\<exists>w. fst (rmtree env (task_dir sg task) w) = r)"
    by blast
  have once: "filter (\<lambda>e. stage_of e = Reporting) (snd st') = [EvReport (task_id task) ?payload]"
    using c(1,2) pre by auto
  have err: "\<forall>e. rt = Inl e \<longrightarrow>
               \<not> success ?payload \<and> error_message ?payload = Some (format_exc env e)"
    by (simp add: final_payload_def)
  have ok: "(\<exists>pkgs. rt = Inr pkgs) \<longrightarrow> success ?payload"
    by (auto simp: final_payload_def)
  show "\<exists>rt st1 payload.
         sign_build_try env sg task k ki (path_join (task_dir sg task) ''rpms'')
           (path_join (task_dir sg task) ''debs'') (w, []) = (rt, st1)
         \<and> filter (\<lambda>e. stage_of e = Reporting) (snd st') = [EvReport (task_id task) payload]
         \<and> (\<forall>e. rt = Inl e \<longrightarrow>
               \<not> success payload \<and> error_message payload = Some (format_exc env e))
         \<and> ((\<exists>pkgs. rt = Inr pkgs) \<longrightarrow> success payload)
         \<and> (r = None
             \<or> (\<exists>w1. fst (report_signed_build env (task_id task) payload w1) = r)
             \<or> (\<exists>w2. fst (rmtree env (task_dir sg task) w2) = r))"
    using t once err ok c(3)
    by (intro exI[of _ rt] exI[of _ st1] exI[of _ ?payload]) simp
qed

theorem stage_errors_are_reported_witness:
  "\<not> truthy (get_pgp_keyid no_key_task)
   \<and> run_task demo_env (demo_signer False) no_key_task []
       = (Some (SignError ''No pgp keyid''), ([], []))
   \<and> get_pgp_keyid (demo_task [demo_pkg 1 ''a.rpm'']) = Some ''abcd1234''
   \<and> key_ids (demo_signer False) ''abcd1234''
       = Some \<lparr>key_password = ''pw'', key_fingerprint = ''fp'', key_subkeys = []\<rparr>
   \<and> run_task timeout_env (demo_signer False) (demo_task [demo_pkg 1 ''a.rpm'']) []
       = (None, [],
          [EvMkdir ''/w/7/rpms/1'',
           EvDownload ''http://x/a.rpm'' ''/w/7/rpms/1/a.rpm'' (Some (ExternalError ''timeout'')),
           EvDownload ''http://x/a.rpm'' ''/w/7/rpms/1/a.rpm'' (Some (ExternalError ''timeout'')),
           EvDownload ''http://x/a.rpm'' ''/w/7/rpms/1/a.rpm'' (Some (ExternalError ''timeout'')),
           EvReport 7 \<lparr>build_id = Some 1, success = False, error_message = Some ''Traceback'',
                       rp_packages = None, has_stats = False\<rparr>,
           EvRmtree ''/w/7''])
   \<and> (\<exists>rt st1 payload.
         sign_build_try timeout_env (demo_signer False) (demo_task [demo_pkg 1 ''a.rpm''])
           ''abcd1234'' \<lparr>key_password = ''pw'', key_fingerprint = ''fp'', key_subkeys = []\<rparr>
           (path_join (task_dir (demo_signer False) (demo_task [demo_pkg 1 ''a.rpm''])) ''rpms'')
           (path_join (task_dir (demo_signer False) (demo_task [demo_pkg 1 ''a.rpm''])) ''debs'')
           ([], []) = (rt, st1)
         \<and> filter (\<lambda>e. stage_of e = Reporting)
              (snd ([] :: path list,
                [EvMkdir ''/w/7/rpms/1'',
                 EvDownload ''http://x/a.rpm'' ''/w/7/rpms/1/a.rpm'' (Some (ExternalError ''timeout'')),
                 EvDownload ''http://x/a.rpm'' ''/w/7/rpms/1/a.rpm'' (Some (ExternalError ''timeout'')),
                 EvDownload ''http://x/a.rpm'' ''/w/7/rpms/1/a.rpm'' (Some (ExternalError ''timeout'')),
                 EvReport 7 \<lparr>build_id = Some 1, success = False, error_message = Some ''Traceback'',
                             rp_packages = None, has_stats = False\<rparr>,
                 EvRmtree ''/w/7'']))
             = [EvReport (task_id (demo_task [demo_pkg 1 ''a.rpm''])) payload]
         \<and> (\<forall>e. rt = Inl e \<longrightarrow>
               \<not> success payload \<and> error_message payload = Some (format_exc timeout_env e))
         \<and> ((\<exists>pkgs. rt = Inr pkgs) \<longrightarrow> success payload)
         \<and> ((None :: exn option) = None
             \<or> (\<exists>w1. fst (report_signed_build timeout_env
                            (task_id (demo_task [demo_pkg 1 ''a.rpm''])) payload w1) = None)
             \<or> (\<exists>w2. fst (rmtree timeout_env
                            (task_dir (demo_signer False) (demo_task [demo_pkg 1 ''a.rpm''])) w2)
                        = None)))"
proof -
  let ?task = "demo_task [demo_pkg 1 ''a.rpm'']"
  let ?ki = "\<lparr>key_password = ''pw'', key_fingerprint = ''fp'', key_subkeys = []\<rparr>"
  have nk: "\<not> truthy (get_pgp_keyid no_key_task)"
    by (simp add: truthy_def get_pgp_keyid_def no_key_task_def demo_task_def)
  have k: "get_pgp_keyid ?task = Some ''abcd1234''"
    by (simp add: get_pgp_keyid_def demo_task_def)
  have ki: "key_ids (demo_signer False) ''abcd1234'' = Some ?ki"
    by (simp add: demo_signer_def)
  have run: "run_task timeout_env (demo_signer False) ?task []
       = (None, [],
          [EvMkdir ''/w/7/rpms/1'',
           EvDownload ''http://x/a.rpm'' ''/w/7/rpms/1/a.rpm'' (Some (ExternalError ''timeout'')),
           EvDownload ''http://x/a.rpm'' ''/w/7/rpms/1/a.rpm'' (Some (ExternalError ''timeout'')),
           EvDownload ''http://x/a.rpm'' ''/w/7/rpms/1/a.rpm'' (Some (ExternalError ''timeout'')),
           EvReport 7 \<lparr>build_id = Some 1, success = False, error_message = Some ''Traceback'',
                       rp_packages = None, has_stats = False\<rparr>,
           EvRmtree ''/w/7''])"
    by (simp add: model_defs demo_defs timeout_env_def)
  note t1 = stage_errors_are_reported[where task=no_key_task and env=demo_env
      and sg="demo_signer False" and w="[]", THEN conjunct1, rule_format, OF nk]
  have "''abcd1234'' \<noteq> []" by simp
  note t2 = stage_errors_are_reported[where task="?task" and env=timeout_env
      and sg="demo_signer False" and w="[]" and k="''abcd1234''" and ki="?ki",
      THEN conjunct2, rule_format, OF conjI[OF k conjI[OF this conjI[OF ki run]]]]
  show ?thesis by (intro conjI nk t1 k ki run t2)
qed

section \<open>Removal of the staging directory\<close>

text \<open>When the reporter returns, the task directory is gone after the run (for a file system
  on which \<open>rmtree\<close> removes the directory).\<close>

lemma staging_dir_removed_when_report_returns:
  assumes "\<And>p w. \<not> path_exists env p (snd (rmtree env p w))"
    and "get_pgp_keyid task = Some k" "k \<noteq> []" "key_ids sg k = Some ki"
    and "run_task env sg task w = (r, st')"
    and "\<forall>payload w1. EvReport (task_id task) payload \<in> set (snd st') \<longrightarrow>
           fst (report_signed_build env (task_id task) payload w1) = None"
  shows "\<not> path_exists env (task_dir sg task) (fst st')"
proof -
  obtain rt st1 where t: "sign_build_try env sg task k ki (path_join (task_dir sg task) ''rpms'')
           (path_join (task_dir sg task) ''debs'') (w, []) = (rt, st1)"
    by (cases "sign_build_try env sg task k ki (path_join (task_dir sg task) ''rpms'')
           (path_join (task_dir sg task) ''debs'') (w, [])")
  let ?payload = "final_payload env task rt"
  from assms(2-5) t have f: "sign_build_finally env sg task ?payload st1 = (r, st')"
    by (simp add: run_task_def sign_build_def)
  obtain r1 w1 where a: "report_signed_build env (task_id task) ?payload (fst st1) = (r1, w1)"
    by (cases "report_signed_build env (task_id task) ?payload (fst st1)")
  from sign_build_finally_trace[OF f] have "EvReport (task_id task) ?payload \<in> set (snd st')"
    by auto
  with assms(6) a have r1: "r1 = None" by (metis fst_conv)
  show ?thesis
  proof (cases "path_exists env (task_dir sg task) w1")
    case False
    with f a r1 show ?thesis
      by (auto simp: sign_build_finally_def call_report_signed_build_def)
  next
    case True
    obtain r2 w2 where b: "rmtree env (task_dir sg task) w1 = (r2, w2)"
      by (cases "rmtree env (task_dir sg task) w1")
    with f a r1 True have "fst st' = w2"
      by (auto simp: sign_build_finally_def call_report_signed_build_def call_rmtree_def)
    with assms(1)[of "task_dir sg task" w1] b show ?thesis by simp
  qed
qed

text \<open>Claim C3 fails where the reporter raises: the \<open>finally\<close> clause calls the reporter
  first, its exception leaves \<open>_sign_build\<close>, and \<open>shutil.rmtree\<close> is never reached. Here the
  task succeeds, the report raises, and the task directory \<open>/w/7\<close> still exists afterwards.\<close>

theorem staging_dir_left_when_report_raises:
  "run_task report_fails_env (demo_signer False) (demo_task [demo_pkg 1 ''a.rpm'']) []
     = (Some (ExternalError ''503''), [''/w/7/rpms/1/a.rpm'', ''/w/7/rpms/1''],
        [EvMkdir ''/w/7/rpms/1'', EvDownload ''http://x/a.rpm'' ''/w/7/rpms/1/a.rpm'' None,
         EvSignRpm [''/w/7/rpms/1/a.rpm''], EvCheck ''/w/7/rpms/1/a.rpm'',
         EvUpload ''sha-a.rpm'' ''/w/7/rpms/1/a.rpm'' 1,
         EvReport 7
           \<lparr>build_id = Some 1, success = True, error_message = None,
              rp_packages = Some
                [\<lparr>sp_id = 1, sp_name = Some ''a.rpm'', sp_file_name = None, sp_type = None,
                   sp_package_type = None, sp_cas_hash = None, sp_fingerprint = ''fp'',
                   sp_sha256 = Some ''sha-a.rpm'', sp_href = Some ''href:/w/7/rpms/1/a.rpm''\<rparr>],
              has_stats = True\<rparr>])
   \<and> task_dir (demo_signer False) (demo_task [demo_pkg 1 ''a.rpm'']) = ''/w/7''
   \<and> path_exists report_fails_env ''/w/7'' [''/w/7/rpms/1/a.rpm'', ''/w/7/rpms/1'']"
  by (simp add: model_defs demo_defs report_fails_env_def)

section \<open>Download retries and the failure of the task\<close>

lemma collect_downloads_first_error:
  "\<forall>y \<in> set pre. \<exists>v. snd y = Inr v \<Longrightarrow>
   collect_downloads fp (pre @ (x, Inl e) # post) packages downloaded = Inl e"
proof (induction pre arbitrary: packages downloaded)
  case Nil
  then show ?case by simp
next
  case (Cons a pre)
  obtain y v where "a = (y, Inr v)" using Cons.prems by (cases a) auto
  moreover obtain pkg di where "v = (pkg, di)" by (cases v)
  ultimately show ?case using Cons by simp
qed

lemma first_error_split:
  assumes "(x, Inl e) \<in> set results"
  shows "\<exists>pre x' e' post. results = pre @ (x', Inl e') # post \<and> (\<forall>y \<in> set pre. \<exists>v. snd y = Inr v)"
proof -
  from assms have "\<exists>y \<in> set results. \<exists>e. snd y = Inl e" by force
  from split_list_first_prop[OF this] obtain pre y post where
    s: "results = pre @ y # post" "\<exists>e. snd y = Inl e" "\<forall>z \<in> set pre. \<not> (\<exists>e. snd z = Inl e)"
    by blast
  then obtain x' e' where "y = (x', Inl e')" by (cases y) auto
  moreover have "\<forall>z \<in> set pre. \<exists>v. snd z = Inr v"
  proof
    fix z assume "z \<in> set pre"
    with s(3) show "\<exists>v. snd z = Inr v" by (cases "snd z") auto
  qed
  ultimately show ?thesis using s(1) by blast
qed

lemma fetch_failure_fails_task:
  assumes "get_pgp_keyid task = Some k" "k \<noteq> []" "key_ids sg k = Some ki"
    and "run_pool (fetch_order env)
           (download_package env sg (path_join (task_dir sg task) ''rpms'')
              (path_join (task_dir sg task) ''debs''))
           (submitted (task_packages task)) (w, []) = (results, st1)"
    and "(x, Inl e) \<in> set results"
  shows "\<exists>pre x' e' post rr st3 dc.
           results = pre @ (x', Inl e') # post \<and> (\<forall>y \<in> set pre. \<exists>v. snd y = Inr v)
           \<and> run_task env sg task w = (rr, st3)
           \<and> snd st3 = snd st1 @ EvReport (task_id task)
                 \<lparr>build_id = task_build_id task, success = False,
                  error_message = Some (format_exc env e'), rp_packages = None,
                  has_stats = False\<rparr> # dc
           \<and> (dc = [] \<or> dc = [EvRmtree (task_dir sg task)])"
proof -
  from first_error_split[OF assms(5)] obtain pre x' e' post where
    s: "results = pre @ (x', Inl e') # post" "\<forall>y \<in> set pre. \<exists>v. snd y = Inr v" by blast
  have "collect_downloads (key_fingerprint ki) results [] [] = Inl e'"
    unfolding s(1) by (rule collect_downloads_first_error[OF s(2)])
  with assms(4) have "fetch_stage env sg (key_fingerprint ki) (path_join (task_dir sg task) ''rpms'')
      (path_join (task_dir sg task) ''debs'') task (w, []) = (Inl e', st1)"
    by (simp add: fetch_stage_def)
  then have "sign_build_try env sg task k ki (path_join (task_dir sg task) ''rpms'')
           (path_join (task_dir sg task) ''debs'') (w, []) = (Inl e', st1)"
    by (simp add: sign_build_try_def)
  from run_task_reports_failure[OF assms(1-3) this] s show ?thesis by blast
qed

lemma download_package_calls:
  assumes "download_package env sg rpms_dir debs_dir (pkg, platform) st = (r2, st2)"
  shows "\<exists>dir rb. BaseSigner_download_package env sg dir pkg platform 3 st = (rb, st2)
            \<and> r2 = (case rb of Inl e \<Rightarrow> Inl e
                     | Inr pkg_path \<Rightarrow> Inr (pkg, (pkg_id pkg, get_file_name pkg, pkg_path, platform)))"
proof -
  define dir where
    "dir = (if (case pkg_type pkg of
                               Some t \<Rightarrow> t
                             | None \<Rightarrow> (case pkg_package_type pkg of Some t \<Rightarrow> t | None \<Rightarrow> ''rpm'')) = ''deb''
                         \<or> (case pkg_type pkg of
                               Some t \<Rightarrow> t
                             | None \<Rightarrow> (case pkg_package_type pkg of Some t \<Rightarrow> t | None \<Rightarrow> ''rpm'')) = ''dsc''
                      then debs_dir else rpms_dir)"
  obtain rb s where b: "BaseSigner_download_package env sg dir pkg platform 3 st = (rb, s)"
    by (cases "BaseSigner_download_package env sg dir pkg platform 3 st")
  with assms have "s = st2 \<and> r2 = (case rb of Inl e \<Rightarrow> Inl e
                     | Inr pkg_path \<Rightarrow> Inr (pkg, (pkg_id pkg, get_file_name pkg, pkg_path, platform)))"
    by (auto simp: download_package_def Let_def dir_def[symmetric] split: sum.splits)
  with b show ?thesis by blast
qed

lemma one_timeout_env_sel:
  "safe_mkdir one_timeout_env = (\<lambda>p w. (None, p # w))"
  "download_file one_timeout_env = (\<lambda>url dest creds w. if url = ''http://x/b.rpm''
                                                     then (Some (ExternalError ''timeout''), w)
                                                     else (None, dest # w))"
  "format_exc one_timeout_env = (\<lambda>e. case e of ExternalError m \<Rightarrow> ''ExternalError: '' @ m
                                          | _ \<Rightarrow> ''Traceback'')"
  "fetch_order one_timeout_env = (\<lambda>n. 0)"
  "report_signed_build one_timeout_env = (\<lambda>tid payload w. (None, w))"
  "rmtree one_timeout_env = (\<lambda>p w. (None, filter (\<lambda>q. \<not> under p q) w))"
  "path_exists one_timeout_env = (\<lambda>p w. \<exists>q \<in> set w. under p q)"
  by (simp_all add: one_timeout_env_def demo_env_def)

lemma one_timeout_pool:
  "run_pool (fetch_order one_timeout_env)
     (download_package one_timeout_env (demo_signer False)
        (path_join (task_dir (demo_signer False)
           (demo_task [demo_pkg 1 ''a.rpm'', demo_pkg 2 ''b.rpm'', demo_pkg 3 ''c.rpm''])) ''rpms'')
        (path_join (task_dir (demo_signer False)
           (demo_task [demo_pkg 1 ''a.rpm'', demo_pkg 2 ''b.rpm'', demo_pkg 3 ''c.rpm''])) ''debs''))
     (submitted (task_packages
        (demo_task [demo_pkg 1 ''a.rpm'', demo_pkg 2 ''b.rpm'', demo_pkg 3 ''c.rpm''])))
     ([], [])
   = (one_timeout_results,
      ([''/w/7/rpms/3/c.rpm'', ''/w/7/rpms/3'', ''/w/7/rpms/2'', ''/w/7/rpms/1/a.rpm'', ''/w/7/rpms/1''],
       one_timeout_trace))"
  by (simp add: model_defs one_timeout_env_sel demo_signer_def demo_pkg_def demo_task_def
      one_timeout_results_def one_timeout_trace_def)

text \<open>Claim C8. \<open>_download_package\<close>, called with its default \<open>try_count=3\<close>, creates the package
  directory and then attempts the download of the package's URL at most three times
  (\<open>atts\<close> lists what each attempt raised, \<open>None\<close> for a success). When every attempt raises, there
  were exactly three and the call raises what the last attempt raised; when an attempt
  succeeds, it is the last one and the call returns the path of the downloaded file. The inner
  function \<open>download_package\<close> of the task run makes exactly this call and raises what it
  raises. When some download of the fetch pool has raised, the task run fails: the error of the
  first such download in the order of completion leaves the fetch stage, no later stage runs,
  and the payload reported right after the fetch events has \<open>success = False\<close> and the formatted
  error as its \<open>error_message\<close>.\<close>

theorem download_package_three_tries:
  "(BaseSigner_download_package env sg download_dir pkg platform 3 st = (r, st') \<longrightarrow>
      (\<exists>atts package_dir dest.
           snd st' = snd st @ EvMkdir package_dir # map (EvDownload (download_url pkg) dest) atts \<and>
           length atts \<le> 3 \<and>
           (atts \<noteq> [] \<and> None \<notin> set atts \<longrightarrow>
              length atts = 3 \<and> (\<exists>e. last atts = Some e \<and> r = Inl e)) \<and>
           (None \<in> set atts \<longrightarrow> r = Inr dest \<and> last atts = None \<and> None \<notin> set (butlast atts))))
   \<and> (download_package env sg rpms_dir debs_dir (pkg, platform) st = (r2, st2) \<longrightarrow>
        (\<exists>dir rb. BaseSigner_download_package env sg dir pkg platform 3 st = (rb, st2)
            \<and> r2 = (case rb of Inl e \<Rightarrow> Inl e
                     | Inr pkg_path \<Rightarrow>
                         Inr (pkg, (pkg_id pkg, get_file_name pkg, pkg_path, platform)))))
   \<and> (get_pgp_keyid task = Some k \<and> k \<noteq> [] \<and> key_ids sg k = Some ki
        \<and> run_pool (fetch_order env)
             (download_package env sg (path_join (task_dir sg task) ''rpms'')
                (path_join (task_dir sg task) ''debs''))
             (submitted (task_packages task)) (w, []) = (results, st1)
        \<and> (x, Inl e) \<in> set results \<longrightarrow>
        (\<exists>pre x' e' post rr st3 dc.
           results = pre @ (x', Inl e') # post \<and> (\<forall>y \<in> set pre. \<exists>v. snd y = Inr v)
           \<and> run_task env sg task w = (rr, st3)
           \<and> snd st3 = snd st1 @ EvReport (task_id task)
                 \<lparr>build_id = task_build_id task, success = False,
                  error_message = Some (format_exc env e'), rp_packages = None,
                  has_stats = False\<rparr> # dc
           \<and> (dc = [] \<or> dc = [EvRmtree (task_dir sg task)])))"
proof (intro conjI impI)
  assume run: "BaseSigner_download_package env sg download_dir pkg platform 3 st = (r, st')"
  define package_dir where
    "package_dir = path_join (path_join download_dir (case platform of None \<Rightarrow> [] | Some p \<Rightarrow> p))
                     (str_nat (pkg_id pkg))"
  obtain o1 w1 where m: "safe_mkdir env package_dir (fst st) = (o1, w1)"
    by (cases "safe_mkdir env package_dir (fst st)")
  let ?st1 = "(w1, snd st @ [EvMkdir package_dir])"
  have c: "call_safe_mkdir env package_dir st = (o1, ?st1)"
    by (simp add: call_safe_mkdir_def m)
  show "\<exists>atts package_dir dest.
           snd st' = snd st @ EvMkdir package_dir # map (EvDownload (download_url pkg) dest) atts \<and>
           length atts \<le> 3 \<and>
           (atts \<noteq> [] \<and> None \<notin> set atts \<longrightarrow>
              length atts = 3 \<and> (\<exists>e. last atts = Some e \<and> r = Inl e)) \<and>
           (None \<in> set atts \<longrightarrow> r = Inr dest \<and> last atts = None \<and> None \<notin> set (butlast atts))"
  proof (cases "o1 = None \<and> get_file_name pkg \<noteq> None")
    case False
    with run c have "snd st' = snd st @ [EvMkdir package_dir]"
      by (auto simp: BaseSigner_download_package_def Let_def package_dir_def[symmetric]
               split: option.splits)
    then show ?thesis
      by (intro exI[of _ "[]"] exI[of _ package_dir]) simp
  next
    case True
    then obtain package_name where n: "get_file_name pkg = Some package_name" and o: "o1 = None"
      by auto
    let ?dest = "path_join package_dir package_name"
    from run c n o
    have "download_tries env sg (download_url pkg) ?dest 3 None ?st1 = (r, st')"
      by (simp add: BaseSigner_download_package_def Let_def package_dir_def[symmetric])
    from download_tries_trace[OF this] obtain atts where a:
      "snd st' = snd ?st1 @ map (EvDownload (download_url pkg) ?dest) atts" "length atts \<le> 3"
      "None \<notin> set (butlast atts)"
      "None \<in> set atts \<longrightarrow> r = Inr ?dest \<and> last atts = None"
      "None \<notin> set atts \<longrightarrow> length atts = 3 \<and>
        r = Inl (case (if atts = [] then None else last atts) of
                   None \<Rightarrow> TypeError ''exceptions must derive from BaseException''
                 | Some e \<Rightarrow> e)"
      by blast
    have "atts \<noteq> [] \<and> None \<notin> set atts \<longrightarrow> (\<exists>e. last atts = Some e \<and> r = Inl e)"
    proof
      assume h: "atts \<noteq> [] \<and> None \<notin> set atts"
      then have "last atts \<in> set atts" by simp
      with h obtain e where "last atts = Some e" by (cases "last atts") auto
      with a(5) h show "\<exists>e. last atts = Some e \<and> r = Inl e" by simp
    qed
    with a show ?thesis
      by (intro exI[of _ atts] exI[of _ package_dir] exI[of _ ?dest]) auto
  qed
next
  assume "download_package env sg rpms_dir debs_dir (pkg, platform) st = (r2, st2)"
  then show "\<exists>dir rb. BaseSigner_download_package env sg dir pkg platform 3 st = (rb, st2)
            \<and> r2 = (case rb of Inl e \<Rightarrow> Inl e
                     | Inr pkg_path \<Rightarrow>
                         Inr (pkg, (pkg_id pkg, get_file_name pkg, pkg_path, platform)))"
    by (rule download_package_calls)
next
  assume h: "get_pgp_keyid task = Some k \<and> k \<noteq> [] \<and> key_ids sg k = Some ki
        \<and> run_pool (fetch_order env)
             (download_package env sg (path_join (task_dir sg task) ''rpms'')
                (path_join (task_dir sg task) ''debs''))
             (submitted (task_packages task)) (w, []) = (results, st1)
        \<and> (x, Inl e) \<in> set results"
  then have "get_pgp_keyid task = Some k" "k \<noteq> []" "key_ids sg k = Some ki"
    "run_pool (fetch_order env)
             (download_package env sg (path_join (task_dir sg task) ''rpms'')
                (path_join (task_dir sg task) ''debs''))
             (submitted (task_packages task)) (w, []) = (results, st1)"
    "(x, Inl e) \<in> set results"
    by simp_all
  then show "\<exists>pre x' e' post rr st3 dc.
           results = pre @ (x', Inl e') # post \<and> (\<forall>y \<in> set pre. \<exists>v. snd y = Inr v)
           \<and> run_task env sg task w = (rr, st3)
           \<and> snd st3 = snd st1 @ EvReport (task_id task)
                 \<lparr>build_id = task_build_id task, success = False,
                  error_message = Some (format_exc env e'), rp_packages = None,
                  has_stats = False\<rparr> # dc
           \<and> (dc = [] \<or> dc = [EvRmtree (task_dir sg task)])"
    by (rule fetch_failure_fails_task)
qed

theorem download_package_three_tries_witness:
  "BaseSigner_download_package timeout_env (demo_signer False) ''/w/7/rpms''
       (demo_pkg 1 ''a.rpm'') None 3 ([], [])
     = (Inl (ExternalError ''timeout''), [''/w/7/rpms/1''],
        [EvMkdir ''/w/7/rpms/1'',
         EvDownload ''http://x/a.rpm'' ''/w/7/rpms/1/a.rpm'' (Some (ExternalError ''timeout'')),
         EvDownload ''http://x/a.rpm'' ''/w/7/rpms/1/a.rpm'' (Some (ExternalError ''timeout'')),
         EvDownload ''http://x/a.rpm'' ''/w/7/rpms/1/a.rpm'' (Some (ExternalError ''timeout''))])
   \<and> (\<exists>atts package_dir dest.
         [EvMkdir ''/w/7/rpms/1'',
          EvDownload ''http://x/a.rpm'' ''/w/7/rpms/1/a.rpm'' (Some (ExternalError ''timeout'')),
          EvDownload ''http://x/a.rpm'' ''/w/7/rpms/1/a.rpm'' (Some (ExternalError ''timeout'')),
          EvDownload ''http://x/a.rpm'' ''/w/7/rpms/1/a.rpm'' (Some (ExternalError ''timeout''))]
           = EvMkdir package_dir # map (EvDownload ''http://x/a.rpm'' dest) atts \<and>
         length atts \<le> 3 \<and>
         (atts \<noteq> [] \<and> None \<notin> set atts \<longrightarrow>
            length atts = 3 \<and>
            (\<exists>e. last atts = Some e \<and> (Inl (ExternalError ''timeout'') :: exn + path) = Inl e)) \<and>
         (None \<in> set atts \<longrightarrow>
            (Inl (ExternalError ''timeout'') :: exn + path) = Inr dest \<and> last atts = None
            \<and> None \<notin> set (butlast atts)))
   \<and> (\<exists>dir rb. BaseSigner_download_package timeout_env (demo_signer False) dir
                   (demo_pkg 1 ''a.rpm'') None 3 ([], [])
                 = (rb, [''/w/7/rpms/1''],
                    [EvMkdir ''/w/7/rpms/1'',
                     EvDownload ''http://x/a.rpm'' ''/w/7/rpms/1/a.rpm'' (Some (ExternalError ''timeout'')),
                     EvDownload ''http://x/a.rpm'' ''/w/7/rpms/1/a.rpm'' (Some (ExternalError ''timeout'')),
                     EvDownload ''http://x/a.rpm'' ''/w/7/rpms/1/a.rpm'' (Some (ExternalError ''timeout''))])
          \<and> (\<exists>e. rb = Inl e))
   \<and> (\<exists>rr st3 dc.
         run_task one_timeout_env (demo_signer False)
           (demo_task [demo_pkg 1 ''a.rpm'', demo_pkg 2 ''b.rpm'', demo_pkg 3 ''c.rpm'']) []
           = (rr, st3)
         \<and> snd st3 = one_timeout_trace @ EvReport 7
                 \<lparr>build_id = Some 1, success = False,
                  error_message = Some ''ExternalError: timeout'', rp_packages = None,
                  has_stats = False\<rparr> # dc
         \<and> (dc = [] \<or> dc = [EvRmtree ''/w/7'']))"
proof -
  let ?task = "demo_task [demo_pkg 1 ''a.rpm'', demo_pkg 2 ''b.rpm'', demo_pkg 3 ''c.rpm'']"
  let ?tr = "[EvMkdir ''/w/7/rpms/1'',
         EvDownload ''http://x/a.rpm'' ''/w/7/rpms/1/a.rpm'' (Some (ExternalError ''timeout'')),
         EvDownload ''http://x/a.rpm'' ''/w/7/rpms/1/a.rpm'' (Some (ExternalError ''timeout'')),
         EvDownload ''http://x/a.rpm'' ''/w/7/rpms/1/a.rpm'' (Some (ExternalError ''timeout''))]"
  have run: "BaseSigner_download_package timeout_env (demo_signer False) ''/w/7/rpms''
       (demo_pkg 1 ''a.rpm'') None 3 ([], [])
     = (Inl (ExternalError ''timeout''), [''/w/7/rpms/1''], ?tr)"
    by (simp add: BaseSigner_download_package_def timeout_env_def demo_env_def demo_signer_def
        demo_pkg_def call_safe_mkdir_def call_download_file_def get_file_name_def path_join_def
        str_nat.simps digit_char_def numeral_3_eq_3 Let_def)
  have run2: "download_package timeout_env (demo_signer False) ''/w/7/rpms'' ''/w/7/debs''
       (demo_pkg 1 ''a.rpm'', None) ([], [])
     = (Inl (ExternalError ''timeout''), [''/w/7/rpms/1''], ?tr)"
    by (simp add: download_package_def BaseSigner_download_package_def timeout_env_def
        demo_env_def demo_signer_def demo_pkg_def call_safe_mkdir_def call_download_file_def
        get_file_name_def path_join_def str_nat.simps digit_char_def numeral_3_eq_3 Let_def)
  note t1 = download_package_three_tries[where env=timeout_env and sg="demo_signer False"
      and download_dir="''/w/7/rpms''" and pkg="demo_pkg 1 ''a.rpm''" and platform=None
      and st="([], [])" and r="Inl (ExternalError ''timeout'')" and st'="([''/w/7/rpms/1''], ?tr)"
      and rpms_dir="''/w/7/rpms''" and debs_dir="''/w/7/debs''"
      and ?r2.0="Inl (ExternalError ''timeout'')" and ?st2.0="([''/w/7/rpms/1''], ?tr)"]
  from t1 run have 1:
    "\<exists>atts package_dir dest.
         ?tr = EvMkdir package_dir # map (EvDownload ''http://x/a.rpm'' dest) atts \<and>
         length atts \<le> 3 \<and>
         (atts \<noteq> [] \<and> None \<notin> set atts \<longrightarrow>
            length atts = 3 \<and>
            (\<exists>e. last atts = Some e \<and> (Inl (ExternalError ''timeout'') :: exn + path) = Inl e)) \<and>
         (None \<in> set atts \<longrightarrow>
            (Inl (ExternalError ''timeout'') :: exn + path) = Inr dest \<and> last atts = None
            \<and> None \<notin> set (butlast atts))"
    by (simp add: demo_pkg_def)
  from t1 run2 obtain dir rb where rb:
    "BaseSigner_download_package timeout_env (demo_signer False) dir
                   (demo_pkg 1 ''a.rpm'') None 3 ([], []) = (rb, [''/w/7/rpms/1''], ?tr)"
    "(Inl (ExternalError ''timeout'') :: exn + package \<times> info) = (case rb of Inl e \<Rightarrow> Inl e
         | Inr pkg_path \<Rightarrow> Inr (demo_pkg 1 ''a.rpm'', (pkg_id (demo_pkg 1 ''a.rpm''),
               get_file_name (demo_pkg 1 ''a.rpm''), pkg_path, None)))"
    by blast
  from rb(2) have "\<exists>e. rb = Inl e" by (cases rb) simp_all
  with rb(1) have 2: "\<exists>dir rb. BaseSigner_download_package timeout_env (demo_signer False) dir
                   (demo_pkg 1 ''a.rpm'') None 3 ([], []) = (rb, [''/w/7/rpms/1''], ?tr)
          \<and> (\<exists>e. rb = Inl e)"
    by blast
  have k: "get_pgp_keyid ?task = Some ''abcd1234'' \<and> ''abcd1234'' \<noteq> []
      \<and> key_ids (demo_signer False) ''abcd1234''
          = Some \<lparr>key_password = ''pw'', key_fingerprint = ''fp'', key_subkeys = []\<rparr>"
    by (simp add: get_pgp_keyid_def demo_task_def demo_signer_def)
  have m: "((demo_pkg 2 ''b.rpm'', None), Inl (ExternalError ''timeout'')) \<in> set one_timeout_results"
    by (simp add: one_timeout_results_def)
  note t3 = download_package_three_tries[where env=one_timeout_env and sg="demo_signer False"
      and task="?task" and k="''abcd1234''"
      and ki="\<lparr>key_password = ''pw'', key_fingerprint = ''fp'', key_subkeys = []\<rparr>"
      and w="[]" and results=one_timeout_results
      and ?st1.0="([''/w/7/rpms/3/c.rpm'', ''/w/7/rpms/3'', ''/w/7/rpms/2'', ''/w/7/rpms/1/a.rpm'',
                    ''/w/7/rpms/1''], one_timeout_trace)"
      and x="(demo_pkg 2 ''b.rpm'', None)" and e="ExternalError ''timeout''"]
  have hyp: "get_pgp_keyid ?task = Some ''abcd1234'' \<and> ''abcd1234'' \<noteq> []
      \<and> key_ids (demo_signer False) ''abcd1234''
          = Some \<lparr>key_password = ''pw'', key_fingerprint = ''fp'', key_subkeys = []\<rparr>
      \<and> run_pool (fetch_order one_timeout_env)
          (download_package one_timeout_env (demo_signer False)
             (path_join (task_dir (demo_signer False) ?task) ''rpms'')
             (path_join (task_dir (demo_signer False) ?task) ''debs''))
          (submitted (task_packages ?task)) ([], [])
        = (one_timeout_results,
           ([''/w/7/rpms/3/c.rpm'', ''/w/7/rpms/3'', ''/w/7/rpms/2'', ''/w/7/rpms/1/a.rpm'',
             ''/w/7/rpms/1''], one_timeout_trace))
      \<and> ((demo_pkg 2 ''b.rpm'', None), Inl (ExternalError ''timeout'')) \<in> set one_timeout_results"
    using k one_timeout_pool m by blast
  from t3[THEN conjunct2, THEN conjunct2, THEN mp, OF hyp]
  obtain pre x' e' post rr st3 dc where r3:
    "one_timeout_results = pre @ (x', Inl e') # post"
    "run_task one_timeout_env (demo_signer False) ?task [] = (rr, st3)"
    "snd st3 = snd ([''/w/7/rpms/3/c.rpm'', ''/w/7/rpms/3'', ''/w/7/rpms/2'', ''/w/7/rpms/1/a.rpm'',
             ''/w/7/rpms/1''], one_timeout_trace) @ EvReport (task_id ?task)
                 \<lparr>build_id = task_build_id ?task, success = False,
                  error_message = Some (format_exc one_timeout_env e'), rp_packages = None,
                  has_stats = False\<rparr> # dc"
    "dc = [] \<or> dc = [EvRmtree (task_dir (demo_signer False) ?task)]"
    by blast
  have "(x', Inl e') \<in> set one_timeout_results" unfolding r3(1) by simp
  then have e': "e' = ExternalError ''timeout''" by (auto simp: one_timeout_results_def)
  have c: "task_id ?task = 7" "task_build_id ?task = Some 1"
    "task_dir (demo_signer False) ?task = ''/w/7''"
    "format_exc one_timeout_env (ExternalError ''timeout'') = ''ExternalError: timeout''"
    by (simp_all add: demo_task_def task_dir_def demo_signer_def path_join_def str_nat.simps
        digit_char_def one_timeout_env_sel)
  from r3(2,3,4) have 3: "\<exists>rr st3 dc.
         run_task one_timeout_env (demo_signer False) ?task [] = (rr, st3)
         \<and> snd st3 = one_timeout_trace @ EvReport 7
                 \<lparr>build_id = Some 1, success = False,
                  error_message = Some ''ExternalError: timeout'', rp_packages = None,
                  has_stats = False\<rparr> # dc
         \<and> (dc = [] \<or> dc = [EvRmtree ''/w/7''])"
    unfolding e' c snd_conv by blast
  from run 1 2 3 show ?thesis by blast
qed

section \<open>Classification of the audited files\<close>

lemma collect_errors_first_raise:
  "\<forall>y \<in> set pre. \<exists>c. snd y = Inr c \<Longrightarrow>
   collect_errors (pre @ (p, Inl e) # post) errors = Inl e"
proof (induction pre arbitrary: errors)
  case Nil
  then show ?case by simp
next
  case (Cons a pre)
  obtain q c where "a = (q, Inr c)" using Cons.prems by (cases a) auto
  moreover obtain result signature where "c = (result, signature)" by (cases c)
  ultimately show ?case using Cons by simp
qed

lemma check_signature_raises:
  assumes "key_ids sg key_id = Some ki" and "f \<in> set files"
    and "check env (lower key_id) (map lower (key_subkeys ki)) f (fst st) = Inl e"
  shows "\<exists>pre f' e' post.
           schedule (audit_order env) files = pre @ f' # post
           \<and> (\<forall>g \<in> set pre. \<exists>c. check env (lower key_id) (map lower (key_subkeys ki)) g (fst st) = Inr c)
           \<and> check env (lower key_id) (map lower (key_subkeys ki)) f' (fst st) = Inl e'
           \<and> check_signature env sg files key_id st
               = (Inl e', (fst st, snd st @ map EvCheck (schedule (audit_order env) files)))"
proof -
  let ?chk = "\<lambda>g. check env (lower key_id) (map lower (key_subkeys ki)) g (fst st)"
  let ?fs = "schedule (audit_order env) files"
  from assms(2,3) have "\<exists>g \<in> set ?fs. \<exists>e. ?chk g = Inl e" by (auto simp: set_schedule)
  from split_list_first_prop[OF this] obtain pre f' post where
    s: "?fs = pre @ f' # post" "\<exists>e. ?chk f' = Inl e" "\<forall>g \<in> set pre. \<not> (\<exists>e. ?chk g = Inl e)"
    by blast
  then obtain e' where e': "?chk f' = Inl e'" by blast
  have pre: "\<forall>g \<in> set pre. \<exists>c. ?chk g = Inr c"
  proof
    fix g assume "g \<in> set pre"
    with s(3) show "\<exists>c. ?chk g = Inr c" by (cases "?chk g") auto
  qed
  have m: "map (\<lambda>p. (p, ?chk p)) ?fs
          = map (\<lambda>p. (p, ?chk p)) pre @ (f', Inl e') # map (\<lambda>p. (p, ?chk p)) post"
    unfolding s(1) by (simp add: e')
  have "\<forall>y \<in> set (map (\<lambda>p. (p, ?chk p)) pre). \<exists>c. snd y = Inr c"
    using pre by auto
  then have "collect_errors (map (\<lambda>p. (p, ?chk p)) pre @ (f', Inl e')
                 # map (\<lambda>p. (p, ?chk p)) post) [] = Inl e'"
    by (rule collect_errors_first_raise)
  then have "collect_errors (map (\<lambda>p. (p, ?chk p)) ?fs) [] = Inl e'"
    unfolding m .
  with assms(1) have "check_signature env sg files key_id st
               = (Inl e', (fst st, snd st @ map EvCheck ?fs))"
    by (simp add: check_signature_def run_pool_def run_all_call_check)
  with s(1) pre e' show ?thesis by blast
qed

lemma audit_failure_fails_task:
  assumes "get_pgp_keyid task = Some k" "k \<noteq> []" "key_ids sg k = Some ki"
    and "fetch_stage env sg (key_fingerprint ki) (path_join (task_dir sg task) ''rpms'')
           (path_join (task_dir sg task) ''debs'') task (w, []) = (Inr (packages, downloaded, pim), s1)"
    and "verify_loop env sg pim [] s1 = (Inr vm, s2)"
    and "sign_stage env sg k (key_password ki) (sign_files task)
           (path_join (task_dir sg task) ''rpms'') (path_join (task_dir sg task) ''debs'') s2
           = (None, s3)"
    and "plan_uploads env sg vm downloaded packages s3 = (Inr pl, s4)"
    and "f \<in> set (files_to_check pl)"
    and "check env (lower k) (map lower (key_subkeys ki)) f (fst s4) = Inl e"
  shows "\<exists>f' e' r st' dc.
           f' \<in> set (files_to_check pl)
           \<and> check env (lower k) (map lower (key_subkeys ki)) f' (fst s4) = Inl e'
           \<and> run_task env sg task w = (r, st')
           \<and> snd st' = snd s4 @ map EvCheck (schedule (audit_order env) (files_to_check pl))
                 @ EvReport (task_id task)
                     \<lparr>build_id = task_build_id task, success = False,
                      error_message = Some (format_exc env e'), rp_packages = None,
                      has_stats = False\<rparr> # dc
           \<and> (dc = [] \<or> dc = [EvRmtree (task_dir sg task)])"
proof -
  let ?fs = "schedule (audit_order env) (files_to_check pl)"
  from check_signature_raises[OF assms(3,8,9)] obtain pre f' e' post where
    c: "?fs = pre @ f' # post"
       "check env (lower k) (map lower (key_subkeys ki)) f' (fst s4) = Inl e'"
       "check_signature env sg (files_to_check pl) k s4
               = (Inl e', (fst s4, snd s4 @ map EvCheck ?fs))"
    by blast
  from c(1) have "f' \<in> set ?fs" by simp
  then have mem: "f' \<in> set (files_to_check pl)" by (simp add: set_schedule)
  have "audit_stage env sg (files_to_check pl) k s4 = (Some e', (fst s4, snd s4 @ map EvCheck ?fs))"
    by (simp add: audit_stage_def c(3))
  with assms(4-7) have "sign_build_try env sg task k ki (path_join (task_dir sg task) ''rpms'')
           (path_join (task_dir sg task) ''debs'') (w, [])
         = (Inl e', (fst s4, snd s4 @ map EvCheck ?fs))"
    by (simp add: sign_build_try_def)
  from run_task_reports_failure[OF assms(1-3) this] obtain r st' dc where
    "run_task env sg task w = (r, st')"
    "snd st' = snd (fst s4, snd s4 @ map EvCheck ?fs) @ EvReport (task_id task)
                     \<lparr>build_id = task_build_id task, success = False,
                      error_message = Some (format_exc env e'), rp_packages = None,
                      has_stats = False\<rparr> # dc"
    "dc = [] \<or> dc = [EvRmtree (task_dir sg task)]"
    by blast
  with mem c(2) show ?thesis
    by (intro exI[of _ f'] exI[of _ e'] exI[of _ r] exI[of _ st'] exI[of _ dc]) simp
qed

lemma bad_signature_env_sel:
  "safe_mkdir bad_signature_env = (\<lambda>p w. (None, p # w))"
  "download_file bad_signature_env = (\<lambda>url dest creds w. (None, dest # w))"
  "glob bad_signature_env = (\<lambda>pat w. filter (\<lambda>q. take (length pat - 8) q = take (length pat - 8) pat
                                   \<and> drop (length q - 4) q = drop (length pat - 4) pat) (rev w))"
  "sign_rpm_package bad_signature_env = (\<lambda>ps k pw sf cert w. (None, w))"
  "hash_file bad_signature_env = (\<lambda>p w. Inr (''sha-'' @ rev (takeWhile (\<lambda>c. c \<noteq> CHR ''/'') (rev p))))"
  "path_exists bad_signature_env = (\<lambda>p w. \<exists>q \<in> set w. under p q)"
  "read_header bad_signature_env = (\<lambda>p w. Inr \<lparr>RPMTAG_SIGGPG = Some ''sig'', RPMTAG_SIGPGP = None\<rparr>)"
  "pgp_signers bad_signature_env = (\<lambda>blob. Inl (ExternalError ''not a PGP message''))"
  "format_exc bad_signature_env = (\<lambda>e. case e of ExternalError m \<Rightarrow> ''ExternalError: '' @ m
                                          | _ \<Rightarrow> ''Traceback'')"
  "fetch_order bad_signature_env = (\<lambda>n. 0)"
  "audit_order bad_signature_env = (\<lambda>n. 0)"
  by (simp_all add: bad_signature_env_def demo_env_def)

lemma bad_signature_stages:
  "fetch_stage bad_signature_env (demo_signer False) ''fp''
       (path_join (task_dir (demo_signer False) (demo_task [demo_pkg 1 ''a.rpm''])) ''rpms'')
       (path_join (task_dir (demo_signer False) (demo_task [demo_pkg 1 ''a.rpm''])) ''debs'')
       (demo_task [demo_pkg 1 ''a.rpm'']) ([], [])
     = (Inr (one_rpm_packages None, [(1, Some ''a.rpm'', ''/w/7/rpms/1/a.rpm'', None)],
             [(''/w/7/rpms/1/a.rpm'', demo_pkg 1 ''a.rpm'')]), one_rpm_fetched)"
  "verify_loop bad_signature_env (demo_signer False)
       [(''/w/7/rpms/1/a.rpm'', demo_pkg 1 ''a.rpm'')] [] one_rpm_fetched = (Inr [], one_rpm_fetched)"
  "sign_stage bad_signature_env (demo_signer False) ''abcd1234'' ''pw''
       (sign_files (demo_task [demo_pkg 1 ''a.rpm'']))
       (path_join (task_dir (demo_signer False) (demo_task [demo_pkg 1 ''a.rpm''])) ''rpms'')
       (path_join (task_dir (demo_signer False) (demo_task [demo_pkg 1 ''a.rpm''])) ''debs'')
       one_rpm_fetched = (None, one_rpm_signed)"
  "plan_uploads bad_signature_env (demo_signer False) []
       [(1, Some ''a.rpm'', ''/w/7/rpms/1/a.rpm'', None)] (one_rpm_packages None) one_rpm_signed
     = (Inr one_rpm_plan, one_rpm_signed)"
  by (simp_all add: model_defs bad_signature_env_sel demo_signer_def demo_pkg_def demo_task_def
      one_rpm_packages_def one_rpm_fetched_def one_rpm_signed_def one_rpm_plan_def)

text \<open>Claim C5, as amended. The check of one path \<open>p\<close> for the task's key \<open>key_id\<close>: a path that
  does not exist is a read error; a file whose header was read and carries no signature is not
  signed; when the signers of the embedded signature were parsed, the check succeeds if one of
  them equals the key id or one of the key's subkey ids, compared in lower case, and otherwise
  reports a wrong signature with the last signer seen (in lower case, empty when there is no
  signer). When the audit of \<open>files\<close> returns, no check has raised and the error messages are
  those of the classifications, in the order of completion. A file that exists is not
  classified when its header cannot be read or its signature cannot be parsed: the check raises
  the library's error. The audit then raises the error of the first such check in the order
  of completion, and the task fails: when this happens in a task run, the payload reported
  right after the checks has \<open>success = False\<close> and the formatted error as its
  \<open>error_message\<close>.\<close>

theorem check_signature_classification:
  assumes "key_ids sg key_id = Some ki"
  shows
    "(\<not> path_exists env p w \<longrightarrow>
        check env (lower key_id) (map lower (key_subkeys ki)) p w = Inr (READ_ERROR, []))
     \<and> (path_exists env p w \<and> read_header env p w = Inr header
          \<and> \<not> truthy (RPMTAG_SIGGPG header) \<and> \<not> truthy (RPMTAG_SIGPGP header) \<longrightarrow>
        check env (lower key_id) (map lower (key_subkeys ki)) p w = Inr (NO_SIGNATURE, []))
     \<and> (path_exists env p w \<and> read_header env p w = Inr header
          \<and> (if truthy (RPMTAG_SIGGPG header) then RPMTAG_SIGGPG header else RPMTAG_SIGPGP header)
              = Some blob
          \<and> blob \<noteq> [] \<and> pgp_signers env blob = Inr signers \<longrightarrow>
        check env (lower key_id) (map lower (key_subkeys ki)) p w =
          Inr (if \<exists>s \<in> set signers.
                    lower s = lower key_id \<or> (\<exists>sub \<in> set (key_subkeys ki). lower s = lower sub)
               then (SUCCESS, [])
               else (WRONG_SIGNATURE, if signers = [] then [] else lower (last signers))))
     \<and> (check_signature env sg files key_id st = (Inr errors, st') \<longrightarrow>
        (\<forall>f \<in> set files. \<exists>c. check env (lower key_id) (map lower (key_subkeys ki)) f (fst st) = Inr c)
        \<and> errors =
            concat (map (\<lambda>f. case check env (lower key_id) (map lower (key_subkeys ki)) f (fst st) of
                               Inr c \<Rightarrow> audit_error f c
                             | Inl e \<Rightarrow> [])
                      (schedule (audit_order env) files)))
     \<and> (path_exists env p w \<and> read_header env p w = Inl e \<longrightarrow>
        check env (lower key_id) (map lower (key_subkeys ki)) p w = Inl e)
     \<and> (path_exists env p w \<and> read_header env p w = Inr header
          \<and> (if truthy (RPMTAG_SIGGPG header) then RPMTAG_SIGGPG header else RPMTAG_SIGPGP header)
              = Some blob
          \<and> blob \<noteq> [] \<and> pgp_signers env blob = Inl e \<longrightarrow>
        check env (lower key_id) (map lower (key_subkeys ki)) p w = Inl e)
     \<and> (f \<in> set files
          \<and> check env (lower key_id) (map lower (key_subkeys ki)) f (fst st) = Inl e \<longrightarrow>
        (\<exists>pre f' e' post.
           schedule (audit_order env) files = pre @ f' # post
           \<and> (\<forall>g \<in> set pre.
                 \<exists>c. check env (lower key_id) (map lower (key_subkeys ki)) g (fst st) = Inr c)
           \<and> check env (lower key_id) (map lower (key_subkeys ki)) f' (fst st) = Inl e'
           \<and> check_signature env sg files key_id st
               = (Inl e', (fst st, snd st @ map EvCheck (schedule (audit_order env) files)))))
     \<and> (get_pgp_keyid task = Some key_id \<and> key_id \<noteq> []
          \<and> fetch_stage env sg (key_fingerprint ki) (path_join (task_dir sg task) ''rpms'')
                (path_join (task_dir sg task) ''debs'') task (w0, [])
              = (Inr (packages, downloaded, pim), s1)
          \<and> verify_loop env sg pim [] s1 = (Inr vm, s2)
          \<and> sign_stage env sg key_id (key_password ki) (sign_files task)
                (path_join (task_dir sg task) ''rpms'') (path_join (task_dir sg task) ''debs'') s2
              = (None, s3)
          \<and> plan_uploads env sg vm downloaded packages s3 = (Inr pl, s4)
          \<and> f \<in> set (files_to_check pl)
          \<and> check env (lower key_id) (map lower (key_subkeys ki)) f (fst s4) = Inl e \<longrightarrow>
        (\<exists>f' e' r st' dc.
           f' \<in> set (files_to_check pl)
           \<and> check env (lower key_id) (map lower (key_subkeys ki)) f' (fst s4) = Inl e'
           \<and> run_task env sg task w0 = (r, st')
           \<and> snd st' = snd s4 @ map EvCheck (schedule (audit_order env) (files_to_check pl))
                 @ EvReport (task_id task)
                     \<lparr>build_id = task_build_id task, success = False,
                      error_message = Some (format_exc env e'), rp_packages = None,
                      has_stats = False\<rparr> # dc
           \<and> (dc = [] \<or> dc = [EvRmtree (task_dir sg task)])))"
proof (intro conjI impI)
  assume "\<not> path_exists env p w"
  then show "check env (lower key_id) (map lower (key_subkeys ki)) p w = Inr (READ_ERROR, [])"
    by (simp add: check_def)
next
  assume "path_exists env p w \<and> read_header env p w = Inr header
          \<and> \<not> truthy (RPMTAG_SIGGPG header) \<and> \<not> truthy (RPMTAG_SIGPGP header)"
  then show "check env (lower key_id) (map lower (key_subkeys ki)) p w = Inr (NO_SIGNATURE, [])"
    by (auto simp: check_def truthy_def split: option.splits)
next
  assume h: "path_exists env p w \<and> read_header env p w = Inr header
          \<and> (if truthy (RPMTAG_SIGGPG header) then RPMTAG_SIGGPG header else RPMTAG_SIGPGP header)
              = Some blob
          \<and> blob \<noteq> [] \<and> pgp_signers env blob = Inr signers"
  have "(\<exists>s \<in> set signers. lower s = lower key_id \<or> lower s \<in> set (map lower (key_subkeys ki)))
        = (\<exists>s \<in> set signers.
             lower s = lower key_id \<or> (\<exists>sub \<in> set (key_subkeys ki). lower s = lower sub))"
    by auto
  with h show "check env (lower key_id) (map lower (key_subkeys ki)) p w =
          Inr (if \<exists>s \<in> set signers.
                    lower s = lower key_id \<or> (\<exists>sub \<in> set (key_subkeys ki). lower s = lower sub)
               then (SUCCESS, [])
               else (WRONG_SIGNATURE, if signers = [] then [] else lower (last signers)))"
    by (simp add: check_def Let_def check_signers_spec del: set_map)
next
  assume "check_signature env sg files key_id st = (Inr errors, st')"
  with assms have
    "collect_errors (map (\<lambda>f. (f, check env (lower key_id) (map lower (key_subkeys ki)) f (fst st)))
        (schedule (audit_order env) files)) [] = Inr errors"
    by (simp add: check_signature_def run_pool_def run_all_call_check)
  from collect_errors_Inr[OF this]
  have a: "\<forall>f \<in> set (schedule (audit_order env) files).
             \<exists>c. check env (lower key_id) (map lower (key_subkeys ki)) f (fst st) = Inr c"
    and b: "errors =
            concat (map (\<lambda>f. case check env (lower key_id) (map lower (key_subkeys ki)) f (fst st) of
                               Inr c \<Rightarrow> audit_error f c
                             | Inl e \<Rightarrow> [])
                      (schedule (audit_order env) files))"
    by (auto simp: comp_def)
  show "\<forall>f \<in> set files. \<exists>c. check env (lower key_id) (map lower (key_subkeys ki)) f (fst st) = Inr c"
    and "errors =
            concat (map (\<lambda>f. case check env (lower key_id) (map lower (key_subkeys ki)) f (fst st) of
                               Inr c \<Rightarrow> audit_error f c
                             | Inl e \<Rightarrow> [])
                      (schedule (audit_order env) files))"
    using a b by (simp_all add: set_schedule)
next
  assume "path_exists env p w \<and> read_header env p w = Inl e"
  then show "check env (lower key_id) (map lower (key_subkeys ki)) p w = Inl e"
    by (simp add: check_def)
next
  assume "path_exists env p w \<and> read_header env p w = Inr header
          \<and> (if truthy (RPMTAG_SIGGPG header) then RPMTAG_SIGGPG header else RPMTAG_SIGPGP header)
              = Some blob
          \<and> blob \<noteq> [] \<and> pgp_signers env blob = Inl e"
  then show "check env (lower key_id) (map lower (key_subkeys ki)) p w = Inl e"
    by (simp add: check_def Let_def)
next
  assume "f \<in> set files
          \<and> check env (lower key_id) (map lower (key_subkeys ki)) f (fst st) = Inl e"
  then have "f \<in> set files"
    "check env (lower key_id) (map lower (key_subkeys ki)) f (fst st) = Inl e"
    by simp_all
  from check_signature_raises[OF assms this]
  show "\<exists>pre f' e' post.
           schedule (audit_order env) files = pre @ f' # post
           \<and> (\<forall>g \<in> set pre.
                 \<exists>c. check env (lower key_id) (map lower (key_subkeys ki)) g (fst st) = Inr c)
           \<and> check env (lower key_id) (map lower (key_subkeys ki)) f' (fst st) = Inl e'
           \<and> check_signature env sg files key_id st
               = (Inl e', (fst st, snd st @ map EvCheck (schedule (audit_order env) files)))" .
next
  assume "get_pgp_keyid task = Some key_id \<and> key_id \<noteq> []
          \<and> fetch_stage env sg (key_fingerprint ki) (path_join (task_dir sg task) ''rpms'')
                (path_join (task_dir sg task) ''debs'') task (w0, [])
              = (Inr (packages, downloaded, pim), s1)
          \<and> verify_loop env sg pim [] s1 = (Inr vm, s2)
          \<and> sign_stage env sg key_id (key_password ki) (sign_files task)
                (path_join (task_dir sg task) ''rpms'') (path_join (task_dir sg task) ''debs'') s2
              = (None, s3)
          \<and> plan_uploads env sg vm downloaded packages s3 = (Inr pl, s4)
          \<and> f \<in> set (files_to_check pl)
          \<and> check env (lower key_id) (map lower (key_subkeys ki)) f (fst s4) = Inl e"
  then have h: "get_pgp_keyid task = Some key_id" "key_id \<noteq> []"
    "fetch_stage env sg (key_fingerprint ki) (path_join (task_dir sg task) ''rpms'')
                (path_join (task_dir sg task) ''debs'') task (w0, [])
              = (Inr (packages, downloaded, pim), s1)"
    "verify_loop env sg pim [] s1 = (Inr vm, s2)"
    "sign_stage env sg key_id (key_password ki) (sign_files task)
                (path_join (task_dir sg task) ''rpms'') (path_join (task_dir sg task) ''debs'') s2
              = (None, s3)"
    "plan_uploads env sg vm downloaded packages s3 = (Inr pl, s4)"
    "f \<in> set (files_to_check pl)"
    "check env (lower key_id) (map lower (key_subkeys ki)) f (fst s4) = Inl e"
    by simp_all
  from audit_failure_fails_task[OF h(1,2) assms h(3-8)]
  show "\<exists>f' e' r st' dc.
           f' \<in> set (files_to_check pl)
           \<and> check env (lower key_id) (map lower (key_subkeys ki)) f' (fst s4) = Inl e'
           \<and> run_task env sg task w0 = (r, st')
           \<and> snd st' = snd s4 @ map EvCheck (schedule (audit_order env) (files_to_check pl))
                 @ EvReport (task_id task)
                     \<lparr>build_id = task_build_id task, success = False,
                      error_message = Some (format_exc env e'), rp_packages = None,
                      has_stats = False\<rparr> # dc
           \<and> (dc = [] \<or> dc = [EvRmtree (task_dir sg task)])" .
qed

text \<open>The claim as stated fails for a file that exists and cannot be read: the check raises
  the library's error and classifies nothing.\<close>

theorem check_unreadable_counterexample:
  "path_exists unreadable_env ''/w/7/rpms/1/a.rpm'' [''/w/7/rpms/1/a.rpm'']
   \<and> check unreadable_env (lower ''abcd1234'') [] ''/w/7/rpms/1/a.rpm'' [''/w/7/rpms/1/a.rpm'']
       = Inl (ExternalError ''error reading package header'')
   \<and> check unreadable_env (lower ''abcd1234'') [] ''/w/7/rpms/1/a.rpm'' [''/w/7/rpms/1/a.rpm'']
       \<noteq> Inr (READ_ERROR, [])"
  by (simp add: check_def unreadable_env_def demo_env_def under_def)

theorem check_signature_classification_witness:
  "check wrong_key_env (lower ''abcd1234'') [] ''/w/7/rpms/1/a.rpm'' [] = Inr (READ_ERROR, [])
   \<and> check wrong_key_env (lower ''abcd1234'') [] ''/w/7/rpms/1/a.rpm'' [''/w/7/rpms/1/a.rpm'']
       = Inr (WRONG_SIGNATURE, ''deadbeef'')
   \<and> check demo_env (lower ''abcd1234'') [] ''/w/7/rpms/1/a.rpm'' [''/w/7/rpms/1/a.rpm'']
       = Inr (SUCCESS, [])
   \<and> [''Package /w/7/rpms/1/a.rpm is signed with the wrong key: deadbeef'']
       = concat (map (\<lambda>f. case check wrong_key_env (lower ''abcd1234'') [] f [''/w/7/rpms/1/a.rpm''] of
                               Inr c \<Rightarrow> audit_error f c
                             | Inl e \<Rightarrow> [])
                   (schedule (audit_order wrong_key_env) [''/w/7/rpms/1/a.rpm'']))
   \<and> check unreadable_env (lower ''abcd1234'') [] ''/w/7/rpms/1/a.rpm'' [''/w/7/rpms/1/a.rpm'']
       = Inl (ExternalError ''error reading package header'')
   \<and> check bad_signature_env (lower ''abcd1234'') [] ''/w/7/rpms/1/a.rpm'' [''/w/7/rpms/1/a.rpm'']
       = Inl (ExternalError ''not a PGP message'')
   \<and> check_signature bad_signature_env (demo_signer False) [''/w/7/rpms/1/a.rpm''] ''abcd1234''
         ([''/w/7/rpms/1/a.rpm''], [])
       = (Inl (ExternalError ''not a PGP message''),
          ([''/w/7/rpms/1/a.rpm''], [EvCheck ''/w/7/rpms/1/a.rpm'']))
   \<and> (\<exists>r st' dc.
         run_task bad_signature_env (demo_signer False) (demo_task [demo_pkg 1 ''a.rpm'']) []
           = (r, st')
         \<and> snd st' = snd one_rpm_signed @ EvCheck ''/w/7/rpms/1/a.rpm''
               # EvReport 7
                   \<lparr>build_id = Some 1, success = False,
                    error_message = Some ''ExternalError: not a PGP message'', rp_packages = None,
                    has_stats = False\<rparr> # dc
         \<and> (dc = [] \<or> dc = [EvRmtree ''/w/7'']))"
proof -
  let ?p = "''/w/7/rpms/1/a.rpm''"
  let ?ki = "\<lparr>key_password = ''pw'', key_fingerprint = ''fp'', key_subkeys = []\<rparr>"
  let ?hdr = "\<lparr>RPMTAG_SIGGPG = Some ''sig'', RPMTAG_SIGPGP = None\<rparr>"
  let ?task = "demo_task [demo_pkg 1 ''a.rpm'']"
  let ?bad = "ExternalError ''not a PGP message''"
  have k: "key_ids (demo_signer False) ''abcd1234'' = Some ?ki"
    by (simp add: demo_signer_def)
  have missing: "\<not> path_exists wrong_key_env ?p []"
    by (simp add: wrong_key_env_def demo_env_def)
  have present: "path_exists wrong_key_env ?p [?p] \<and> read_header wrong_key_env ?p [?p] = Inr ?hdr
      \<and> (if truthy (RPMTAG_SIGGPG ?hdr) then RPMTAG_SIGGPG ?hdr else RPMTAG_SIGPGP ?hdr) = Some ''sig''
      \<and> ''sig'' \<noteq> [] \<and> pgp_signers wrong_key_env ''sig'' = Inr [''DEADBEEF'']"
    by (simp add: wrong_key_env_def demo_env_def under_def truthy_def)
  have present': "path_exists demo_env ?p [?p] \<and> read_header demo_env ?p [?p] = Inr ?hdr
      \<and> (if truthy (RPMTAG_SIGGPG ?hdr) then RPMTAG_SIGGPG ?hdr else RPMTAG_SIGPGP ?hdr) = Some ''sig''
      \<and> ''sig'' \<noteq> [] \<and> pgp_signers demo_env ''sig'' = Inr [''ABCD1234'']"
    by (simp add: demo_env_def under_def truthy_def)
  have unreadable: "path_exists unreadable_env ?p [?p]
      \<and> read_header unreadable_env ?p [?p] = Inl (ExternalError ''error reading package header'')"
    by (simp add: unreadable_env_def demo_env_def under_def)
  have unparsable: "path_exists bad_signature_env ?p [?p]
      \<and> read_header bad_signature_env ?p [?p] = Inr ?hdr
      \<and> (if truthy (RPMTAG_SIGGPG ?hdr) then RPMTAG_SIGGPG ?hdr else RPMTAG_SIGPGP ?hdr) = Some ''sig''
      \<and> ''sig'' \<noteq> [] \<and> pgp_signers bad_signature_env ''sig'' = Inl ?bad"
    by (simp add: bad_signature_env_sel under_def truthy_def)
  have audit: "check_signature wrong_key_env (demo_signer False) [?p] ''abcd1234'' ([?p], [])
      = (Inr [''Package /w/7/rpms/1/a.rpm is signed with the wrong key: deadbeef''],
         ([?p], [EvCheck ?p]))"
    by (simp add: check_signature_def run_pool_def schedule.simps call_check_def check_def
        wrong_key_env_def demo_env_def demo_signer_def under_def truthy_def lower_def
        lower_char_def Let_def)
  have l: "lower ''DEADBEEF'' = ''deadbeef''" "lower ''abcd1234'' = ''abcd1234''"
      "lower ''ABCD1234'' = ''abcd1234''"
    by (simp_all add: lower_def lower_char_def)
  from check_signature_classification[OF k, where env=wrong_key_env and p="?p" and w="[]"] missing
  have 1: "check wrong_key_env (lower ''abcd1234'') [] ?p [] = Inr (READ_ERROR, [])"
    by simp
  from check_signature_classification[OF k, where env=wrong_key_env and p="?p" and w="[?p]"
      and header="?hdr" and blob="''sig''" and signers="[''DEADBEEF'']"]
    present
  have 2: "check wrong_key_env (lower ''abcd1234'') [] ?p [?p] = Inr (WRONG_SIGNATURE, ''deadbeef'')"
    by (simp add: l)
  from check_signature_classification[OF k, where env=demo_env and p="?p" and w="[?p]"
      and header="?hdr" and blob="''sig''" and signers="[''ABCD1234'']"]
    present'
  have 3: "check demo_env (lower ''abcd1234'') [] ?p [?p] = Inr (SUCCESS, [])"
    by (simp add: l)
  from check_signature_classification[OF k, where env=wrong_key_env and files="[?p]"
      and st="([?p], [])"
      and errors="[''Package /w/7/rpms/1/a.rpm is signed with the wrong key: deadbeef'']"
      and st'="([?p], [EvCheck ?p])"]
    audit
  have 4: "[''Package /w/7/rpms/1/a.rpm is signed with the wrong key: deadbeef'']
       = concat (map (\<lambda>f. case check wrong_key_env (lower ''abcd1234'') [] f [?p] of
                               Inr c \<Rightarrow> audit_error f c
                             | Inl e \<Rightarrow> [])
                   (schedule (audit_order wrong_key_env) [?p]))"
    by simp
  from check_signature_classification[OF k, where env=unreadable_env and p="?p" and w="[?p]"
      and e="ExternalError ''error reading package header''"]
    unreadable
  have 5: "check unreadable_env (lower ''abcd1234'') [] ?p [?p]
       = Inl (ExternalError ''error reading package header'')"
    by simp
  from check_signature_classification[OF k, where env=bad_signature_env and p="?p" and w="[?p]"
      and header="?hdr" and blob="''sig''" and e="?bad"]
    unparsable
  have 6: "check bad_signature_env (lower ''abcd1234'') [] ?p [?p] = Inl ?bad"
    by simp
  have six: "check bad_signature_env (lower ''abcd1234'') (map lower (key_subkeys ?ki)) ?p [?p]
       = Inl ?bad"
    using 6 by simp
  have sch: "schedule (audit_order bad_signature_env) [?p] = [?p]"
    by (simp add: bad_signature_env_sel schedule_first)
  have h7: "?p \<in> set [?p]
      \<and> check bad_signature_env (lower ''abcd1234'') (map lower (key_subkeys ?ki)) ?p
           (fst ([?p], [] :: event list)) = Inl ?bad"
    using six by simp
  note t7 = check_signature_classification[OF k, where env=bad_signature_env and files="[?p]"
      and st="([?p], [])" and f="?p" and e="?bad"]
  from t7[THEN conjunct2, THEN conjunct2, THEN conjunct2, THEN conjunct2, THEN conjunct2,
      THEN conjunct2, THEN conjunct1, THEN mp, OF h7]
  obtain pre f' e' post where r7:
    "schedule (audit_order bad_signature_env) [?p] = pre @ f' # post"
    "check bad_signature_env (lower ''abcd1234'') (map lower (key_subkeys ?ki)) f'
        (fst ([?p], [] :: event list)) = Inl e'"
    "check_signature bad_signature_env (demo_signer False) [?p] ''abcd1234'' ([?p], [])
       = (Inl e', (fst ([?p], [] :: event list),
            snd ([?p], [] :: event list) @ map EvCheck (schedule (audit_order bad_signature_env) [?p])))"
    by blast
  from r7(1) have "f' = ?p" unfolding sch by (cases pre) auto
  with r7(2) six have "e' = ?bad" by simp
  with r7(3) have 7: "check_signature bad_signature_env (demo_signer False) [?p] ''abcd1234''
         ([?p], [])
       = (Inl ?bad, ([?p], [EvCheck ?p]))"
    unfolding sch by simp
  have w4: "fst one_rpm_signed = [?p, ''/w/7/rpms/1'']" by (simp add: one_rpm_signed_def)
  have chk4: "check bad_signature_env (lower ''abcd1234'') (map lower (key_subkeys ?ki)) ?p
      (fst one_rpm_signed) = Inl ?bad"
    unfolding w4 by (simp add: check_def bad_signature_env_sel under_def truthy_def Let_def)
  have h8: "get_pgp_keyid ?task = Some ''abcd1234'' \<and> ''abcd1234'' \<noteq> []
      \<and> fetch_stage bad_signature_env (demo_signer False) (key_fingerprint ?ki)
            (path_join (task_dir (demo_signer False) ?task) ''rpms'')
            (path_join (task_dir (demo_signer False) ?task) ''debs'') ?task ([], [])
          = (Inr (one_rpm_packages None, [(1, Some ''a.rpm'', ?p, None)],
                  [(?p, demo_pkg 1 ''a.rpm'')]), one_rpm_fetched)
      \<and> verify_loop bad_signature_env (demo_signer False) [(?p, demo_pkg 1 ''a.rpm'')] []
            one_rpm_fetched = (Inr [], one_rpm_fetched)
      \<and> sign_stage bad_signature_env (demo_signer False) ''abcd1234'' (key_password ?ki)
            (sign_files ?task)
            (path_join (task_dir (demo_signer False) ?task) ''rpms'')
            (path_join (task_dir (demo_signer False) ?task) ''debs'') one_rpm_fetched
          = (None, one_rpm_signed)
      \<and> plan_uploads bad_signature_env (demo_signer False) [] [(1, Some ''a.rpm'', ?p, None)]
            (one_rpm_packages None) one_rpm_signed
          = (Inr one_rpm_plan, one_rpm_signed)
      \<and> ?p \<in> set (files_to_check one_rpm_plan)
      \<and> check bad_signature_env (lower ''abcd1234'') (map lower (key_subkeys ?ki)) ?p
            (fst one_rpm_signed) = Inl ?bad"
    using bad_signature_stages chk4
    by (simp add: get_pgp_keyid_def demo_task_def one_rpm_plan_def)
  note t8 = check_signature_classification[OF k, where env=bad_signature_env and task="?task"
      and ?w0.0="[]" and packages="one_rpm_packages None"
      and downloaded="[(1, Some ''a.rpm'', ?p, None)]" and pim="[(?p, demo_pkg 1 ''a.rpm'')]"
      and ?s1.0=one_rpm_fetched and vm="[]" and ?s2.0=one_rpm_fetched and ?s3.0=one_rpm_signed
      and pl=one_rpm_plan and ?s4.0=one_rpm_signed and f="?p" and e="?bad"]
  from t8[THEN conjunct2, THEN conjunct2, THEN conjunct2, THEN conjunct2, THEN conjunct2,
      THEN conjunct2, THEN conjunct2, THEN mp, OF h8]
  obtain f' e' r st' dc where r8:
    "f' \<in> set (files_to_check one_rpm_plan)"
    "check bad_signature_env (lower ''abcd1234'') (map lower (key_subkeys ?ki)) f'
        (fst one_rpm_signed) = Inl e'"
    "run_task bad_signature_env (demo_signer False) ?task [] = (r, st')"
    "snd st' = snd one_rpm_signed
         @ map EvCheck (schedule (audit_order bad_signature_env) (files_to_check one_rpm_plan))
         @ EvReport (task_id ?task)
             \<lparr>build_id = task_build_id ?task, success = False,
              error_message = Some (format_exc bad_signature_env e'), rp_packages = None,
              has_stats = False\<rparr> # dc"
    "dc = [] \<or> dc = [EvRmtree (task_dir (demo_signer False) ?task)]"
    by blast
  from r8(1) have "f' = ?p" by (simp add: one_rpm_plan_def)
  with r8(2) chk4 have e8: "e' = ?bad" by simp
  have c: "task_id ?task = 7" "task_build_id ?task = Some 1"
    "task_dir (demo_signer False) ?task = ''/w/7''"
    "format_exc bad_signature_env ?bad = ''ExternalError: not a PGP message''"
    "files_to_check one_rpm_plan = [?p]"
    by (simp_all add: demo_task_def task_dir_def demo_signer_def path_join_def str_nat.simps
        digit_char_def bad_signature_env_sel one_rpm_plan_def)
  from r8(3,4,5) have 8: "\<exists>r st' dc.
         run_task bad_signature_env (demo_signer False) ?task [] = (r, st')
         \<and> snd st' = snd one_rpm_signed @ EvCheck ?p
               # EvReport 7
                   \<lparr>build_id = Some 1, success = False,
                    error_message = Some ''ExternalError: not a PGP message'', rp_packages = None,
                    has_stats = False\<rparr> # dc
         \<and> (dc = [] \<or> dc = [EvRmtree ''/w/7''])"
    unfolding e8 c sch by (intro exI[of _ r] exI[of _ st'] exI[of _ dc]) simp
  from 1 2 3 4 5 6 7 8 show ?thesis by blast
qed

end
